theory Spec2Isabelle
  imports Complex_Main "HOL-Library.Word"
begin

section \<open>EngineState and its derived predicates\<close>

text \<open>
  The engine of \<^verbatim>\<open>modules/audio_device/audio_engine_device.mm\<close> keeps one plain record
  of settings, \<^verbatim>\<open>EngineState\<close>, and classifies every requested transition by the pair
  of the committed and the requested record, \<^verbatim>\<open>EngineStateUpdate\<close>.
\<close>

datatype RenderMode = Device | Manual

datatype MuteMode = VoiceProcessing | RestartEngine | InputMixer

record EngineState =
  input_enabled :: bool
  input_running :: bool
  output_enabled :: bool
  output_running :: bool
  input_follow_mode :: bool
  input_enabled_persistent_mode :: bool
  input_muted :: bool
  is_interrupted :: bool
  render_mode :: RenderMode
  mute_mode :: MuteMode
  voice_processing_enabled :: bool
  voice_processing_bypassed :: bool
  voice_processing_agc_enabled :: bool
  advanced_ducking :: bool
  ducking_level :: int
  output_device_id :: "32 word"
  input_device_id :: "32 word"
  default_output_device_update_count :: "32 word"
  default_input_device_update_count :: "32 word"

text \<open>The member initialisers of the struct: the value of \<^verbatim>\<open>EngineState{}\<close>.\<close>

definition default_EngineState :: EngineState where
  "default_EngineState =
     \<lparr> input_enabled = False, input_running = False,
       output_enabled = False, output_running = False,
       input_follow_mode = True, input_enabled_persistent_mode = False,
       input_muted = True, is_interrupted = False,
       render_mode = Device, mute_mode = VoiceProcessing,
       voice_processing_enabled = True, voice_processing_bypassed = False,
       voice_processing_agc_enabled = True, advanced_ducking = True,
       ducking_level = 0,
       output_device_id = 0, input_device_id = 0,
       default_output_device_update_count = 0,
       default_input_device_update_count = 0 \<rparr>"

text \<open>\<^verbatim>\<open>kAudioObjectUnknown\<close> of CoreAudio, the "default device" sentinel.\<close>

definition kAudioObjectUnknown :: "32 word" where
  "kAudioObjectUnknown = 0"

text \<open>\<^verbatim>\<open>EngineState::operator==\<close>, field by field as the source lists them.\<close>

definition EngineState_eq :: "EngineState \<Rightarrow> EngineState \<Rightarrow> bool" where
  "EngineState_eq a b \<longleftrightarrow>
     input_enabled a = input_enabled b \<and> input_running a = input_running b \<and>
     output_enabled a = output_enabled b \<and> output_running a = output_running b \<and>
     input_follow_mode a = input_follow_mode b \<and>
     input_enabled_persistent_mode a = input_enabled_persistent_mode b \<and>
     input_muted a = input_muted b \<and> is_interrupted a = is_interrupted b \<and>
     render_mode a = render_mode b \<and> mute_mode a = mute_mode b \<and>
     voice_processing_enabled a = voice_processing_enabled b \<and>
     voice_processing_bypassed a = voice_processing_bypassed b \<and>
     voice_processing_agc_enabled a = voice_processing_agc_enabled b \<and>
     advanced_ducking a = advanced_ducking b \<and> ducking_level a = ducking_level b \<and>
     output_device_id a = output_device_id b \<and> input_device_id a = input_device_id b \<and>
     default_output_device_update_count a = default_output_device_update_count b \<and>
     default_input_device_update_count a = default_input_device_update_count b"

definition IsOutputInputLinked :: "EngineState \<Rightarrow> bool" where
  "IsOutputInputLinked s \<longleftrightarrow> input_follow_mode s \<and> voice_processing_enabled s"

definition IsInputEnabled :: "EngineState \<Rightarrow> bool" where
  "IsInputEnabled s \<longleftrightarrow>
     \<not> (mute_mode s = RestartEngine \<and> input_muted s) \<and>
     (input_enabled s \<or> input_enabled_persistent_mode s)"

definition IsInputRunning :: "EngineState \<Rightarrow> bool" where
  "IsInputRunning s \<longleftrightarrow>
     \<not> (mute_mode s = RestartEngine \<and> input_muted s) \<and> input_running s"

definition IsOutputEnabled :: "EngineState \<Rightarrow> bool" where
  "IsOutputEnabled s =
     (if IsOutputInputLinked s then (IsInputEnabled s \<or> output_enabled s)
      else output_enabled s)"

definition IsOutputRunning :: "EngineState \<Rightarrow> bool" where
  "IsOutputRunning s =
     (if IsOutputInputLinked s then (IsInputRunning s \<or> output_running s)
      else output_running s)"

definition IsAnyEnabled :: "EngineState \<Rightarrow> bool" where
  "IsAnyEnabled s \<longleftrightarrow> IsInputEnabled s \<or> IsOutputEnabled s"

definition IsAnyRunning :: "EngineState \<Rightarrow> bool" where
  "IsAnyRunning s \<longleftrightarrow> IsInputRunning s \<or> IsOutputRunning s"

definition IsAllEnabled :: "EngineState \<Rightarrow> bool" where
  "IsAllEnabled s =
     (if IsOutputInputLinked s then IsInputEnabled s
      else IsInputEnabled s \<and> output_enabled s)"

definition IsAllRunning :: "EngineState \<Rightarrow> bool" where
  "IsAllRunning s =
     (if IsOutputInputLinked s then input_running s
      else input_running s \<and> output_running s)"

text \<open>Both branches of the \<^verbatim>\<open>TARGET_OS_OSX\<close> conditional compare with 0.\<close>

definition IsOutputDefaultDevice :: "EngineState \<Rightarrow> bool" where
  "IsOutputDefaultDevice s \<longleftrightarrow> output_device_id s = kAudioObjectUnknown"

definition IsInputDefaultDevice :: "EngineState \<Rightarrow> bool" where
  "IsInputDefaultDevice s \<longleftrightarrow> input_device_id s = kAudioObjectUnknown"

section \<open>EngineStateUpdate: the diff of two states\<close>

record EngineStateUpdate =
  prev :: EngineState
  "next" :: EngineState

definition HasNoChanges :: "EngineStateUpdate \<Rightarrow> bool" where
  "HasNoChanges u \<longleftrightarrow> EngineState_eq (prev u) (next u)"

definition DidEnableOutput :: "EngineStateUpdate \<Rightarrow> bool" where
  "DidEnableOutput u \<longleftrightarrow> \<not> IsOutputEnabled (prev u) \<and> IsOutputEnabled (next u)"

definition DidEnableInput :: "EngineStateUpdate \<Rightarrow> bool" where
  "DidEnableInput u \<longleftrightarrow> \<not> IsInputEnabled (prev u) \<and> IsInputEnabled (next u)"

definition DidDisableOutput :: "EngineStateUpdate \<Rightarrow> bool" where
  "DidDisableOutput u \<longleftrightarrow> IsOutputEnabled (prev u) \<and> \<not> IsOutputEnabled (next u)"

definition DidDisableInput :: "EngineStateUpdate \<Rightarrow> bool" where
  "DidDisableInput u \<longleftrightarrow> IsInputEnabled (prev u) \<and> \<not> IsInputEnabled (next u)"

definition DidAnyEnable :: "EngineStateUpdate \<Rightarrow> bool" where
  "DidAnyEnable u \<longleftrightarrow> DidEnableOutput u \<or> DidEnableInput u"

definition DidAnyDisable :: "EngineStateUpdate \<Rightarrow> bool" where
  "DidAnyDisable u \<longleftrightarrow> DidDisableOutput u \<or> DidDisableInput u"

definition DidBeginInterruption :: "EngineStateUpdate \<Rightarrow> bool" where
  "DidBeginInterruption u \<longleftrightarrow> \<not> is_interrupted (prev u) \<and> is_interrupted (next u)"

definition DidEndInterruption :: "EngineStateUpdate \<Rightarrow> bool" where
  "DidEndInterruption u \<longleftrightarrow> is_interrupted (prev u) \<and> \<not> is_interrupted (next u)"

definition DidUpdateAudioGraph :: "EngineStateUpdate \<Rightarrow> bool" where
  "DidUpdateAudioGraph u \<longleftrightarrow>
     IsInputEnabled (prev u) \<noteq> IsInputEnabled (next u) \<or>
     IsOutputEnabled (prev u) \<noteq> IsOutputEnabled (next u)"

definition DidUpdateVoiceProcessingEnabled :: "EngineStateUpdate \<Rightarrow> bool" where
  "DidUpdateVoiceProcessingEnabled u \<longleftrightarrow>
     voice_processing_enabled (prev u) \<noteq> voice_processing_enabled (next u)"

definition DidUpdateOutputDevice :: "EngineStateUpdate \<Rightarrow> bool" where
  "DidUpdateOutputDevice u \<longleftrightarrow> output_device_id (prev u) \<noteq> output_device_id (next u)"

definition DidUpdateInputDevice :: "EngineStateUpdate \<Rightarrow> bool" where
  "DidUpdateInputDevice u \<longleftrightarrow> input_device_id (prev u) \<noteq> input_device_id (next u)"

definition DidUpdateDefaultOutputDevice :: "EngineStateUpdate \<Rightarrow> bool" where
  "DidUpdateDefaultOutputDevice u \<longleftrightarrow>
     default_output_device_update_count (prev u) \<noteq>
     default_output_device_update_count (next u)"

definition DidUpdateDefaultInputDevice :: "EngineStateUpdate \<Rightarrow> bool" where
  "DidUpdateDefaultInputDevice u \<longleftrightarrow>
     default_input_device_update_count (prev u) \<noteq>
     default_input_device_update_count (next u)"

definition DidUpdateMuteMode :: "EngineStateUpdate \<Rightarrow> bool" where
  "DidUpdateMuteMode u \<longleftrightarrow> mute_mode (prev u) \<noteq> mute_mode (next u)"

definition IsEngineRestartRequired :: "EngineStateUpdate \<Rightarrow> bool" where
  "IsEngineRestartRequired u \<longleftrightarrow>
     DidUpdateAudioGraph u \<or> DidUpdateVoiceProcessingEnabled u"

definition IsEngineRecreateRequired :: "EngineStateUpdate \<Rightarrow> bool" where
  "IsEngineRecreateRequired u =
     (let device = (DidUpdateOutputDevice u \<or> DidUpdateInputDevice u);
          default_device =
            ((DidUpdateDefaultOutputDevice u \<and> IsOutputDefaultDevice (next u)) \<or>
             (DidUpdateDefaultInputDevice u \<and> IsInputDefaultDevice (next u)));
          special_case =
            ((IsOutputEnabled (prev u) \<and> IsOutputEnabled (next u)) \<and>
             (IsInputEnabled (prev u) \<and> \<not> IsInputEnabled (next u)))
      in device \<or> default_device \<or> special_case)"

definition DidEnableManualRenderingMode :: "EngineStateUpdate \<Rightarrow> bool" where
  "DidEnableManualRenderingMode u \<longleftrightarrow>
     render_mode (prev u) \<noteq> Manual \<and> render_mode (next u) = Manual"

definition DidEnableDeviceRenderingMode :: "EngineStateUpdate \<Rightarrow> bool" where
  "DidEnableDeviceRenderingMode u \<longleftrightarrow>
     render_mode (prev u) \<noteq> Device \<and> render_mode (next u) = Device"

section \<open>The platform the appliers drive\<close>

text \<open>
  The appliers edit an \<^verbatim>\<open>AVAudioEngine\<close> node graph, the PCM buffer
  (\<^verbatim>\<open>AudioDeviceBuffer\<close>) and a handful of members of the device object, and they
  call the observer. The model keeps the members the appliers read back and records
  every outward call in a trace. Messages to a \<^verbatim>\<open>nil\<close> Objective-C object do
  nothing and read as zero; a call through a null \<^verbatim>\<open>std::unique_ptr\<close> has no
  defined result and is the value \<open>None\<close>. \<^verbatim>\<open>RTC_DCHECK\<close> and logging are
  compiled out, as in a release build.
\<close>

type_synonym node_id = nat

record AVAudioEngine =
  engine_running :: bool
  attachedNodes :: "node_id list"
  manualRenderingMode :: bool
  voiceProcessingEnabled :: bool
  voiceProcessingInputMuted :: bool
  voiceProcessingBypassed :: bool
  voiceProcessingAGCEnabled :: bool
  otherAudioDuckingConfiguration :: "(bool \<times> int) option"
  mutedSpeechActivityEventListener :: bool
  inputCurrentDevice :: "32 word option"
  outputCurrentDevice :: "32 word option"

text \<open>\<^verbatim>\<open>[[AVAudioEngine alloc] init]\<close>: stopped, nothing attached, voice processing off.\<close>

definition new_AVAudioEngine :: AVAudioEngine where
  "new_AVAudioEngine =
     \<lparr> engine_running = False, attachedNodes = [], manualRenderingMode = False,
       voiceProcessingEnabled = False, voiceProcessingInputMuted = False,
       voiceProcessingBypassed = False, voiceProcessingAGCEnabled = True,
       otherAudioDuckingConfiguration = None,
       mutedSpeechActivityEventListener = False,
       inputCurrentDevice = None, outputCurrentDevice = None \<rparr>"

record AVAudioMixerNode =
  mixer_id :: node_id
  outputVolume :: rat

datatype obs_call =
    OnEngineDidCreate
  | OnEngineWillEnable bool bool
  | OnEngineWillStart bool bool
  | OnEngineDidStop bool bool
  | OnEngineDidDisable bool bool
  | OnEngineWillRelease
  | OnEngineWillConnectInput
  | OnEngineWillConnectOutput

datatype graph_node = SourceNode | MainMixerNode | OutputNode | InputNode
  | InputMixerNode | SinkNode

datatype event =
    ApplyDevice EngineStateUpdate
  | ApplyManual EngineStateUpdate
  | Observer obs_call int
  | BufStartPlayout | BufStopPlayout | BufStartRecording | BufStopRecording
  | SetPlayoutFormat real nat
  | SetRecordingFormat real nat
  | NewFineAudioBuffer | ResetPlayout | ResetRecord
  | EngineStop | EnginePrepare | EngineStart bool
  | Usleep nat
  | Connect graph_node graph_node
  | DetachWarning
  | DebugAudioEngine
  | RenderThreadStart | RenderThreadStop

datatype rollback_action = RollbackCreateEngine

record platform =
  engine_device :: "AVAudioEngine option"
  engine_manual_input :: "AVAudioEngine option"
  buffer_playing :: bool
  buffer_recording :: bool
  fine_audio_buffer :: bool
  source_node :: "node_id option"
  input_mixer_node :: "AVAudioMixerNode option"
  sink_node :: "node_id option"
  converter_ref :: bool
  converter_buffer :: bool
  configuration_observer :: bool
  render_thread :: bool
  render_buffer :: bool
  read_buffer :: bool
  render_block :: bool
  next_node_id :: node_id
  rollback_actions :: "rollback_action list"
  trace :: "event list"

text \<open>
  What the appliers cannot decide themselves: the registered observer (\<open>None\<close> is
  \<^verbatim>\<open>observer_ == nullptr\<close>; its answer may depend on everything that happened before),
  the build target, and what the hardware reports.
\<close>

record env =
  observer :: "(event list \<Rightarrow> obs_call \<Rightarrow> int) option"
  target_os_osx :: bool
  target_os_simulator :: bool
  target_os_tv :: bool
  os_available_17 :: bool
  hw_output_format :: "real \<times> nat"
  hw_input_format :: "real \<times> nat"
  set_vp_succeeds :: bool
  observer_connects_input_mixer :: bool
  engine_start_succeeds :: "nat \<Rightarrow> bool"
  manual_start_succeeds :: bool

type_synonym result = "(int \<times> platform) option"

type_synonym step = "platform \<Rightarrow> result"

definition kStartEngineMaxRetries :: nat where
  "kStartEngineMaxRetries = 10"

definition kStartEngineRetryDelayMs :: nat where
  "kStartEngineRetryDelayMs = 100"

definition kMaximumFramesPerBuffer :: nat where
  "kMaximumFramesPerBuffer = 3072"

definition kAudioEnginePlayoutDeviceNotAvailableError :: int where
  "kAudioEnginePlayoutDeviceNotAvailableError = - 3010"

definition kAudioEngineRecordingDeviceNotAvailableError :: int where
  "kAudioEngineRecordingDeviceNotAvailableError = - 4010"

definition emit :: "event \<Rightarrow> platform \<Rightarrow> platform" where
  "emit e p = p\<lparr>trace := trace p @ [e]\<rparr>"

definition emits :: "event list \<Rightarrow> platform \<Rightarrow> platform" where
  "emits es p = p\<lparr>trace := trace p @ es\<rparr>"

text \<open>
  The recurring block \<^verbatim>\<open>if (observer_ != nullptr) { result = observer_->F(..);
  if (result != 0) return result; }\<close>, followed by the rest \<open>k\<close> of the step.
\<close>

definition notify :: "env \<Rightarrow> obs_call \<Rightarrow> step \<Rightarrow> step" where
  "notify e c k p =
     (case observer e of
        None \<Rightarrow> k p
      | Some f \<Rightarrow>
          (let r = f (trace p) c; p' = emit (Observer c r) p
           in if r \<noteq> 0 then Some (r, p') else k p'))"

text \<open>Walk the steps in order; the first non-zero result (or crash) ends the walk.\<close>

fun run_steps :: "step list \<Rightarrow> step" where
  "run_steps [] p = Some (0, p)"
| "run_steps (s # ss) p =
     (case s p of
        None \<Rightarrow> None
      | Some (r, p') \<Rightarrow> if r \<noteq> 0 then Some (r, p') else run_steps ss p')"

definition skip :: step where
  "skip p = Some (0, p)"

text \<open>Reads and writes on an engine reference that may be \<^verbatim>\<open>nil\<close>.\<close>

definition eng_get :: "(AVAudioEngine \<Rightarrow> bool) \<Rightarrow> AVAudioEngine option \<Rightarrow> bool" where
  "eng_get f e = (case e of None \<Rightarrow> False | Some g \<Rightarrow> f g)"

definition is_attached :: "node_id \<Rightarrow> AVAudioEngine option \<Rightarrow> bool" where
  "is_attached n e = (case e of None \<Rightarrow> False | Some g \<Rightarrow> n \<in> set (attachedNodes g))"

definition attachNode :: "node_id \<Rightarrow> AVAudioEngine \<Rightarrow> AVAudioEngine" where
  "attachNode n g = g\<lparr>attachedNodes := attachedNodes g @ [n]\<rparr>"

definition detachNode :: "node_id \<Rightarrow> AVAudioEngine \<Rightarrow> AVAudioEngine" where
  "detachNode n g = g\<lparr>attachedNodes := removeAll n (attachedNodes g)\<rparr>"

definition upd_device :: "(AVAudioEngine \<Rightarrow> AVAudioEngine) \<Rightarrow> platform \<Rightarrow> platform" where
  "upd_device f p = p\<lparr>engine_device := map_option f (engine_device p)\<rparr>"

definition upd_manual :: "(AVAudioEngine \<Rightarrow> AVAudioEngine) \<Rightarrow> platform \<Rightarrow> platform" where
  "upd_manual f p = p\<lparr>engine_manual_input := map_option f (engine_manual_input p)\<rparr>"

section \<open>The device-mode applier\<close>

text \<open>
  \<^verbatim>\<open>ApplyDeviceEngineState\<close> walks a fixed sequence of guarded steps; each
  definition below is one \<^verbatim>\<open>// Step:\<close> block of the source, in the source's order.
\<close>

definition step_stop_engine :: "env \<Rightarrow> EngineStateUpdate \<Rightarrow> step" where
  "step_stop_engine e state p =
     (if IsAnyRunning (prev state) \<and>
         (\<not> IsAnyRunning (next state) \<or> IsEngineRestartRequired state \<or>
          DidBeginInterruption state \<or> IsEngineRecreateRequired state)
      then
        (let p1 = (if configuration_observer p then p\<lparr>configuration_observer := False\<rparr> else p);
             p2 = emit EngineStop (upd_device (\<lambda>g. g\<lparr>engine_running := False\<rparr>) p1)
         in notify e (OnEngineDidStop (IsOutputEnabled (next state)) (IsInputEnabled (next state)))
              skip p2)
      else Some (0, p))"

definition step_release_for_recreate :: "env \<Rightarrow> EngineStateUpdate \<Rightarrow> step" where
  "step_release_for_recreate e state p =
     (if IsEngineRecreateRequired state
      then notify e OnEngineWillRelease (\<lambda>q. Some (0, q\<lparr>engine_device := None\<rparr>)) p
      else Some (0, p))"

definition step_create_engine :: "env \<Rightarrow> EngineStateUpdate \<Rightarrow> step" where
  "step_create_engine e state p =
     (if IsAnyEnabled (next state) \<and>
         (\<not> IsAnyEnabled (prev state) \<or> IsEngineRecreateRequired state)
      then notify e OnEngineDidCreate skip
             (p\<lparr>engine_device := Some new_AVAudioEngine,
                rollback_actions := rollback_actions p @ [RollbackCreateEngine]\<rparr>)
      else Some (0, p))"

definition step_stop_playout_buffer :: "EngineStateUpdate \<Rightarrow> step" where
  "step_stop_playout_buffer state p =
     (if \<not> IsOutputEnabled (next state) \<and> buffer_playing p
      then Some (0, emit BufStopPlayout (p\<lparr>buffer_playing := False\<rparr>))
      else Some (0, p))"

definition step_stop_recording_buffer :: "EngineStateUpdate \<Rightarrow> step" where
  "step_stop_recording_buffer state p =
     (if \<not> IsInputEnabled (next state) \<and> buffer_recording p
      then Some (0, emit BufStopRecording (p\<lparr>buffer_recording := False\<rparr>))
      else Some (0, p))"

definition step_will_enable :: "env \<Rightarrow> EngineStateUpdate \<Rightarrow> step" where
  "step_will_enable e state p =
     (if DidAnyEnable state
      then notify e (OnEngineWillEnable (IsOutputEnabled (next state))
                       (IsInputEnabled (next state))) skip p
      else Some (0, p))"

definition step_configure_voice_processing :: "env \<Rightarrow> EngineStateUpdate \<Rightarrow> step" where
  "step_configure_voice_processing e state p =
     (if IsInputEnabled (next state) \<and>
         eng_get voiceProcessingEnabled (engine_device p) \<noteq> voice_processing_enabled (next state)
      then
        (let p1 = (if target_os_simulator e then p
                   else if set_vp_succeeds e
                     then upd_device (\<lambda>g. g\<lparr>voiceProcessingEnabled :=
                            voice_processing_enabled (next state)\<rparr>) p
                     else p)
         in if eng_get voiceProcessingEnabled (engine_device p1)
            then
              (let p2 = (if mute_mode (next state) = RestartEngine \<and>
                            eng_get voiceProcessingInputMuted (engine_device p1)
                         then upd_device (\<lambda>g. g\<lparr>voiceProcessingInputMuted := False\<rparr>) p1
                         else p1);
                   p3 = (if os_available_17 e
                         then upd_device (\<lambda>g. g\<lparr>mutedSpeechActivityEventListener := True\<rparr>) p2
                         else p2)
               in Some (0, p3))
            else Some (0, p1))
      else Some (0, p))"

definition step_enable_output :: "env \<Rightarrow> EngineStateUpdate \<Rightarrow> step" where
  "step_enable_output e state p =
     (if IsOutputEnabled (next state) \<and>
         (\<not> IsOutputEnabled (prev state) \<or> IsEngineRecreateRequired state)
      then
        (let output_node_format =
               (case engine_device p of None \<Rightarrow> (0, 0) | Some g \<Rightarrow> hw_output_format e)
         in if fst output_node_format = 0 \<or> snd output_node_format = 0
            then Some (kAudioEnginePlayoutDeviceNotAvailableError, p)
            else
              (let n = next_node_id p;
                   p1 = emits [SetPlayoutFormat (fst output_node_format) 1, NewFineAudioBuffer]
                          (p\<lparr>fine_audio_buffer := True\<rparr>);
                   p2 = upd_device (attachNode n)
                          (p1\<lparr>source_node := Some n, next_node_id := Suc n\<rparr>);
                   p3 = emits [Connect SourceNode MainMixerNode,
                               Connect MainMixerNode OutputNode] p2
               in notify e OnEngineWillConnectOutput skip p3))
      else if (IsOutputEnabled (prev state) \<and> \<not> IsOutputEnabled (next state)) \<and>
              \<not> IsEngineRecreateRequired state
      then
        (case source_node p of
           None \<Rightarrow> Some (0, p)
         | Some n \<Rightarrow>
             Some (0, (if \<not> is_attached n (engine_device p) then emit DetachWarning p
                       else upd_device (detachNode n) p)\<lparr>source_node := None\<rparr>))
      else Some (0, p))"

definition step_enable_input :: "env \<Rightarrow> EngineStateUpdate \<Rightarrow> step" where
  "step_enable_input e state p =
     (if IsInputEnabled (next state) \<and>
         (\<not> IsInputEnabled (prev state) \<or> IsEngineRecreateRequired state)
      then
        (let input_node_format =
               (case engine_device p of None \<Rightarrow> (0, 0) | Some g \<Rightarrow> hw_input_format e)
         in if fst input_node_format = 0 \<or> snd input_node_format = 0
            then Some (kAudioEngineRecordingDeviceNotAvailableError, p)
            else
              (let n = next_node_id p;
                   p1 = upd_device (attachNode n)
                          (p\<lparr>input_mixer_node := Some \<lparr>mixer_id = n, outputVolume = 1\<rparr>,
                             next_node_id := Suc n\<rparr>);
                   p2 = emits [SetRecordingFormat (fst input_node_format) 1, NewFineAudioBuffer]
                          (p1\<lparr>fine_audio_buffer := True\<rparr>);
                   p3 = p2\<lparr>converter_ref := True, converter_buffer := True\<rparr>
               in notify e OnEngineWillConnectInput
                    (\<lambda>q.
                       let q1 = (if observer e \<noteq> None \<and> observer_connects_input_mixer e then q
                                 else emit (Connect InputNode InputMixerNode) q);
                           m = next_node_id q1;
                           q2 = upd_device (attachNode m)
                                  (q1\<lparr>sink_node := Some m, next_node_id := Suc m\<rparr>)
                       in Some (0, emit (Connect InputMixerNode SinkNode) q2))
                    p3))
      else if (IsInputEnabled (prev state) \<and> \<not> IsInputEnabled (next state)) \<and>
              \<not> IsEngineRecreateRequired state
      then
        (let p1 = (if eng_get voiceProcessingEnabled (engine_device p) \<and>
                      eng_get voiceProcessingInputMuted (engine_device p)
                   then upd_device (\<lambda>g. g\<lparr>voiceProcessingInputMuted := False\<rparr>) p
                   else p);
             p2 = (case input_mixer_node p1 of
                     None \<Rightarrow> p1
                   | Some m \<Rightarrow>
                       if \<not> is_attached (mixer_id m) (engine_device p1)
                       then emit DetachWarning p1
                       else (upd_device (detachNode (mixer_id m)) p1)\<lparr>input_mixer_node := None\<rparr>);
             p3 = (case sink_node p2 of
                     None \<Rightarrow> p2
                   | Some n \<Rightarrow>
                       if \<not> is_attached n (engine_device p2)
                       then emit DetachWarning p2
                       else (upd_device (detachNode n) p2)\<lparr>sink_node := None\<rparr>)
         in Some (0, p3\<lparr>converter_ref := False, converter_buffer := False\<rparr>))
      else Some (0, p))"

definition step_did_disable :: "env \<Rightarrow> EngineStateUpdate \<Rightarrow> step" where
  "step_did_disable e state p =
     (if DidAnyDisable state
      then notify e (OnEngineDidDisable (IsOutputEnabled (next state))
                       (IsInputEnabled (next state))) skip p
      else Some (0, p))"

definition step_mute_voice_processing :: "EngineStateUpdate \<Rightarrow> step" where
  "step_mute_voice_processing state p =
     (if mute_mode (next state) = VoiceProcessing \<and> IsInputEnabled (next state) \<and>
         eng_get voiceProcessingEnabled (engine_device p) \<and>
         eng_get voiceProcessingInputMuted (engine_device p) \<noteq> input_muted (next state)
      then Some (0, upd_device
                      (\<lambda>g. g\<lparr>voiceProcessingInputMuted := input_muted (next state)\<rparr>) p)
      else Some (0, p))"

definition step_mute_input_mixer :: "EngineStateUpdate \<Rightarrow> step" where
  "step_mute_input_mixer state p =
     (if mute_mode (next state) = InputMixer \<and> IsInputEnabled (next state)
      then
        (case input_mixer_node p of
           None \<Rightarrow> Some (0, p)
         | Some m \<Rightarrow>
             (let mixer_volume = (if input_muted (next state) then 0 else 1)
              in if outputVolume m \<noteq> mixer_volume
                 then Some (0, p\<lparr>input_mixer_node := Some (m\<lparr>outputVolume := mixer_volume\<rparr>)\<rparr>)
                 else Some (0, p)))
      else Some (0, p))"

definition step_configure_ducking :: "env \<Rightarrow> EngineStateUpdate \<Rightarrow> step" where
  "step_configure_ducking e state p =
     (if \<not> target_os_tv e \<and> IsInputEnabled (next state) \<and>
         eng_get voiceProcessingEnabled (engine_device p) \<and>
         (\<not> IsInputEnabled (prev state) \<or>
          (advanced_ducking (prev state) \<noteq> advanced_ducking (next state) \<or>
           ducking_level (prev state) \<noteq> ducking_level (next state)))
      then
        (if os_available_17 e
         then Some (0, upd_device
                         (\<lambda>g. g\<lparr>otherAudioDuckingConfiguration :=
                                 Some (advanced_ducking (next state), ducking_level (next state))\<rparr>) p)
         else Some (0, p))
      else Some (0, p))"

definition step_bypass_voice_processing :: "EngineStateUpdate \<Rightarrow> step" where
  "step_bypass_voice_processing state p =
     (if IsInputEnabled (next state) \<and> eng_get voiceProcessingEnabled (engine_device p) \<and>
         eng_get voiceProcessingBypassed (engine_device p) \<noteq>
           voice_processing_bypassed (next state)
      then Some (0, upd_device
                      (\<lambda>g. g\<lparr>voiceProcessingBypassed := voice_processing_bypassed (next state)\<rparr>) p)
      else Some (0, p))"

definition step_configure_agc :: "EngineStateUpdate \<Rightarrow> step" where
  "step_configure_agc state p =
     (if IsInputEnabled (next state) \<and> eng_get voiceProcessingEnabled (engine_device p) \<and>
         eng_get voiceProcessingAGCEnabled (engine_device p) \<noteq>
           voice_processing_agc_enabled (next state)
      then Some (0, upd_device
                      (\<lambda>g. g\<lparr>voiceProcessingAGCEnabled :=
                              voice_processing_agc_enabled (next state)\<rparr>) p)
      else Some (0, p))"

definition step_configure_device :: "env \<Rightarrow> EngineStateUpdate \<Rightarrow> step" where
  "step_configure_device e state p =
     (if target_os_osx e \<and> IsAnyEnabled (next state) \<and>
         (\<not> IsAnyEnabled (prev state) \<or> IsEngineRecreateRequired state)
      then
        (let p1 = (if IsInputEnabled (next state) \<and>
                      input_device_id (next state) \<noteq> kAudioObjectUnknown
                   then upd_device
                          (\<lambda>g. g\<lparr>inputCurrentDevice := Some (input_device_id (next state))\<rparr>) p
                   else p);
             p2 = (if IsOutputEnabled (next state) \<and>
                      output_device_id (next state) \<noteq> kAudioObjectUnknown
                   then upd_device
                          (\<lambda>g. g\<lparr>outputCurrentDevice := Some (output_device_id (next state))\<rparr>) p1
                   else p1)
         in Some (0, p2))
      else Some (0, p))"

definition step_start_playout_buffer :: "EngineStateUpdate \<Rightarrow> step" where
  "step_start_playout_buffer state p =
     (if IsOutputEnabled (next state) \<and> \<not> buffer_playing p
      then (if fine_audio_buffer p
            then Some (0, emits [BufStartPlayout, ResetPlayout] (p\<lparr>buffer_playing := True\<rparr>))
            else None)
      else Some (0, p))"

definition step_start_recording_buffer :: "EngineStateUpdate \<Rightarrow> step" where
  "step_start_recording_buffer state p =
     (if IsInputEnabled (next state) \<and> \<not> buffer_recording p
      then (if fine_audio_buffer p
            then Some (0, emits [BufStartRecording, ResetRecord] (p\<lparr>buffer_recording := True\<rparr>))
            else None)
      else Some (0, p))"

text \<open>
  One pass through the body of the retry loop: the delay before a retry, the desktop
  \<^verbatim>\<open>prepare\<close> workaround with its own sleep, and the start itself. Attempt number
  \<open>start_retry_count\<close> succeeds when there is an engine and the platform starts it; an
  exception counts as a failed attempt.
\<close>

definition start_attempt :: "env \<Rightarrow> nat \<Rightarrow> platform \<Rightarrow> bool \<times> platform" where
  "start_attempt e start_retry_count p =
     (let p1 = (if start_retry_count > 0
                then emit (Usleep (kStartEngineRetryDelayMs * 1000)) p else p);
          p2 = (if target_os_osx e then emits [EnginePrepare, Usleep 100000] p1 else p1);
          start_result = (engine_device p2 \<noteq> None \<and> engine_start_succeeds e start_retry_count)
      in (start_result,
          emit (EngineStart start_result)
            (if start_result then upd_device (\<lambda>g. g\<lparr>engine_running := True\<rparr>) p2 else p2)))"

text \<open>
  The loop \<^verbatim>\<open>while (!start_result && start_retry_count < kStartEngineMaxRetries)\<close>;
  the counter grows only after a failed attempt.
\<close>

function start_engine_loop :: "env \<Rightarrow> bool \<Rightarrow> nat \<Rightarrow> platform \<Rightarrow> bool \<times> nat \<times> platform" where
  "start_engine_loop e start_result start_retry_count p =
     (if \<not> start_result \<and> start_retry_count < kStartEngineMaxRetries
      then
        (let a = start_attempt e start_retry_count p
         in start_engine_loop e (fst a)
              (if fst a then start_retry_count else start_retry_count + 1) (snd a))
      else (start_result, start_retry_count, p))"
  by pat_completeness auto
termination
  by (relation "measure (\<lambda>(e, start_result, start_retry_count, p).
        (if start_result then 0 else 1) + (kStartEngineMaxRetries - start_retry_count))")
    (auto simp: kStartEngineMaxRetries_def)

declare start_engine_loop.simps [simp del]

definition step_start_engine :: "env \<Rightarrow> EngineStateUpdate \<Rightarrow> step" where
  "step_start_engine e state p =
     (if IsAnyRunning (next state) \<and>
         (\<not> IsAnyRunning (prev state) \<or> DidEndInterruption state \<or>
          IsEngineRestartRequired state \<or> IsEngineRecreateRequired state)
      then
        notify e (OnEngineWillStart (IsOutputEnabled (next state)) (IsInputEnabled (next state)))
          (\<lambda>q. case start_engine_loop e False 0 q of
                  (start_result, start_retry_count, q1) \<Rightarrow>
                    if start_result then Some (0, q1\<lparr>configuration_observer := True\<rparr>)
                    else Some (0, emit DebugAudioEngine q1))
          p
      else Some (0, p))"

definition step_release_engine :: "env \<Rightarrow> EngineStateUpdate \<Rightarrow> step" where
  "step_release_engine e state p =
     (if IsAnyEnabled (prev state) \<and> \<not> IsAnyEnabled (next state)
      then notify e OnEngineWillRelease (\<lambda>q. Some (0, q\<lparr>engine_device := None\<rparr>)) p
      else Some (0, p))"

text \<open>The rollback lambda runs every recorded action, then hands the result back.\<close>

fun run_rollback_action :: "rollback_action \<Rightarrow> platform \<Rightarrow> platform" where
  "run_rollback_action RollbackCreateEngine p = p\<lparr>engine_device := None\<rparr>"

definition rollback :: "platform \<Rightarrow> platform" where
  "rollback p = fold run_rollback_action (rollback_actions p) p"

definition device_steps :: "env \<Rightarrow> EngineStateUpdate \<Rightarrow> step list" where
  "device_steps e state =
     [ step_stop_engine e state,
       step_release_for_recreate e state,
       step_create_engine e state,
       step_stop_playout_buffer state,
       step_stop_recording_buffer state,
       step_will_enable e state,
       step_configure_voice_processing e state,
       step_enable_output e state,
       step_enable_input e state,
       step_did_disable e state,
       step_mute_voice_processing state,
       step_mute_input_mixer state,
       step_configure_ducking e state,
       step_bypass_voice_processing state,
       step_configure_agc state,
       step_configure_device e state,
       step_start_playout_buffer state,
       step_start_recording_buffer state,
       step_start_engine e state,
       step_release_engine e state ]"

text \<open>
  \<open>rollback_actions\<close> is the applier's local vector: empty on entry, gone on exit.
  Every non-zero return of the source goes through \<^verbatim>\<open>rollback(result)\<close>.
\<close>

definition ApplyDeviceEngineState :: "env \<Rightarrow> EngineStateUpdate \<Rightarrow> step" where
  "ApplyDeviceEngineState e state p =
     (case run_steps (device_steps e state)
             (emit (ApplyDevice state) (p\<lparr>rollback_actions := []\<rparr>)) of
        None \<Rightarrow> None
      | Some (r, p') \<Rightarrow>
          if r \<noteq> 0 then Some (r, (rollback p')\<lparr>rollback_actions := []\<rparr>)
          else Some (0, p'\<lparr>rollback_actions := []\<rparr>))"

section \<open>The manual-mode applier\<close>

text \<open>
  \<^verbatim>\<open>ApplyManualEngineState\<close> renders through a caller-driven engine in the fixed
  Int16, 48000 Hz, mono format. It returns an observer's non-zero result directly;
  it keeps no rollback list.
\<close>

definition manual_render_sample_rate :: real where
  "manual_render_sample_rate = 48000"

definition manual_stop_engine :: "env \<Rightarrow> EngineStateUpdate \<Rightarrow> step" where
  "manual_stop_engine e state p =
     (if IsAnyRunning (prev state) \<and> \<not> IsAnyRunning (next state)
      then
        (let p1 = emit EngineStop (upd_manual (\<lambda>g. g\<lparr>engine_running := False\<rparr>) p)
         in if \<not> render_thread p1 then None
            else
              (let p2 = emit RenderThreadStop
                          (p1\<lparr>render_thread := False, render_buffer := False,
                              read_buffer := False\<rparr>)
               in notify e (OnEngineDidStop (IsOutputEnabled (next state))
                              (IsInputEnabled (next state))) skip p2))
      else Some (0, p))"

definition manual_create_engine :: "env \<Rightarrow> EngineStateUpdate \<Rightarrow> step" where
  "manual_create_engine e state p =
     (if IsAnyEnabled (next state) \<and> \<not> IsAnyEnabled (prev state)
      then notify e OnEngineDidCreate skip
             (p\<lparr>engine_manual_input :=
                  Some (new_AVAudioEngine\<lparr>manualRenderingMode := True\<rparr>)\<rparr>)
      else Some (0, p))"

definition manual_enable_output :: "EngineStateUpdate \<Rightarrow> step" where
  "manual_enable_output state p =
     (if IsOutputEnabled (next state) \<and> \<not> IsOutputEnabled (prev state)
      then Some (0, emits [SetPlayoutFormat manual_render_sample_rate 1, NewFineAudioBuffer]
                      (p\<lparr>fine_audio_buffer := True\<rparr>))
      else Some (0, p))"

definition manual_enable_input :: "env \<Rightarrow> EngineStateUpdate \<Rightarrow> step" where
  "manual_enable_input e state p =
     (if IsInputEnabled (next state) \<and> \<not> IsInputEnabled (prev state)
      then
        (let p1 = emits [SetRecordingFormat manual_render_sample_rate 1, NewFineAudioBuffer]
                    (p\<lparr>fine_audio_buffer := True\<rparr>)
         in notify e OnEngineWillConnectInput
              (\<lambda>q. Some (0, emit (Connect MainMixerNode OutputNode) q)) p1)
      else Some (0, p))"

definition manual_start_engine :: "env \<Rightarrow> EngineStateUpdate \<Rightarrow> step" where
  "manual_start_engine e state p =
     (if IsAnyRunning (next state) \<and> \<not> IsAnyRunning (prev state)
      then
        notify e (OnEngineWillStart (IsOutputEnabled (next state)) (IsInputEnabled (next state)))
          (\<lambda>q.
             let q1 = q\<lparr>render_buffer := True, read_buffer := True\<rparr>;
                 start_result = (engine_manual_input q1 \<noteq> None \<and> manual_start_succeeds e);
                 q2 = emit (EngineStart start_result)
                        (if start_result
                         then upd_manual (\<lambda>g. g\<lparr>engine_running := True\<rparr>) q1 else q1);
                 q3 = (if start_result then q2 else emit DebugAudioEngine q2);
                 q4 = q3\<lparr>render_block := (engine_manual_input q3 \<noteq> None)\<rparr>
             in Some (0, emit RenderThreadStart (q4\<lparr>render_thread := True\<rparr>)))
          p
      else Some (0, p))"

definition manual_release_engine :: "env \<Rightarrow> EngineStateUpdate \<Rightarrow> step" where
  "manual_release_engine e state p =
     (if IsAnyEnabled (prev state) \<and> \<not> IsAnyEnabled (next state)
      then notify e OnEngineWillRelease (\<lambda>q. Some (0, q\<lparr>engine_manual_input := None\<rparr>)) p
      else Some (0, p))"

definition manual_steps :: "env \<Rightarrow> EngineStateUpdate \<Rightarrow> step list" where
  "manual_steps e state =
     [ manual_stop_engine e state,
       manual_create_engine e state,
       step_stop_playout_buffer state,
       step_stop_recording_buffer state,
       step_will_enable e state,
       manual_enable_output state,
       manual_enable_input e state,
       step_did_disable e state,
       step_start_playout_buffer state,
       step_start_recording_buffer state,
       manual_start_engine e state,
       manual_release_engine e state ]"

definition ApplyManualEngineState :: "env \<Rightarrow> EngineStateUpdate \<Rightarrow> step" where
  "ApplyManualEngineState e state p =
     run_steps (manual_steps e state) (emit (ApplyManual state) p)"

section \<open>The state-transition driver\<close>

record device =
  engine_state :: EngineState
  plat :: platform

text \<open>
  The dispatch of \<^verbatim>\<open>ModifyEngineState\<close>: it yields \<^verbatim>\<open>shutdown_result\<close>,
  \<^verbatim>\<open>startup_result\<close> and the platform the appliers left. In the two mode-switch
  branches the second applier runs whatever the first returned, and the assignment
  \<^verbatim>\<open>shutdown_state.prev = {}\<close> lands on the copy already handed to the first applier.
\<close>

definition dispatch :: "env \<Rightarrow> EngineStateUpdate \<Rightarrow> platform \<Rightarrow> (int \<times> int \<times> platform) option" where
  "dispatch e state p =
     (if DidEnableManualRenderingMode state
      then
        (let shutdown_state = state\<lparr>next := default_EngineState\<rparr>
         in case ApplyDeviceEngineState e shutdown_state p of
              None \<Rightarrow> None
            | Some (shutdown_result, p1) \<Rightarrow>
                (let startup_state = state;
                     shutdown_state = shutdown_state\<lparr>prev := default_EngineState\<rparr>
                 in case ApplyManualEngineState e startup_state p1 of
                      None \<Rightarrow> None
                    | Some (startup_result, p2) \<Rightarrow> Some (shutdown_result, startup_result, p2)))
      else if DidEnableDeviceRenderingMode state
      then
        (let shutdown_state = state\<lparr>next := default_EngineState\<rparr>
         in case ApplyManualEngineState e shutdown_state p of
              None \<Rightarrow> None
            | Some (shutdown_result, p1) \<Rightarrow>
                (let startup_state = state;
                     shutdown_state = shutdown_state\<lparr>prev := default_EngineState\<rparr>
                 in case ApplyDeviceEngineState e startup_state p1 of
                      None \<Rightarrow> None
                    | Some (startup_result, p2) \<Rightarrow> Some (shutdown_result, startup_result, p2)))
      else if render_mode (next state) = Device
      then
        (case ApplyDeviceEngineState e state p of
           None \<Rightarrow> None
         | Some (shutdown_result, p1) \<Rightarrow> Some (shutdown_result, 0, p1))
      else if render_mode (next state) = Manual
      then
        (case ApplyManualEngineState e state p of
           None \<Rightarrow> None
         | Some (startup_result, p1) \<Rightarrow> Some (0, startup_result, p1))
      else Some (0, 0, p))"

text \<open>
  \<^verbatim>\<open>ModifyEngineState\<close>. After a dispatch that returned 0 the source compares the
  buffer flags with the new state and only logs a mismatch; then it commits the new
  state. After an error it commits nothing.
\<close>

definition ModifyEngineState ::
    "env \<Rightarrow> (EngineState \<Rightarrow> EngineState) \<Rightarrow> device \<Rightarrow> (int \<times> device) option" where
  "ModifyEngineState e state_transform d =
     (let old_state = engine_state d;
          new_state = state_transform old_state;
          state = \<lparr> prev = old_state, next = new_state \<rparr>
      in if HasNoChanges state then Some (0, d)
         else if input_running new_state \<and> \<not> input_enabled new_state then Some (- 1, d)
         else if output_running new_state \<and> \<not> output_enabled new_state then Some (- 1, d)
         else
           (case dispatch e state (plat d) of
              None \<Rightarrow> None
            | Some (shutdown_result, startup_result, p') \<Rightarrow>
                (let return_result =
                       (if shutdown_result \<noteq> 0 then shutdown_result else startup_result)
                 in if return_result = 0
                    then Some (return_result, d\<lparr>plat := p', engine_state := new_state\<rparr>)
                    else Some (return_result, d\<lparr>plat := p'\<rparr>))))"

subsection \<open>The public setters used below\<close>

definition InitPlayout :: "env \<Rightarrow> device \<Rightarrow> (int \<times> device) option" where
  "InitPlayout e = ModifyEngineState e (\<lambda>state. state\<lparr>output_enabled := True\<rparr>)"

definition StartPlayout :: "env \<Rightarrow> device \<Rightarrow> (int \<times> device) option" where
  "StartPlayout e = ModifyEngineState e (\<lambda>state. state\<lparr>output_running := True\<rparr>)"

definition StopPlayout :: "env \<Rightarrow> device \<Rightarrow> (int \<times> device) option" where
  "StopPlayout e =
     ModifyEngineState e (\<lambda>state. state\<lparr>output_enabled := False, output_running := False\<rparr>)"

definition InitRecording :: "env \<Rightarrow> device \<Rightarrow> (int \<times> device) option" where
  "InitRecording e = ModifyEngineState e (\<lambda>state. state\<lparr>input_enabled := True\<rparr>)"

definition StartRecording :: "env \<Rightarrow> device \<Rightarrow> (int \<times> device) option" where
  "StartRecording e =
     ModifyEngineState e (\<lambda>state. state\<lparr>input_running := True, input_muted := False\<rparr>)"

definition InitAndStartRecording :: "env \<Rightarrow> device \<Rightarrow> (int \<times> device) option" where
  "InitAndStartRecording e =
     ModifyEngineState e
       (\<lambda>state. state\<lparr>input_enabled := True, input_running := True, input_muted := False\<rparr>)"

definition SetMicrophoneMute :: "env \<Rightarrow> bool \<Rightarrow> device \<Rightarrow> (int \<times> device) option" where
  "SetMicrophoneMute e enable = ModifyEngineState e (\<lambda>state. state\<lparr>input_muted := enable\<rparr>)"

definition SetManualRenderingMode :: "env \<Rightarrow> bool \<Rightarrow> device \<Rightarrow> (int \<times> device) option" where
  "SetManualRenderingMode e enable =
     ModifyEngineState e
       (\<lambda>state. state\<lparr>render_mode := (if enable then Manual else Device)\<rparr>)"

definition SetEngineState :: "env \<Rightarrow> EngineState \<Rightarrow> device \<Rightarrow> (int \<times> device) option" where
  "SetEngineState e new_state = ModifyEngineState e (\<lambda>state. new_state)"

text \<open>
  The device object as its constructor leaves it: the default state with the
  constructor's \<^verbatim>\<open>voice_processing_bypassed\<close>, no engine, an idle buffer.
\<close>

definition new_platform :: platform where
  "new_platform =
     \<lparr> engine_device = None, engine_manual_input = None,
       buffer_playing = False, buffer_recording = False, fine_audio_buffer = False,
       source_node = None, input_mixer_node = None, sink_node = None,
       converter_ref = False, converter_buffer = False,
       configuration_observer = False,
       render_thread = False, render_buffer = False, read_buffer = False,
       render_block = False, next_node_id = 0, rollback_actions = [], trace = [] \<rparr>"

definition AudioEngineDevice :: "bool \<Rightarrow> device" where
  "AudioEngineDevice voice_processing_bypassed_arg =
     \<lparr> engine_state =
         default_EngineState\<lparr>voice_processing_bypassed := voice_processing_bypassed_arg\<rparr>,
       plat = new_platform \<rparr>"

section \<open>The manual-mode render loop\<close>















section \<open>Reading a run\<close>

text \<open>
  The statements below look at what a call returned, at the device it left, and at the
  part of the trace the call added.
\<close>

definition result_code :: "(int \<times> device) option \<Rightarrow> int option" where
  "result_code res = map_option fst res"

definition result_device :: "(int \<times> device) option \<Rightarrow> device option" where
  "result_device res = map_option snd res"

definition result_trace :: "(int \<times> device) option \<Rightarrow> event list" where
  "result_trace res = (case res of None \<Rightarrow> [] | Some (r, d) \<Rightarrow> trace (plat d))"

fun is_applier_call :: "event \<Rightarrow> bool" where
  "is_applier_call (ApplyDevice u) = True"
| "is_applier_call (ApplyManual u) = True"
| "is_applier_call _ = False"

definition applier_calls :: "event list \<Rightarrow> event list" where
  "applier_calls evs = filter is_applier_call evs"

text \<open>The non-zero values observer callbacks returned, in order.\<close>

fun rejection :: "event \<Rightarrow> int list" where
  "rejection (Observer c v) = (if v \<noteq> 0 then [v] else [])"
| "rejection _ = []"

definition rejections :: "event list \<Rightarrow> int list" where
  "rejections evs = concat (map rejection evs)"

definition new_events :: "device \<Rightarrow> device \<Rightarrow> event list" where
  "new_events d d' = drop (length (trace (plat d))) (trace (plat d'))"

text \<open>
  Two callbacks are made before any call on the audio buffer: \<^verbatim>\<open>OnEngineDidStop\<close>, in
  the first step of either applier, and \<^verbatim>\<open>OnEngineDidCreate\<close>, in the step that creates
  the engine. \<^verbatim>\<open>OnEngineWillRelease\<close> is made before the buffer calls when the engine is
  recreated and after them when it is released for good, so it is not among them.
  \<open>rejected_early\<close> says that one of the two returned a non-zero value.
\<close>

fun early_callback :: "obs_call \<Rightarrow> bool" where
  "early_callback (OnEngineDidStop po ro) = True"
| "early_callback OnEngineDidCreate = True"
| "early_callback c = False"

fun is_early_rejection :: "event \<Rightarrow> bool" where
  "is_early_rejection (Observer c v) = (early_callback c \<and> v \<noteq> 0)"
| "is_early_rejection ev = False"

definition rejected_early :: "event list \<Rightarrow> bool" where
  "rejected_early evs = list_ex is_early_rejection evs"

subsection \<open>What a run may add to the trace\<close>

text \<open>
  The events a step or an applier appends are \<open>good\<close> for its result \<open>r\<close>: no
  applier entry among them, no rejection when \<open>r = 0\<close>, and when \<open>r \<noteq> 0\<close> either
  exactly one rejection, with value \<open>r\<close>, or (only where \<open>dev\<close> allows a
  device-not-available error) none.
\<close>

definition good :: "bool \<Rightarrow> int \<Rightarrow> event list \<Rightarrow> bool" where
  "good dev r evs \<longleftrightarrow>
     applier_calls evs = [] \<and> (r = 0 \<longrightarrow> rejections evs = []) \<and>
     (r \<noteq> 0 \<longrightarrow> rejections evs = [r] \<or> (dev \<and> rejections evs = []))"

definition step_ok :: "bool \<Rightarrow> step \<Rightarrow> bool" where
  "step_ok dev s \<longleftrightarrow>
     (\<forall>p r p'. s p = Some (r, p') \<longrightarrow> (\<exists>evs. trace p' = trace p @ evs \<and> good dev r evs))"

text \<open>Events that are neither an applier entry nor a rejection.\<close>

definition quiet :: "event list \<Rightarrow> bool" where
  "quiet evs \<longleftrightarrow> applier_calls evs = [] \<and> rejections evs = []"

text \<open>What one run of the dispatch adds to the trace.\<close>

definition run_ok :: "EngineStateUpdate \<Rightarrow> int \<Rightarrow> int \<Rightarrow> event list \<Rightarrow> bool" where
  "run_ok state r1 r2 evs \<longleftrightarrow>
     (if DidEnableManualRenderingMode state
      then \<exists>evs1 evs2.
             evs = ApplyDevice (state\<lparr>next := default_EngineState\<rparr>) # evs1 @
                   ApplyManual state # evs2 \<and> good False r1 evs1 \<and> good False r2 evs2
      else if DidEnableDeviceRenderingMode state
      then \<exists>evs1 evs2.
             evs = ApplyManual (state\<lparr>next := default_EngineState\<rparr>) # evs1 @
                   ApplyDevice state # evs2 \<and> good False r1 evs1 \<and> good True r2 evs2
      else if render_mode (next state) = Device
      then \<exists>evs1. evs = ApplyDevice state # evs1 \<and> good True r1 evs1 \<and> r2 = 0
      else \<exists>evs2. evs = ApplyManual state # evs2 \<and> good False r2 evs2 \<and> r1 = 0)"

subsection \<open>What a step leaves as it was\<close>

text \<open>
  A step keeps a relation when every return of the step relates the platform before it
  to the platform after it. Three relations are used: the buffer flags are the same; the
  events added hold no rejection by an early callback; and a platform that is ready for
  rollback, one with no device engine or with the creation of its engine on the rollback
  list, stays so.
\<close>

definition step_keeps :: "(platform \<Rightarrow> platform \<Rightarrow> bool) \<Rightarrow> step \<Rightarrow> bool" where
  "step_keeps R s \<longleftrightarrow> (\<forall>p r p'. s p = Some (r, p') \<longrightarrow> R p p')"

definition same_buffers :: "platform \<Rightarrow> platform \<Rightarrow> bool" where
  "same_buffers p p' \<longleftrightarrow>
     buffer_playing p' = buffer_playing p \<and> buffer_recording p' = buffer_recording p"

definition no_early_rejection :: "platform \<Rightarrow> platform \<Rightarrow> bool" where
  "no_early_rejection p p' \<longleftrightarrow> (\<exists>evs. trace p' = trace p @ evs \<and> \<not> rejected_early evs)"

definition rollback_ready :: "platform \<Rightarrow> bool" where
  "rollback_ready p \<longleftrightarrow>
     engine_device p = None \<or> RollbackCreateEngine \<in> set (rollback_actions p)"

definition keeps_rollback_ready :: "platform \<Rightarrow> platform \<Rightarrow> bool" where
  "keeps_rollback_ready p p' \<longleftrightarrow> (rollback_ready p \<longrightarrow> rollback_ready p')"

subsection \<open>The expected shape of the start attempts\<close>

text \<open>
  Attempt \<open>i\<close> with result \<open>r\<close> shows in the trace as: the retry delay of
  \<^verbatim>\<open>kStartEngineRetryDelayMs\<close> (before every attempt but the first), on the desktop
  target \<^verbatim>\<open>prepare\<close> and its settling sleep, and the start itself. Attempts \<open>n\<close>
  up to \<open>m - 1\<close> in a row all fail, except that the last one succeeds when \<open>ok\<close>.
\<close>

definition attempt_events :: "env \<Rightarrow> nat \<Rightarrow> bool \<Rightarrow> event list" where
  "attempt_events e i r =
     (if 0 < i then [Usleep (kStartEngineRetryDelayMs * 1000)] else []) @
     (if target_os_osx e then [EnginePrepare, Usleep 100000] else []) @
     [EngineStart r]"

definition attempts_trace :: "env \<Rightarrow> nat \<Rightarrow> nat \<Rightarrow> bool \<Rightarrow> event list" where
  "attempts_trace e n m ok =
     concat (map (\<lambda>i. attempt_events e i (ok \<and> Suc i = m)) [n..<m])"

fun is_engine_start :: "event \<Rightarrow> bool" where
  "is_engine_start (EngineStart r) = True"
| "is_engine_start _ = False"

definition start_attempts :: "event list \<Rightarrow> nat" where
  "start_attempts evs = length (filter is_engine_start evs)"

subsection \<open>Fixtures\<close>

text \<open>
  A phone-like build with working hardware and no observer registered, and the same
  build with an observer that accepts everything except \<^verbatim>\<open>OnEngineDidDisable\<close>
  (answered with -42) and \<^verbatim>\<open>OnEngineWillEnable\<close> (answered with -43).
\<close>

definition example_env :: env where
  "example_env =
     \<lparr> observer = None, target_os_osx = False, target_os_simulator = False,
       target_os_tv = False, os_available_17 = True, hw_output_format = (48000, 2),
       hw_input_format = (48000, 1), set_vp_succeeds = True,
       observer_connects_input_mixer = False, engine_start_succeeds = (\<lambda>n. True),
       manual_start_succeeds = True \<rparr>"

fun rejecting_observer :: "event list \<Rightarrow> obs_call \<Rightarrow> int" where
  "rejecting_observer tr (OnEngineDidDisable po ro) = - 42"
| "rejecting_observer tr (OnEngineWillEnable po ro) = - 43"
| "rejecting_observer tr c = 0"

definition rejecting_env :: env where
  "rejecting_env = example_env\<lparr>observer := Some rejecting_observer\<rparr>"

text \<open>
  The device after \<^verbatim>\<open>InitPlayout\<close> on a fresh object under \<open>example_env\<close>: output
  enabled, a device engine with the source node attached, the buffer playing.
\<close>

definition playout_initialised :: device where
  "playout_initialised =
     \<lparr> engine_state = default_EngineState\<lparr>output_enabled := True\<rparr>,
       plat = new_platform
         \<lparr> engine_device := Some (new_AVAudioEngine\<lparr>attachedNodes := [0]\<rparr>),
           buffer_playing := True, fine_audio_buffer := True,
           source_node := Some 0, next_node_id := 1,
           trace :=
             [ ApplyDevice \<lparr> prev = default_EngineState,
                             next = default_EngineState\<lparr>output_enabled := True\<rparr> \<rparr>,
               SetPlayoutFormat 48000 1, NewFineAudioBuffer,
               Connect SourceNode MainMixerNode, Connect MainMixerNode OutputNode,
               BufStartPlayout, ResetPlayout ] \<rparr> \<rparr>"

text \<open>
  A platform on which no start attempt succeeds, and the diff of \<^verbatim>\<open>StartPlayout\<close>
  on \<open>playout_initialised\<close>.
\<close>

definition failing_start_env :: env where
  "failing_start_env = example_env\<lparr>engine_start_succeeds := (\<lambda>n. False)\<rparr>"

definition start_playout_update :: EngineStateUpdate where
  "start_playout_update =
     \<lparr> prev = engine_state playout_initialised,
       next = (engine_state playout_initialised)\<lparr>output_running := True\<rparr> \<rparr>"

text \<open>
  An observer that rejects the two early callbacks, \<^verbatim>\<open>OnEngineDidStop\<close> with -42 and
  \<^verbatim>\<open>OnEngineDidCreate\<close> with -44, and the device after \<^verbatim>\<open>StartPlayout\<close> on
  \<open>playout_initialised\<close> under \<open>example_env\<close>: the engine runs, the buffer plays.
\<close>

fun early_rejecting_observer :: "event list \<Rightarrow> obs_call \<Rightarrow> int" where
  "early_rejecting_observer tr (OnEngineDidStop po ro) = - 42"
| "early_rejecting_observer tr OnEngineDidCreate = - 44"
| "early_rejecting_observer tr c = 0"

definition early_rejecting_env :: env where
  "early_rejecting_env = example_env\<lparr>observer := Some early_rejecting_observer\<rparr>"

definition playout_running :: device where
  "playout_running =
     \<lparr> engine_state = (engine_state playout_initialised)\<lparr>output_running := True\<rparr>,
       plat = (plat playout_initialised)
         \<lparr> engine_device :=
             Some (new_AVAudioEngine\<lparr>attachedNodes := [0], engine_running := True\<rparr>),
           configuration_observer := True,
           trace := trace (plat playout_initialised) @
                    [ApplyDevice start_playout_update, EngineStart True] \<rparr> \<rparr>"

text \<open>
  An observer whose answer depends on what happened before: it accepts the first
  \<^verbatim>\<open>OnEngineDidStop\<close> it is sent and rejects every later one with -42.
\<close>

fun is_did_stop :: "event \<Rightarrow> bool" where
  "is_did_stop (Observer (OnEngineDidStop po ro) v) = True"
| "is_did_stop ev = False"

fun second_stop_rejecting_observer :: "event list \<Rightarrow> obs_call \<Rightarrow> int" where
  "second_stop_rejecting_observer tr (OnEngineDidStop po ro) =
     (if list_ex is_did_stop tr then - 42 else 0)"
| "second_stop_rejecting_observer tr c = 0"

definition second_stop_rejecting_env :: env where
  "second_stop_rejecting_env = example_env\<lparr>observer := Some second_stop_rejecting_observer\<rparr>"

section \<open>The default-device watcher\<close>

text \<open>
  On the desktop target the object listens for changes of the system default output
  and input device. \<^verbatim>\<open>HandleDeviceListenerEvent\<close> runs on the control thread; of its
  branches the one for the two default-device selectors is modelled here.
\<close>

datatype selector =
    kAudioHardwarePropertyDefaultOutputDevice
  | kAudioHardwarePropertyDefaultInputDevice

definition kDefaultDeviceUpdateDebounceMs :: int where
  "kDefaultDeviceUpdateDebounceMs = 500"

text \<open>
  Modelled from the spec: the task queue of the control thread
  (\<^verbatim>\<open>PostDelayedTask\<close>, \<^verbatim>\<open>SafeTask\<close>, \<^verbatim>\<open>PendingTaskSafetyFlag\<close>), whose code is not
  among the sources. Every delayed task carries a safety flag; when it comes due it
  checks the flag and does nothing if \<^verbatim>\<open>SetNotAlive\<close> was called on it. Tasks are
  serialised on the control thread and run in the order of their due times; time is
  the integer clock in milliseconds, and a listener event is handled at its arrival
  time after the tasks already due. \<open>update_results\<close> records what each debounced
  update that really ran got back from \<open>ModifyEngineState\<close>.
\<close>

record delayed_task =
  due_ms :: int
  safety_flag :: nat
  task_selector :: selector

record control_thread =
  device_obj :: device
  default_device_update_safety :: nat
  not_alive :: "nat list"
  flags_created :: nat
  delayed_tasks :: "delayed_task list"
  update_results :: "int list"

text \<open>The body of the delayed task: one increment of the counter of the event's side.\<close>

definition debounced_update :: "env \<Rightarrow> selector \<Rightarrow> device \<Rightarrow> (int \<times> device) option" where
  "debounced_update e sel d =
     (case sel of
        kAudioHardwarePropertyDefaultOutputDevice \<Rightarrow>
          ModifyEngineState e
            (\<lambda>state. state\<lparr>default_output_device_update_count :=
                              default_output_device_update_count state + 1\<rparr>) d
      | kAudioHardwarePropertyDefaultInputDevice \<Rightarrow>
          ModifyEngineState e
            (\<lambda>state. state\<lparr>default_input_device_update_count :=
                              default_input_device_update_count state + 1\<rparr>) d)"

text \<open>
  \<^verbatim>\<open>default_device_update_safety_->SetNotAlive()\<close>, a fresh flag in its place, and the
  update posted under the fresh flag with a delay of \<^verbatim>\<open>kDefaultDeviceUpdateDebounceMs\<close>.
\<close>

definition HandleDeviceListenerEvent :: "int \<Rightarrow> selector \<Rightarrow> control_thread \<Rightarrow> control_thread" where
  "HandleDeviceListenerEvent now sel ct =
     ct\<lparr> not_alive := default_device_update_safety ct # not_alive ct,
         default_device_update_safety := flags_created ct,
         flags_created := Suc (flags_created ct),
         delayed_tasks := delayed_tasks ct @
           [\<lparr> due_ms = now + kDefaultDeviceUpdateDebounceMs,
              safety_flag = flags_created ct, task_selector = sel \<rparr>] \<rparr>"

definition run_delayed_task :: "env \<Rightarrow> delayed_task \<Rightarrow> control_thread \<Rightarrow> control_thread option" where
  "run_delayed_task e task ct =
     (if safety_flag task \<in> set (not_alive ct) then Some ct
      else
        (case debounced_update e (task_selector task) (device_obj ct) of
           None \<Rightarrow> None
         | Some (r, d') \<Rightarrow>
             Some (ct\<lparr>device_obj := d', update_results := update_results ct @ [r]\<rparr>)))"

fun run_tasks :: "env \<Rightarrow> delayed_task list \<Rightarrow> control_thread \<Rightarrow> control_thread option" where
  "run_tasks e [] ct = Some ct"
| "run_tasks e (task # tasks) ct =
     (case run_delayed_task e task ct of
        None \<Rightarrow> None
      | Some ct' \<Rightarrow> run_tasks e tasks ct')"

definition run_due :: "env \<Rightarrow> int \<Rightarrow> control_thread \<Rightarrow> control_thread option" where
  "run_due e now ct =
     run_tasks e (filter (\<lambda>task. due_ms task \<le> now) (delayed_tasks ct))
       (ct\<lparr>delayed_tasks := filter (\<lambda>task. \<not> due_ms task \<le> now) (delayed_tasks ct)\<rparr>)"

definition run_remaining :: "env \<Rightarrow> control_thread \<Rightarrow> control_thread option" where
  "run_remaining e ct = run_tasks e (delayed_tasks ct) (ct\<lparr>delayed_tasks := []\<rparr>)"

fun run_events :: "env \<Rightarrow> (int \<times> selector) list \<Rightarrow> control_thread \<Rightarrow> control_thread option" where
  "run_events e [] ct = run_remaining e ct"
| "run_events e ((now, sel) # evs) ct =
     (case run_due e now ct of
        None \<Rightarrow> None
      | Some ct' \<Rightarrow> run_events e evs (HandleDeviceListenerEvent now sel ct'))"

text \<open>A control thread with nothing pending, holding the flag of the member initialiser.\<close>

definition idle_thread :: "device \<Rightarrow> control_thread" where
  "idle_thread d =
     \<lparr> device_obj = d, default_device_update_safety = 0, not_alive = [],
       flags_created = 1, delayed_tasks = [], update_results = [] \<rparr>"

text \<open>Arrival times that never decrease and are less than the debounce delay apart.\<close>

fun burst :: "int list \<Rightarrow> bool" where
  "burst [] = True"
| "burst [t] = True"
| "burst (t # t' # ts) = (t \<le> t' \<and> t' - t < kDefaultDeviceUpdateDebounceMs \<and> burst (t' # ts))"

text \<open>The build of \<open>example_env\<close> at a moment when no output hardware is available.\<close>

definition unplugged_env :: env where
  "unplugged_env = example_env\<lparr>hw_output_format := (0, 0)\<rparr>"


text \<open>Invariant between two events of a burst.\<close>

definition pending_one :: "control_thread \<Rightarrow> control_thread \<Rightarrow> int \<Rightarrow> selector \<Rightarrow> bool" where
  "pending_one ct0 ct t sel \<longleftrightarrow>
     device_obj ct = device_obj ct0 \<and> update_results ct = update_results ct0 \<and>
     default_device_update_safety ct \<notin> set (not_alive ct) \<and>
     (\<exists>dead. delayed_tasks ct =
        dead @ [\<lparr> due_ms = t + kDefaultDeviceUpdateDebounceMs,
                  safety_flag = default_device_update_safety ct, task_selector = sel \<rparr>] \<and>
        (\<forall>task\<in>set dead. safety_flag task \<in> set (not_alive ct))) \<and>
     (\<forall>f\<in>set (not_alive ct). f < flags_created ct) \<and>
     default_device_update_safety ct < flags_created ct"

text \<open>
  What holds of the flags in every state the handler and the task queue produce: a
  pending update carries the current flag or one that was set not-alive, the current
  flag is alive, and every flag in use was created earlier.
\<close>

definition flags_consistent :: "control_thread \<Rightarrow> bool" where
  "flags_consistent ct \<longleftrightarrow>
     (\<forall>task\<in>set (delayed_tasks ct).
        safety_flag task = default_device_update_safety ct \<or>
        safety_flag task \<in> set (not_alive ct)) \<and>
     default_device_update_safety ct \<notin> set (not_alive ct) \<and>
     (\<forall>f\<in>set (not_alive ct). f < flags_created ct) \<and>
     default_device_update_safety ct < flags_created ct"

text \<open>The counter that belongs to a selector.\<close>

definition update_count :: "selector \<Rightarrow> EngineState \<Rightarrow> 32 word" where
  "update_count sel state =
     (case sel of
        kAudioHardwarePropertyDefaultOutputDevice \<Rightarrow> default_output_device_update_count state
      | kAudioHardwarePropertyDefaultInputDevice \<Rightarrow> default_input_device_update_count state)"

section \<open>Properties of the predicates\<close>

lemma EngineState_eq_iff: "EngineState_eq a b \<longleftrightarrow> a = b"
  by (cases a, cases b) (auto simp: EngineState_eq_def)

text \<open>
  Claim C3. For every state \<open>S\<close>: \<open>IsOutputInputLinked S\<close> is
  \<open>input_follow_mode \<and> voice_processing_enabled\<close>; \<open>IsInputEnabled S\<close> is
  \<open>\<not> (mute_mode = RestartEngine \<and> input_muted) \<and> (input_enabled \<or>
  input_enabled_persistent_mode)\<close>; and \<open>IsOutputEnabled S\<close> is
  \<open>IsInputEnabled S \<or> output_enabled\<close> when the sides are linked and
  \<open>output_enabled\<close> otherwise. The predicates are functions of the fields alone,
  so they are recomputed on every call: after a field is changed they follow the new
  value.
\<close>

theorem derived_predicates_from_fields:
  "IsOutputInputLinked S = (input_follow_mode S \<and> voice_processing_enabled S) \<and>
   IsInputEnabled S =
     (\<not> (mute_mode S = RestartEngine \<and> input_muted S) \<and>
      (input_enabled S \<or> input_enabled_persistent_mode S)) \<and>
   (IsOutputInputLinked S \<longrightarrow>
      IsOutputEnabled S = (IsInputEnabled S \<or> output_enabled S)) \<and>
   (\<not> IsOutputInputLinked S \<longrightarrow> IsOutputEnabled S = output_enabled S) \<and>
   (\<forall>f g h. IsOutputInputLinked (S\<lparr>input_follow_mode := f, voice_processing_enabled := g\<rparr>)
      = (f \<and> g) \<and>
      IsInputEnabled (S\<lparr>input_muted := h\<rparr>) =
        (\<not> (mute_mode S = RestartEngine \<and> h) \<and>
         (input_enabled S \<or> input_enabled_persistent_mode S)))"
  by (simp add: IsOutputInputLinked_def IsInputEnabled_def IsOutputEnabled_def)

theorem derived_predicates_from_fields_witness:
  "IsOutputInputLinked default_EngineState \<and>
   \<not> IsInputEnabled (default_EngineState\<lparr>input_enabled := True, mute_mode := RestartEngine\<rparr>) \<and>
   IsInputEnabled (default_EngineState\<lparr>input_enabled := True, mute_mode := RestartEngine,
      input_muted := False\<rparr>) \<and>
   IsOutputEnabled (default_EngineState\<lparr>input_enabled := True\<rparr>) \<and>
   \<not> IsOutputEnabled (default_EngineState\<lparr>input_enabled := True, input_follow_mode := False\<rparr>)"
  using derived_predicates_from_fields [of "default_EngineState"]
    derived_predicates_from_fields
      [of "default_EngineState\<lparr>input_enabled := True, mute_mode := RestartEngine\<rparr>"]
    derived_predicates_from_fields
      [of "default_EngineState\<lparr>input_enabled := True, mute_mode := RestartEngine,
             input_muted := False\<rparr>"]
    derived_predicates_from_fields [of "default_EngineState\<lparr>input_enabled := True\<rparr>"]
    derived_predicates_from_fields
      [of "default_EngineState\<lparr>input_enabled := True, input_follow_mode := False\<rparr>"]
  by (simp add: default_EngineState_def)

text \<open>
  Claim C5. For every diff, \<open>IsEngineRecreateRequired\<close> holds exactly when a selected
  device id changed, or a default-device update counter changed while the next state
  selects the default device on that side, or output stays enabled while input goes
  from enabled to disabled.
\<close>

theorem recreate_required_iff:
  "IsEngineRecreateRequired u \<longleftrightarrow>
     output_device_id (prev u) \<noteq> output_device_id (next u) \<or>
     input_device_id (prev u) \<noteq> input_device_id (next u) \<or>
     (default_output_device_update_count (prev u) \<noteq>
        default_output_device_update_count (next u) \<and> output_device_id (next u) = 0) \<or>
     (default_input_device_update_count (prev u) \<noteq>
        default_input_device_update_count (next u) \<and> input_device_id (next u) = 0) \<or>
     (IsOutputEnabled (prev u) \<and> IsOutputEnabled (next u) \<and>
      IsInputEnabled (prev u) \<and> \<not> IsInputEnabled (next u))"
  by (auto simp: IsEngineRecreateRequired_def DidUpdateOutputDevice_def
      DidUpdateInputDevice_def DidUpdateDefaultOutputDevice_def
      DidUpdateDefaultInputDevice_def IsOutputDefaultDevice_def
      IsInputDefaultDevice_def kAudioObjectUnknown_def Let_def)

theorem recreate_required_iff_witness:
  "IsEngineRecreateRequired
     \<lparr> prev = default_EngineState\<lparr>input_enabled := True, input_muted := False\<rparr>,
       next = default_EngineState\<lparr>output_enabled := True\<rparr> \<rparr> \<and>
   IsEngineRecreateRequired
     \<lparr> prev = default_EngineState,
       next = default_EngineState\<lparr>default_output_device_update_count := 1\<rparr> \<rparr> \<and>
   \<not> IsEngineRecreateRequired
     \<lparr> prev = default_EngineState\<lparr>output_device_id := 7\<rparr>,
       next = default_EngineState\<lparr>output_device_id := 7,
                default_output_device_update_count := 1\<rparr> \<rparr>"
  using recreate_required_iff
      [of "\<lparr> prev = default_EngineState\<lparr>input_enabled := True, input_muted := False\<rparr>,
             next = default_EngineState\<lparr>output_enabled := True\<rparr> \<rparr>"]
    recreate_required_iff
      [of "\<lparr> prev = default_EngineState,
             next = default_EngineState\<lparr>default_output_device_update_count := 1\<rparr> \<rparr>"]
    recreate_required_iff
      [of "\<lparr> prev = default_EngineState\<lparr>output_device_id := 7\<rparr>,
             next = default_EngineState\<lparr>output_device_id := 7,
                default_output_device_update_count := 1\<rparr> \<rparr>"]
  by (simp add: default_EngineState_def IsOutputEnabled_def IsInputEnabled_def
      IsOutputInputLinked_def)

section \<open>Evaluating the model\<close>

lemmas predicate_defs =
  EngineState_eq_def IsOutputInputLinked_def IsInputEnabled_def IsInputRunning_def
  IsOutputEnabled_def IsOutputRunning_def IsAnyEnabled_def IsAnyRunning_def
  IsOutputDefaultDevice_def IsInputDefaultDevice_def kAudioObjectUnknown_def
  HasNoChanges_def DidEnableOutput_def DidEnableInput_def DidDisableOutput_def
  DidDisableInput_def DidAnyEnable_def DidAnyDisable_def DidBeginInterruption_def
  DidEndInterruption_def DidUpdateAudioGraph_def DidUpdateVoiceProcessingEnabled_def
  DidUpdateOutputDevice_def DidUpdateInputDevice_def DidUpdateDefaultOutputDevice_def
  DidUpdateDefaultInputDevice_def IsEngineRestartRequired_def IsEngineRecreateRequired_def
  DidEnableManualRenderingMode_def DidEnableDeviceRenderingMode_def

lemmas step_defs =
  step_stop_engine_def step_release_for_recreate_def step_create_engine_def
  step_stop_playout_buffer_def step_stop_recording_buffer_def step_will_enable_def
  step_configure_voice_processing_def step_enable_output_def step_enable_input_def
  step_did_disable_def step_mute_voice_processing_def step_mute_input_mixer_def
  step_configure_ducking_def step_bypass_voice_processing_def step_configure_agc_def
  step_configure_device_def step_start_playout_buffer_def step_start_recording_buffer_def
  step_start_engine_def step_release_engine_def
  manual_stop_engine_def manual_create_engine_def manual_enable_output_def
  manual_enable_input_def manual_start_engine_def manual_release_engine_def

lemmas run_defs =
  device_steps_def manual_steps_def ApplyDeviceEngineState_def ApplyManualEngineState_def
  dispatch_def ModifyEngineState_def rollback_def notify_def skip_def emit_def emits_def
  eng_get_def is_attached_def attachNode_def detachNode_def upd_device_def upd_manual_def
  new_AVAudioEngine_def new_platform_def AudioEngineDevice_def default_EngineState_def
  kAudioEnginePlayoutDeviceNotAvailableError_def
  kAudioEngineRecordingDeviceNotAvailableError_def
  kStartEngineMaxRetries_def kStartEngineRetryDelayMs_def manual_render_sample_rate_def
  start_attempt_def start_engine_loop.simps Let_def

lemmas reading_defs =
  result_code_def result_device_def result_trace_def applier_calls_def rejections_def
  new_events_def example_env_def rejecting_env_def playout_initialised_def

lemma playout_initialised_reached:
  "InitPlayout example_env (AudioEngineDevice False) = Some (0, playout_initialised)"
  by (simp add: InitPlayout_def predicate_defs step_defs run_defs reading_defs)

lemma playout_running_reached:
  "StartPlayout example_env playout_initialised = Some (0, playout_running)"
  by (simp add: StartPlayout_def playout_running_def start_playout_update_def
      predicate_defs step_defs run_defs reading_defs)

section \<open>Traces of the appliers\<close>

lemma good_Nil [simp]: "good dev 0 []"
  by (simp add: good_def applier_calls_def rejections_def)

lemma good_append:
  "good dev 0 evs1 \<Longrightarrow> good dev r evs2 \<Longrightarrow> good dev r (evs1 @ evs2)"
  by (auto simp: good_def applier_calls_def rejections_def)

lemma step_okI:
  "(\<And>p r p'. s p = Some (r, p') \<Longrightarrow> \<exists>evs. trace p' = trace p @ evs \<and> good dev r evs)
   \<Longrightarrow> step_ok dev s"
  by (simp add: step_ok_def)

lemma step_okD:
  "step_ok dev s \<Longrightarrow> s p = Some (r, p') \<Longrightarrow> \<exists>evs. trace p' = trace p @ evs \<and> good dev r evs"
  by (simp add: step_ok_def)

lemma step_ok_run_steps:
  "(\<And>s. s \<in> set ss \<Longrightarrow> step_ok dev s) \<Longrightarrow> step_ok dev (run_steps ss)"
proof (induction ss)
  case Nil
  show ?case by (rule step_okI) auto
next
  case (Cons s ss)
  have s: "step_ok dev s" and rest: "step_ok dev (run_steps ss)"
    using Cons by auto
  show ?case
  proof (rule step_okI)
    fix p r p'
    assume run: "run_steps (s # ss) p = Some (r, p')"
    then obtain r1 p1 where s1: "s p = Some (r1, p1)"
      by (auto split: option.splits)
    from step_okD [OF s s1] obtain evs1 where
      e1: "trace p1 = trace p @ evs1" "good dev r1 evs1" by blast
    show "\<exists>evs. trace p' = trace p @ evs \<and> good dev r evs"
    proof (cases "r1 = 0")
      case False
      with run s1 have "r = r1" "p' = p1" by auto
      with e1 show ?thesis by blast
    next
      case True
      with run s1 have "run_steps ss p1 = Some (r, p')" by auto
      from step_okD [OF rest this] obtain evs2 where
        e2: "trace p' = trace p1 @ evs2" "good dev r evs2" by blast
      from e1 e2 True have "trace p' = trace p @ (evs1 @ evs2)" "good dev r (evs1 @ evs2)"
        by (auto intro: good_append)
      then show ?thesis by blast
    qed
  qed
qed

lemma step_ok_skip: "step_ok dev skip"
  by (rule step_okI) (auto simp: skip_def)

lemma step_ok_notify:
  assumes "step_ok dev k"
  shows "step_ok dev (notify e c k)"
proof (rule step_okI)
  fix p r p'
  assume n: "notify e c k p = Some (r, p')"
  show "\<exists>evs. trace p' = trace p @ evs \<and> good dev r evs"
  proof (cases "observer e")
    case None
    with n have "k p = Some (r, p')" by (simp add: notify_def)
    from step_okD [OF assms this] show ?thesis .
  next
    case (Some f)
    show ?thesis
    proof (cases "f (trace p) c = 0")
      case True
      with n Some have "k (emit (Observer c 0) p) = Some (r, p')"
        by (simp add: notify_def Let_def)
      from step_okD [OF assms this] obtain evs where
        "trace p' = trace p @ ([Observer c 0] @ evs)" "good dev r evs"
        by (auto simp: emit_def)
      moreover have "good dev 0 [Observer c 0]"
        by (simp add: good_def applier_calls_def rejections_def)
      ultimately show ?thesis
        using good_append by blast
    next
      case False
      with n Some have "r = f (trace p) c" "p' = emit (Observer c r) p"
        by (auto simp: notify_def Let_def)
      with False have "trace p' = trace p @ [Observer c r]" "good dev r [Observer c r]"
        by (auto simp: emit_def good_def applier_calls_def rejections_def)
      then show ?thesis by blast
    qed
  qed
qed

lemma quiet_simps [simp]:
  "quiet []"
  "quiet (ev # evs) \<longleftrightarrow> \<not> is_applier_call ev \<and> rejection ev = [] \<and> quiet evs"
  "quiet (evs1 @ evs2) \<longleftrightarrow> quiet evs1 \<and> quiet evs2"
  by (auto simp: quiet_def applier_calls_def rejections_def)

lemma good_quiet: "quiet evs \<Longrightarrow> good dev 0 evs"
  by (simp add: quiet_def good_def)

lemma step_ok_stop_engine: "step_ok dev (step_stop_engine e state)"
  by (rule step_okI)
    (auto simp: step_stop_engine_def notify_def skip_def emit_def upd_device_def Let_def
      good_def applier_calls_def rejections_def split: if_splits option.splits)

lemma step_ok_release_for_recreate: "step_ok dev (step_release_for_recreate e state)"
  by (rule step_okI)
    (auto simp: step_release_for_recreate_def notify_def skip_def emit_def upd_device_def Let_def
      good_def applier_calls_def rejections_def split: if_splits option.splits)

lemma step_ok_enable_input: "step_ok (IsAnyEnabled (next state)) (step_enable_input e state)"
  by (rule step_okI)
    (auto simp: step_enable_input_def notify_def skip_def emit_def emits_def upd_device_def Let_def
      good_def applier_calls_def rejections_def IsAnyEnabled_def split: if_splits option.splits)


lemma step_ok_create_engine: "step_ok dev (step_create_engine e state)"
  by (rule step_okI)
    (auto simp: step_create_engine_def notify_def skip_def emit_def emits_def upd_device_def upd_manual_def
      Let_def good_def applier_calls_def rejections_def split: if_splits option.splits)

lemma step_ok_stop_playout_buffer: "step_ok dev (step_stop_playout_buffer state)"
  by (rule step_okI)
    (auto simp: step_stop_playout_buffer_def notify_def skip_def emit_def emits_def upd_device_def upd_manual_def
      Let_def good_def applier_calls_def rejections_def split: if_splits option.splits)

lemma step_ok_stop_recording_buffer: "step_ok dev (step_stop_recording_buffer state)"
  by (rule step_okI)
    (auto simp: step_stop_recording_buffer_def notify_def skip_def emit_def emits_def upd_device_def upd_manual_def
      Let_def good_def applier_calls_def rejections_def split: if_splits option.splits)

lemma step_ok_will_enable: "step_ok dev (step_will_enable e state)"
  by (rule step_okI)
    (auto simp: step_will_enable_def notify_def skip_def emit_def emits_def upd_device_def upd_manual_def
      Let_def good_def applier_calls_def rejections_def split: if_splits option.splits)

lemma step_ok_configure_voice_processing: "step_ok dev (step_configure_voice_processing e state)"
  by (rule step_okI)
    (auto simp: step_configure_voice_processing_def notify_def skip_def emit_def emits_def upd_device_def upd_manual_def
      Let_def good_def applier_calls_def rejections_def split: if_splits option.splits)

lemma step_ok_did_disable: "step_ok dev (step_did_disable e state)"
  by (rule step_okI)
    (auto simp: step_did_disable_def notify_def skip_def emit_def emits_def upd_device_def upd_manual_def
      Let_def good_def applier_calls_def rejections_def split: if_splits option.splits)

lemma step_ok_mute_voice_processing: "step_ok dev (step_mute_voice_processing state)"
  by (rule step_okI)
    (auto simp: step_mute_voice_processing_def notify_def skip_def emit_def emits_def upd_device_def upd_manual_def
      Let_def good_def applier_calls_def rejections_def split: if_splits option.splits)

lemma step_ok_mute_input_mixer: "step_ok dev (step_mute_input_mixer state)"
  by (rule step_okI)
    (auto simp: step_mute_input_mixer_def notify_def skip_def emit_def emits_def upd_device_def upd_manual_def
      Let_def good_def applier_calls_def rejections_def split: if_splits option.splits)

lemma step_ok_configure_ducking: "step_ok dev (step_configure_ducking e state)"
  by (rule step_okI)
    (auto simp: step_configure_ducking_def notify_def skip_def emit_def emits_def upd_device_def upd_manual_def
      Let_def good_def applier_calls_def rejections_def split: if_splits option.splits)

lemma step_ok_bypass_voice_processing: "step_ok dev (step_bypass_voice_processing state)"
  by (rule step_okI)
    (auto simp: step_bypass_voice_processing_def notify_def skip_def emit_def emits_def upd_device_def upd_manual_def
      Let_def good_def applier_calls_def rejections_def split: if_splits option.splits)

lemma step_ok_configure_agc: "step_ok dev (step_configure_agc state)"
  by (rule step_okI)
    (auto simp: step_configure_agc_def notify_def skip_def emit_def emits_def upd_device_def upd_manual_def
      Let_def good_def applier_calls_def rejections_def split: if_splits option.splits)

lemma step_ok_configure_device: "step_ok dev (step_configure_device e state)"
  by (rule step_okI)
    (auto simp: step_configure_device_def notify_def skip_def emit_def emits_def upd_device_def upd_manual_def
      Let_def good_def applier_calls_def rejections_def split: if_splits option.splits)

lemma step_ok_start_playout_buffer: "step_ok dev (step_start_playout_buffer state)"
  by (rule step_okI)
    (auto simp: step_start_playout_buffer_def notify_def skip_def emit_def emits_def upd_device_def upd_manual_def
      Let_def good_def applier_calls_def rejections_def split: if_splits option.splits)

lemma step_ok_start_recording_buffer: "step_ok dev (step_start_recording_buffer state)"
  by (rule step_okI)
    (auto simp: step_start_recording_buffer_def notify_def skip_def emit_def emits_def upd_device_def upd_manual_def
      Let_def good_def applier_calls_def rejections_def split: if_splits option.splits)

lemma step_ok_release_engine: "step_ok dev (step_release_engine e state)"
  by (rule step_okI)
    (auto simp: step_release_engine_def notify_def skip_def emit_def emits_def upd_device_def upd_manual_def
      Let_def good_def applier_calls_def rejections_def split: if_splits option.splits)

lemma step_ok_manual_stop_engine: "step_ok dev (manual_stop_engine e state)"
  by (rule step_okI)
    (auto simp: manual_stop_engine_def notify_def skip_def emit_def emits_def upd_device_def upd_manual_def
      Let_def good_def applier_calls_def rejections_def split: if_splits option.splits)

lemma step_ok_manual_create_engine: "step_ok dev (manual_create_engine e state)"
  by (rule step_okI)
    (auto simp: manual_create_engine_def notify_def skip_def emit_def emits_def upd_device_def upd_manual_def
      Let_def good_def applier_calls_def rejections_def split: if_splits option.splits)

lemma step_ok_manual_enable_output: "step_ok dev (manual_enable_output state)"
  by (rule step_okI)
    (auto simp: manual_enable_output_def notify_def skip_def emit_def emits_def upd_device_def upd_manual_def
      Let_def good_def applier_calls_def rejections_def split: if_splits option.splits)

lemma step_ok_manual_enable_input: "step_ok dev (manual_enable_input e state)"
  by (rule step_okI)
    (auto simp: manual_enable_input_def notify_def skip_def emit_def emits_def upd_device_def upd_manual_def
      Let_def good_def applier_calls_def rejections_def split: if_splits option.splits)

lemma step_ok_manual_start_engine: "step_ok dev (manual_start_engine e state)"
  by (rule step_okI)
    (auto simp: manual_start_engine_def notify_def skip_def emit_def emits_def upd_device_def upd_manual_def
      Let_def good_def applier_calls_def rejections_def split: if_splits option.splits)

lemma step_ok_manual_release_engine: "step_ok dev (manual_release_engine e state)"
  by (rule step_okI)
    (auto simp: manual_release_engine_def notify_def skip_def emit_def emits_def upd_device_def upd_manual_def
      Let_def good_def applier_calls_def rejections_def split: if_splits option.splits)

lemma step_ok_enable_output: "step_ok (IsAnyEnabled (next state)) (step_enable_output e state)"
  by (rule step_okI)
    (auto simp: step_enable_output_def notify_def skip_def emit_def emits_def upd_device_def Let_def
      good_def applier_calls_def rejections_def IsAnyEnabled_def split: if_splits option.splits)

lemma start_attempt_trace:
  "\<exists>evs. trace (snd (start_attempt e n p)) = trace p @ evs \<and> quiet evs"
  by (auto simp: start_attempt_def emit_def emits_def upd_device_def Let_def)

lemma start_engine_loop_trace:
  "start_engine_loop e sr n p = (sr', n', p') \<Longrightarrow> \<exists>evs. trace p' = trace p @ evs \<and> quiet evs"
proof (induction e sr n p rule: start_engine_loop.induct)
  case (1 e start_result start_retry_count p)
  show ?case
  proof (cases "\<not> start_result \<and> start_retry_count < kStartEngineMaxRetries")
    case False
    with "1.prems" have "p' = p"
      by (subst (asm) start_engine_loop.simps) auto
    then show ?thesis by simp
  next
    case True
    define a where "a = start_attempt e start_retry_count p"
    have rec: "start_engine_loop e (fst a)
                 (if fst a then start_retry_count else start_retry_count + 1) (snd a)
                = (sr', n', p')"
      using "1.prems" True
      by (subst (asm) start_engine_loop.simps) (simp add: Let_def a_def)
    from "1.IH" [OF True a_def rec]
    obtain evs where evs: "trace p' = trace (snd a) @ evs" "quiet evs" by blast
    from start_attempt_trace [of e start_retry_count p]
    obtain evs0 where "trace (snd a) = trace p @ evs0" "quiet evs0"
      unfolding a_def by blast
    with evs have "trace p' = trace p @ (evs0 @ evs)" "quiet (evs0 @ evs)" by auto
    then show ?thesis by blast
  qed
qed

lemma step_ok_start_engine: "step_ok dev (step_start_engine e state)"
proof -
  have k: "step_ok dev (\<lambda>q. case start_engine_loop e False 0 q of
                  (start_result, start_retry_count, q1) \<Rightarrow>
                    if start_result then Some (0::int, q1\<lparr>configuration_observer := True\<rparr>)
                    else Some (0, emit DebugAudioEngine q1))"
  proof (rule step_okI)
    fix p r p'
    assume a: "(case start_engine_loop e False 0 p of
                  (start_result, start_retry_count, q1) \<Rightarrow>
                    if start_result then Some (0::int, q1\<lparr>configuration_observer := True\<rparr>)
                    else Some (0, emit DebugAudioEngine q1)) = Some (r, p')"
    obtain sr n q1 where l: "start_engine_loop e False 0 p = (sr, n, q1)"
      by (cases "start_engine_loop e False 0 p") auto
    from start_engine_loop_trace [OF l] obtain evs where
      evs: "trace q1 = trace p @ evs" "quiet evs" by blast
    show "\<exists>evs. trace p' = trace p @ evs \<and> good dev r evs"
    proof (cases sr)
      case True
      with a l have "r = 0" "trace p' = trace p @ evs" using evs by auto
      with evs show ?thesis by (auto intro: good_quiet)
    next
      case False
      with a l have "r = 0" "trace p' = trace p @ (evs @ [DebugAudioEngine])"
        using evs by (auto simp: emit_def)
      moreover have "quiet (evs @ [DebugAudioEngine])" using evs by simp
      ultimately show ?thesis using good_quiet by blast
    qed
  qed
  show ?thesis
  proof (rule step_okI)
    fix p r p'
    assume a: "step_start_engine e state p = Some (r, p')"
    show "\<exists>evs. trace p' = trace p @ evs \<and> good dev r evs"
    proof (cases "IsAnyRunning (next state) \<and>
         (\<not> IsAnyRunning (prev state) \<or> DidEndInterruption state \<or>
          IsEngineRestartRequired state \<or> IsEngineRecreateRequired state)")
      case False
      with a have "r = 0" "p' = p" by (auto simp: step_start_engine_def)
      then show ?thesis by simp
    next
      case True
      with a have "notify e (OnEngineWillStart (IsOutputEnabled (next state))
            (IsInputEnabled (next state)))
          (\<lambda>q. case start_engine_loop e False 0 q of
                  (start_result, start_retry_count, q1) \<Rightarrow>
                    if start_result then Some (0::int, q1\<lparr>configuration_observer := True\<rparr>)
                    else Some (0, emit DebugAudioEngine q1)) p = Some (r, p')"
        by (simp add: step_start_engine_def)
      from step_okD [OF step_ok_notify [OF k] this] show ?thesis .
    qed
  qed
qed

lemma good_weaken: "good False r evs \<Longrightarrow> good dev r evs"
  by (simp add: good_def)

lemmas device_step_oks =
  step_ok_stop_engine step_ok_release_for_recreate step_ok_create_engine
  step_ok_stop_playout_buffer step_ok_stop_recording_buffer step_ok_will_enable
  step_ok_configure_voice_processing step_ok_enable_output step_ok_enable_input
  step_ok_did_disable step_ok_mute_voice_processing step_ok_mute_input_mixer
  step_ok_configure_ducking step_ok_bypass_voice_processing step_ok_configure_agc
  step_ok_configure_device step_ok_start_playout_buffer step_ok_start_recording_buffer
  step_ok_start_engine step_ok_release_engine

lemmas manual_step_oks =
  step_ok_manual_stop_engine step_ok_manual_create_engine
  step_ok_stop_playout_buffer step_ok_stop_recording_buffer step_ok_will_enable
  step_ok_manual_enable_output step_ok_manual_enable_input step_ok_did_disable
  step_ok_start_playout_buffer step_ok_start_recording_buffer
  step_ok_manual_start_engine step_ok_manual_release_engine

lemma device_steps_ok:
  "step_ok (IsAnyEnabled (next state)) (run_steps (device_steps e state))"
  by (rule step_ok_run_steps) (auto simp: device_steps_def intro: device_step_oks)

lemma manual_steps_ok: "step_ok False (run_steps (manual_steps e state))"
  by (rule step_ok_run_steps) (auto simp: manual_steps_def intro: manual_step_oks)

lemma rollback_trace: "trace (rollback p) = trace p"
proof -
  have "trace (fold run_rollback_action acts p) = trace p" for acts
  proof (induction acts arbitrary: p)
    case Nil
    show ?case by simp
  next
    case (Cons a acts)
    show ?case by (cases a) (simp add: Cons.IH)
  qed
  then show ?thesis by (simp add: rollback_def)
qed

lemma ApplyDeviceEngineState_trace:
  assumes "ApplyDeviceEngineState e state p = Some (r, p')"
  shows "\<exists>evs. trace p' = trace p @ ApplyDevice state # evs \<and>
           good (IsAnyEnabled (next state)) r evs"
proof -
  from assms obtain q where
    run: "run_steps (device_steps e state) (emit (ApplyDevice state) (p\<lparr>rollback_actions := []\<rparr>))
            = Some (r, q)" and
    tr: "trace p' = trace q"
    by (auto simp: ApplyDeviceEngineState_def rollback_trace split: option.splits if_splits)
  from step_okD [OF device_steps_ok run] obtain evs where
    "trace q = trace (emit (ApplyDevice state) (p\<lparr>rollback_actions := []\<rparr>)) @ evs"
    "good (IsAnyEnabled (next state)) r evs" by blast
  with tr show ?thesis by (auto simp: emit_def)
qed

lemma ApplyManualEngineState_trace:
  assumes "ApplyManualEngineState e state p = Some (r, p')"
  shows "\<exists>evs. trace p' = trace p @ ApplyManual state # evs \<and> good False r evs"
proof -
  from assms have
    run: "run_steps (manual_steps e state) (emit (ApplyManual state) p) = Some (r, p')"
    by (simp add: ApplyManualEngineState_def)
  from step_okD [OF manual_steps_ok run] show ?thesis by (auto simp: emit_def)
qed

lemma IsAnyEnabled_default [simp]: "\<not> IsAnyEnabled default_EngineState"
  by (simp add: IsAnyEnabled_def IsInputEnabled_def IsOutputEnabled_def default_EngineState_def)

lemma rejections_simps [simp]:
  "rejections [] = []"
  "rejections (ApplyDevice u # evs) = rejections evs"
  "rejections (ApplyManual u # evs) = rejections evs"
  "rejections (evs1 @ evs2) = rejections evs1 @ rejections evs2"
  by (simp_all add: rejections_def)

lemma applier_calls_simps [simp]:
  "applier_calls [] = []"
  "applier_calls (ApplyDevice u # evs) = ApplyDevice u # applier_calls evs"
  "applier_calls (ApplyManual u # evs) = ApplyManual u # applier_calls evs"
  "applier_calls (evs1 @ evs2) = applier_calls evs1 @ applier_calls evs2"
  by (simp_all add: applier_calls_def)

lemma dispatch_trace:
  assumes "dispatch e state p = Some (r1, r2, p')"
  shows "\<exists>evs. trace p' = trace p @ evs \<and> run_ok state r1 r2 evs"
proof (cases "DidEnableManualRenderingMode state")
  case True
  with assms obtain p1 where
    a: "ApplyDeviceEngineState e (state\<lparr>next := default_EngineState\<rparr>) p = Some (r1, p1)" and
    b: "ApplyManualEngineState e state p1 = Some (r2, p')"
    by (auto simp: dispatch_def Let_def split: option.splits)
  from ApplyDeviceEngineState_trace [OF a] obtain evs1 where
    e1: "trace p1 = trace p @ ApplyDevice (state\<lparr>next := default_EngineState\<rparr>) # evs1"
        "good False r1 evs1" by auto
  from ApplyManualEngineState_trace [OF b] obtain evs2 where
    e2: "trace p' = trace p1 @ ApplyManual state # evs2" "good False r2 evs2" by auto
  from e1 e2 True show ?thesis by (auto simp: run_ok_def)
next
  case notM: False
  show ?thesis
  proof (cases "DidEnableDeviceRenderingMode state")
    case True
    with assms notM obtain p1 where
      a: "ApplyManualEngineState e (state\<lparr>next := default_EngineState\<rparr>) p = Some (r1, p1)" and
      b: "ApplyDeviceEngineState e state p1 = Some (r2, p')"
      by (auto simp: dispatch_def Let_def split: option.splits)
    from ApplyManualEngineState_trace [OF a] obtain evs1 where
      e1: "trace p1 = trace p @ ApplyManual (state\<lparr>next := default_EngineState\<rparr>) # evs1"
          "good False r1 evs1" by auto
    from ApplyDeviceEngineState_trace [OF b] obtain evs2 where
      e2: "trace p' = trace p1 @ ApplyDevice state # evs2" "good True r2 evs2"
      by (auto intro: good_weaken simp: good_def)
    from e1 e2 True notM show ?thesis by (auto simp: run_ok_def)
  next
    case notD: False
    show ?thesis
    proof (cases "render_mode (next state)")
      case Device
      with assms notM notD have a: "ApplyDeviceEngineState e state p = Some (r1, p')" and "r2 = 0"
        by (auto simp: dispatch_def split: option.splits)
      from ApplyDeviceEngineState_trace [OF a] obtain evs1 where
        "trace p' = trace p @ ApplyDevice state # evs1" "good True r1 evs1"
        by (auto simp: good_def)
      with \<open>r2 = 0\<close> Device notM notD show ?thesis by (auto simp: run_ok_def)
    next
      case Manual
      with assms notM notD have a: "ApplyManualEngineState e state p = Some (r2, p')" and "r1 = 0"
        by (auto simp: dispatch_def split: option.splits)
      from ApplyManualEngineState_trace [OF a] obtain evs2 where
        "trace p' = trace p @ ApplyManual state # evs2" "good False r2 evs2" by auto
      with \<open>r1 = 0\<close> Manual notM notD show ?thesis by (auto simp: run_ok_def)
    qed
  qed
qed

lemma good_first_rejection:
  assumes "good dev r evs" and "rejections evs \<noteq> []"
  shows "rejections evs = [r] \<and> r \<noteq> 0"
  using assms by (cases "r = 0") (auto simp: good_def)

lemma two_appliers_first_rejection:
  assumes g1: "good False r1 evs1" and g2: "good dev r2 evs2"
    and ne: "rejections evs1 @ rejections evs2 \<noteq> []"
  shows "(if r1 \<noteq> 0 then r1 else r2) = hd (rejections evs1 @ rejections evs2) \<and>
         (if r1 \<noteq> 0 then r1 else r2) \<noteq> 0"
proof (cases "r1 = 0")
  case True
  with g1 have "rejections evs1 = []" by (simp add: good_def)
  with ne good_first_rejection [OF g2] True show ?thesis by simp
next
  case False
  with g1 have "rejections evs1 = [r1]" by (simp add: good_def)
  with False show ?thesis by simp
qed

lemma run_ok_first_rejection:
  assumes ok: "run_ok state r1 r2 evs" and ne: "rejections evs \<noteq> []"
  shows "(if r1 \<noteq> 0 then r1 else r2) = hd (rejections evs) \<and>
         (if r1 \<noteq> 0 then r1 else r2) \<noteq> 0"
proof -
  consider
    (toManual) evs1 evs2 where
      "evs = ApplyDevice (state\<lparr>next := default_EngineState\<rparr>) # evs1 @ ApplyManual state # evs2"
      "good False r1 evs1" "good False r2 evs2"
  | (toDevice) evs1 evs2 where
      "evs = ApplyManual (state\<lparr>next := default_EngineState\<rparr>) # evs1 @ ApplyDevice state # evs2"
      "good False r1 evs1" "good True r2 evs2"
  | (device) evs1 where "evs = ApplyDevice state # evs1" "good True r1 evs1" "r2 = 0"
  | (manual) evs2 where "evs = ApplyManual state # evs2" "good False r2 evs2" "r1 = 0"
    using ok unfolding run_ok_def by (auto split: if_splits)
  then show ?thesis
  proof cases
    case toManual
    with ne have "rejections evs1 @ rejections evs2 \<noteq> []" by simp
    from two_appliers_first_rejection [OF toManual(2,3) this] toManual(1)
    show ?thesis by simp
  next
    case toDevice
    with ne have "rejections evs1 @ rejections evs2 \<noteq> []" by simp
    from two_appliers_first_rejection [OF toDevice(2,3) this] toDevice(1)
    show ?thesis by simp
  next
    case device
    with ne have "rejections evs1 \<noteq> []" by simp
    from good_first_rejection [OF device(2) this] device(1,3) show ?thesis by simp
  next
    case manual
    with ne have "rejections evs2 \<noteq> []" by simp
    from good_first_rejection [OF manual(2) this] manual(1,3) show ?thesis by simp
  qed
qed

lemma ModifyEngineState_cases:
  assumes "ModifyEngineState e f d = Some (res, d')"
  shows "(d' = d \<and> res = 0 \<and> f (engine_state d) = engine_state d) \<or>
         (d' = d \<and> res = - 1 \<and>
            ((input_running (f (engine_state d)) \<and> \<not> input_enabled (f (engine_state d))) \<or>
             (output_running (f (engine_state d)) \<and> \<not> output_enabled (f (engine_state d))))) \<or>
         (\<exists>r1 r2 p'. dispatch e \<lparr>prev = engine_state d, next = f (engine_state d)\<rparr> (plat d)
                        = Some (r1, r2, p') \<and>
                      res = (if r1 \<noteq> 0 then r1 else r2) \<and> plat d' = p' \<and>
                      engine_state d' = (if res = 0 then f (engine_state d) else engine_state d))"
proof -
  let ?n = "f (engine_state d)"
  show ?thesis
  proof (cases "?n = engine_state d")
    case True
    with assms show ?thesis
      by (simp add: ModifyEngineState_def HasNoChanges_def EngineState_eq_iff)
  next
    case ne: False
    show ?thesis
    proof (cases "(input_running ?n \<and> \<not> input_enabled ?n) \<or>
                  (output_running ?n \<and> \<not> output_enabled ?n)")
      case True
      with assms ne have "d' = d \<and> res = - 1"
        by (auto simp: ModifyEngineState_def HasNoChanges_def EngineState_eq_iff Let_def
            split: if_splits)
      with True show ?thesis by blast
    next
      case False
      with assms ne obtain r1 r2 p' where
        "dispatch e \<lparr>prev = engine_state d, next = ?n\<rparr> (plat d) = Some (r1, r2, p')"
        "res = (if r1 \<noteq> 0 then r1 else r2)" "plat d' = p'"
        "engine_state d' = (if res = 0 then ?n else engine_state d)"
        by (auto simp: ModifyEngineState_def HasNoChanges_def EngineState_eq_iff Let_def
            split: option.splits prod.splits if_splits)
      then show ?thesis by blast
    qed
  qed
qed

subsection \<open>What a rejected run leaves behind\<close>

lemma rejected_early_simps [simp]:
  "\<not> rejected_early []"
  "rejected_early (ev # evs) \<longleftrightarrow> is_early_rejection ev \<or> rejected_early evs"
  "rejected_early (evs1 @ evs2) \<longleftrightarrow> rejected_early evs1 \<or> rejected_early evs2"
  by (auto simp: rejected_early_def list_ex_iff)

lemma early_rejection_is_rejection: "is_early_rejection ev \<Longrightarrow> rejection ev \<noteq> []"
  by (cases ev) auto

lemma no_rejections_not_early: "rejections evs = [] \<Longrightarrow> \<not> rejected_early evs"
  by (induction evs) (auto simp: rejections_def dest: early_rejection_is_rejection)

lemma step_keeps_run_steps:
  assumes refl: "\<And>p. R p p" and trans: "\<And>a b c. R a b \<Longrightarrow> R b c \<Longrightarrow> R a c"
    and steps: "\<And>s. s \<in> set ss \<Longrightarrow> step_keeps R s"
  shows "step_keeps R (run_steps ss)"
  using steps
proof (induction ss)
  case Nil
  show ?case by (simp add: step_keeps_def refl)
next
  case (Cons s ss)
  have s: "step_keeps R s" and rest: "step_keeps R (run_steps ss)"
    using Cons by auto
  show ?case
    unfolding step_keeps_def
  proof (intro allI impI)
    fix p r p'
    assume run: "run_steps (s # ss) p = Some (r, p')"
    then obtain r1 p1 where s1: "s p = Some (r1, p1)"
      by (auto split: option.splits)
    from s s1 have R1: "R p p1" by (simp add: step_keeps_def)
    show "R p p'"
    proof (cases "r1 = 0")
      case False
      with run s1 have "p' = p1" by auto
      with R1 show ?thesis by simp
    next
      case True
      with run s1 have "run_steps ss p1 = Some (r, p')" by auto
      with rest have "R p1 p'" by (simp add: step_keeps_def)
      with R1 show ?thesis by (rule trans)
    qed
  qed
qed

lemma run_steps_append:
  "run_steps (xs @ ys) p =
     (case run_steps xs p of
        None \<Rightarrow> None
      | Some (r, p1) \<Rightarrow> if r \<noteq> 0 then Some (r, p1) else run_steps ys p1)"
  by (induction xs arbitrary: p) (auto split: option.splits)

lemma same_buffers_refl: "same_buffers p p"
  by (simp add: same_buffers_def)

lemma same_buffers_trans: "same_buffers a b \<Longrightarrow> same_buffers b c \<Longrightarrow> same_buffers a c"
  by (simp add: same_buffers_def)

lemma no_early_rejection_refl: "no_early_rejection p p"
  by (simp add: no_early_rejection_def)

lemma no_early_rejection_trans:
  "no_early_rejection a b \<Longrightarrow> no_early_rejection b c \<Longrightarrow> no_early_rejection a c"
  by (auto simp: no_early_rejection_def)

lemma keeps_rollback_ready_refl: "keeps_rollback_ready p p"
  by (simp add: keeps_rollback_ready_def)

lemma keeps_rollback_ready_trans:
  "keeps_rollback_ready a b \<Longrightarrow> keeps_rollback_ready b c \<Longrightarrow> keeps_rollback_ready a c"
  by (simp add: keeps_rollback_ready_def)

lemma step_keepsI: "(\<And>p r p'. s p = Some (r, p') \<Longrightarrow> R p p') \<Longrightarrow> step_keeps R s"
  by (simp add: step_keeps_def)

lemma step_keepsD: "step_keeps R s \<Longrightarrow> s p = Some (r, p') \<Longrightarrow> R p p'"
  by (simp add: step_keeps_def)

lemma same_buffers_step_stop_engine: "step_keeps same_buffers (step_stop_engine e state)"
  by (rule step_keepsI, unfold same_buffers_def)
    (auto simp: step_stop_engine_def notify_def skip_def emit_def emits_def upd_device_def upd_manual_def Let_def
      split: if_splits option.splits)

lemma same_buffers_step_release_for_recreate: "step_keeps same_buffers (step_release_for_recreate e state)"
  by (rule step_keepsI, unfold same_buffers_def)
    (auto simp: step_release_for_recreate_def notify_def skip_def emit_def emits_def upd_device_def upd_manual_def Let_def
      split: if_splits option.splits)

lemma same_buffers_step_create_engine: "step_keeps same_buffers (step_create_engine e state)"
  by (rule step_keepsI, unfold same_buffers_def)
    (auto simp: step_create_engine_def notify_def skip_def emit_def emits_def upd_device_def upd_manual_def Let_def
      split: if_splits option.splits)

lemma same_buffers_manual_stop_engine: "step_keeps same_buffers (manual_stop_engine e state)"
  by (rule step_keepsI, unfold same_buffers_def)
    (auto simp: manual_stop_engine_def notify_def skip_def emit_def emits_def upd_device_def upd_manual_def Let_def
      split: if_splits option.splits)

lemma same_buffers_manual_create_engine: "step_keeps same_buffers (manual_create_engine e state)"
  by (rule step_keepsI, unfold same_buffers_def)
    (auto simp: manual_create_engine_def notify_def skip_def emit_def emits_def upd_device_def upd_manual_def Let_def
      split: if_splits option.splits)

lemma late_step_stop_playout_buffer: "step_keeps no_early_rejection (step_stop_playout_buffer state)"
  by (rule step_keepsI, unfold no_early_rejection_def)
    (auto simp: step_stop_playout_buffer_def notify_def skip_def emit_def emits_def upd_device_def upd_manual_def Let_def
      split: if_splits option.splits)

lemma late_step_stop_recording_buffer: "step_keeps no_early_rejection (step_stop_recording_buffer state)"
  by (rule step_keepsI, unfold no_early_rejection_def)
    (auto simp: step_stop_recording_buffer_def notify_def skip_def emit_def emits_def upd_device_def upd_manual_def Let_def
      split: if_splits option.splits)

lemma late_step_will_enable: "step_keeps no_early_rejection (step_will_enable e state)"
  by (rule step_keepsI, unfold no_early_rejection_def)
    (auto simp: step_will_enable_def notify_def skip_def emit_def emits_def upd_device_def upd_manual_def Let_def
      split: if_splits option.splits)

lemma late_step_configure_voice_processing: "step_keeps no_early_rejection (step_configure_voice_processing e state)"
  by (rule step_keepsI, unfold no_early_rejection_def)
    (auto simp: step_configure_voice_processing_def notify_def skip_def emit_def emits_def upd_device_def upd_manual_def Let_def
      split: if_splits option.splits)

lemma late_step_enable_output: "step_keeps no_early_rejection (step_enable_output e state)"
  by (rule step_keepsI, unfold no_early_rejection_def)
    (auto simp: step_enable_output_def notify_def skip_def emit_def emits_def upd_device_def upd_manual_def Let_def
      split: if_splits option.splits)

lemma late_step_enable_input: "step_keeps no_early_rejection (step_enable_input e state)"
  by (rule step_keepsI, unfold no_early_rejection_def)
    (auto simp: step_enable_input_def notify_def skip_def emit_def emits_def upd_device_def upd_manual_def Let_def
      split: if_splits option.splits)

lemma late_step_did_disable: "step_keeps no_early_rejection (step_did_disable e state)"
  by (rule step_keepsI, unfold no_early_rejection_def)
    (auto simp: step_did_disable_def notify_def skip_def emit_def emits_def upd_device_def upd_manual_def Let_def
      split: if_splits option.splits)

lemma late_step_mute_voice_processing: "step_keeps no_early_rejection (step_mute_voice_processing state)"
  by (rule step_keepsI, unfold no_early_rejection_def)
    (auto simp: step_mute_voice_processing_def notify_def skip_def emit_def emits_def upd_device_def upd_manual_def Let_def
      split: if_splits option.splits)

lemma late_step_mute_input_mixer: "step_keeps no_early_rejection (step_mute_input_mixer state)"
  by (rule step_keepsI, unfold no_early_rejection_def)
    (auto simp: step_mute_input_mixer_def notify_def skip_def emit_def emits_def upd_device_def upd_manual_def Let_def
      split: if_splits option.splits)

lemma late_step_configure_ducking: "step_keeps no_early_rejection (step_configure_ducking e state)"
  by (rule step_keepsI, unfold no_early_rejection_def)
    (auto simp: step_configure_ducking_def notify_def skip_def emit_def emits_def upd_device_def upd_manual_def Let_def
      split: if_splits option.splits)

lemma late_step_bypass_voice_processing: "step_keeps no_early_rejection (step_bypass_voice_processing state)"
  by (rule step_keepsI, unfold no_early_rejection_def)
    (auto simp: step_bypass_voice_processing_def notify_def skip_def emit_def emits_def upd_device_def upd_manual_def Let_def
      split: if_splits option.splits)

lemma late_step_configure_agc: "step_keeps no_early_rejection (step_configure_agc state)"
  by (rule step_keepsI, unfold no_early_rejection_def)
    (auto simp: step_configure_agc_def notify_def skip_def emit_def emits_def upd_device_def upd_manual_def Let_def
      split: if_splits option.splits)

lemma late_step_configure_device: "step_keeps no_early_rejection (step_configure_device e state)"
  by (rule step_keepsI, unfold no_early_rejection_def)
    (auto simp: step_configure_device_def notify_def skip_def emit_def emits_def upd_device_def upd_manual_def Let_def
      split: if_splits option.splits)

lemma late_step_start_playout_buffer: "step_keeps no_early_rejection (step_start_playout_buffer state)"
  by (rule step_keepsI, unfold no_early_rejection_def)
    (auto simp: step_start_playout_buffer_def notify_def skip_def emit_def emits_def upd_device_def upd_manual_def Let_def
      split: if_splits option.splits)

lemma late_step_start_recording_buffer: "step_keeps no_early_rejection (step_start_recording_buffer state)"
  by (rule step_keepsI, unfold no_early_rejection_def)
    (auto simp: step_start_recording_buffer_def notify_def skip_def emit_def emits_def upd_device_def upd_manual_def Let_def
      split: if_splits option.splits)

lemma late_step_release_engine: "step_keeps no_early_rejection (step_release_engine e state)"
  by (rule step_keepsI, unfold no_early_rejection_def)
    (auto simp: step_release_engine_def notify_def skip_def emit_def emits_def upd_device_def upd_manual_def Let_def
      split: if_splits option.splits)

lemma late_manual_enable_output: "step_keeps no_early_rejection (manual_enable_output state)"
  by (rule step_keepsI, unfold no_early_rejection_def)
    (auto simp: manual_enable_output_def notify_def skip_def emit_def emits_def upd_device_def upd_manual_def Let_def
      split: if_splits option.splits)

lemma late_manual_enable_input: "step_keeps no_early_rejection (manual_enable_input e state)"
  by (rule step_keepsI, unfold no_early_rejection_def)
    (auto simp: manual_enable_input_def notify_def skip_def emit_def emits_def upd_device_def upd_manual_def Let_def
      split: if_splits option.splits)

lemma late_manual_start_engine: "step_keeps no_early_rejection (manual_start_engine e state)"
  by (rule step_keepsI, unfold no_early_rejection_def)
    (auto simp: manual_start_engine_def notify_def skip_def emit_def emits_def upd_device_def upd_manual_def Let_def
      split: if_splits option.splits)

lemma late_manual_release_engine: "step_keeps no_early_rejection (manual_release_engine e state)"
  by (rule step_keepsI, unfold no_early_rejection_def)
    (auto simp: manual_release_engine_def notify_def skip_def emit_def emits_def upd_device_def upd_manual_def Let_def
      split: if_splits option.splits)

lemma rollback_ready_step_stop_engine: "step_keeps keeps_rollback_ready (step_stop_engine e state)"
  by (rule step_keepsI, unfold keeps_rollback_ready_def rollback_ready_def)
    (auto simp: step_stop_engine_def notify_def skip_def emit_def emits_def upd_device_def upd_manual_def Let_def
      split: if_splits option.splits)

lemma rollback_ready_step_release_for_recreate: "step_keeps keeps_rollback_ready (step_release_for_recreate e state)"
  by (rule step_keepsI, unfold keeps_rollback_ready_def rollback_ready_def)
    (auto simp: step_release_for_recreate_def notify_def skip_def emit_def emits_def upd_device_def upd_manual_def Let_def
      split: if_splits option.splits)

lemma rollback_ready_step_create_engine: "step_keeps keeps_rollback_ready (step_create_engine e state)"
  by (rule step_keepsI, unfold keeps_rollback_ready_def rollback_ready_def)
    (auto simp: step_create_engine_def notify_def skip_def emit_def emits_def upd_device_def upd_manual_def Let_def
      split: if_splits option.splits)

lemma rollback_ready_step_stop_playout_buffer: "step_keeps keeps_rollback_ready (step_stop_playout_buffer state)"
  by (rule step_keepsI, unfold keeps_rollback_ready_def rollback_ready_def)
    (auto simp: step_stop_playout_buffer_def notify_def skip_def emit_def emits_def upd_device_def upd_manual_def Let_def
      split: if_splits option.splits)

lemma rollback_ready_step_stop_recording_buffer: "step_keeps keeps_rollback_ready (step_stop_recording_buffer state)"
  by (rule step_keepsI, unfold keeps_rollback_ready_def rollback_ready_def)
    (auto simp: step_stop_recording_buffer_def notify_def skip_def emit_def emits_def upd_device_def upd_manual_def Let_def
      split: if_splits option.splits)

lemma rollback_ready_step_will_enable: "step_keeps keeps_rollback_ready (step_will_enable e state)"
  by (rule step_keepsI, unfold keeps_rollback_ready_def rollback_ready_def)
    (auto simp: step_will_enable_def notify_def skip_def emit_def emits_def upd_device_def upd_manual_def Let_def
      split: if_splits option.splits)

lemma rollback_ready_step_configure_voice_processing: "step_keeps keeps_rollback_ready (step_configure_voice_processing e state)"
  by (rule step_keepsI, unfold keeps_rollback_ready_def rollback_ready_def)
    (auto simp: step_configure_voice_processing_def notify_def skip_def emit_def emits_def upd_device_def upd_manual_def Let_def
      split: if_splits option.splits)

lemma rollback_ready_step_enable_output: "step_keeps keeps_rollback_ready (step_enable_output e state)"
  by (rule step_keepsI, unfold keeps_rollback_ready_def rollback_ready_def)
    (auto simp: step_enable_output_def notify_def skip_def emit_def emits_def upd_device_def upd_manual_def Let_def
      split: if_splits option.splits)

lemma rollback_ready_step_enable_input: "step_keeps keeps_rollback_ready (step_enable_input e state)"
  by (rule step_keepsI, unfold keeps_rollback_ready_def rollback_ready_def)
    (auto simp: step_enable_input_def notify_def skip_def emit_def emits_def upd_device_def upd_manual_def Let_def
      split: if_splits option.splits)

lemma rollback_ready_step_did_disable: "step_keeps keeps_rollback_ready (step_did_disable e state)"
  by (rule step_keepsI, unfold keeps_rollback_ready_def rollback_ready_def)
    (auto simp: step_did_disable_def notify_def skip_def emit_def emits_def upd_device_def upd_manual_def Let_def
      split: if_splits option.splits)

lemma rollback_ready_step_mute_voice_processing: "step_keeps keeps_rollback_ready (step_mute_voice_processing state)"
  by (rule step_keepsI, unfold keeps_rollback_ready_def rollback_ready_def)
    (auto simp: step_mute_voice_processing_def notify_def skip_def emit_def emits_def upd_device_def upd_manual_def Let_def
      split: if_splits option.splits)

lemma rollback_ready_step_mute_input_mixer: "step_keeps keeps_rollback_ready (step_mute_input_mixer state)"
  by (rule step_keepsI, unfold keeps_rollback_ready_def rollback_ready_def)
    (auto simp: step_mute_input_mixer_def notify_def skip_def emit_def emits_def upd_device_def upd_manual_def Let_def
      split: if_splits option.splits)

lemma rollback_ready_step_configure_ducking: "step_keeps keeps_rollback_ready (step_configure_ducking e state)"
  by (rule step_keepsI, unfold keeps_rollback_ready_def rollback_ready_def)
    (auto simp: step_configure_ducking_def notify_def skip_def emit_def emits_def upd_device_def upd_manual_def Let_def
      split: if_splits option.splits)

lemma rollback_ready_step_bypass_voice_processing: "step_keeps keeps_rollback_ready (step_bypass_voice_processing state)"
  by (rule step_keepsI, unfold keeps_rollback_ready_def rollback_ready_def)
    (auto simp: step_bypass_voice_processing_def notify_def skip_def emit_def emits_def upd_device_def upd_manual_def Let_def
      split: if_splits option.splits)

lemma rollback_ready_step_configure_agc: "step_keeps keeps_rollback_ready (step_configure_agc state)"
  by (rule step_keepsI, unfold keeps_rollback_ready_def rollback_ready_def)
    (auto simp: step_configure_agc_def notify_def skip_def emit_def emits_def upd_device_def upd_manual_def Let_def
      split: if_splits option.splits)

lemma rollback_ready_step_configure_device: "step_keeps keeps_rollback_ready (step_configure_device e state)"
  by (rule step_keepsI, unfold keeps_rollback_ready_def rollback_ready_def)
    (auto simp: step_configure_device_def notify_def skip_def emit_def emits_def upd_device_def upd_manual_def Let_def
      split: if_splits option.splits)

lemma rollback_ready_step_start_playout_buffer: "step_keeps keeps_rollback_ready (step_start_playout_buffer state)"
  by (rule step_keepsI, unfold keeps_rollback_ready_def rollback_ready_def)
    (auto simp: step_start_playout_buffer_def notify_def skip_def emit_def emits_def upd_device_def upd_manual_def Let_def
      split: if_splits option.splits)

lemma rollback_ready_step_start_recording_buffer: "step_keeps keeps_rollback_ready (step_start_recording_buffer state)"
  by (rule step_keepsI, unfold keeps_rollback_ready_def rollback_ready_def)
    (auto simp: step_start_recording_buffer_def notify_def skip_def emit_def emits_def upd_device_def upd_manual_def Let_def
      split: if_splits option.splits)

lemma rollback_ready_step_release_engine: "step_keeps keeps_rollback_ready (step_release_engine e state)"
  by (rule step_keepsI, unfold keeps_rollback_ready_def rollback_ready_def)
    (auto simp: step_release_engine_def notify_def skip_def emit_def emits_def upd_device_def upd_manual_def Let_def
      split: if_splits option.splits)

lemma quiet_not_early: "quiet evs \<Longrightarrow> \<not> rejected_early evs"
  by (simp add: quiet_def no_rejections_not_early)

lemma start_attempt_rollback_ready:
  "rollback_ready (snd (start_attempt e n p)) = rollback_ready p"
  by (auto simp: start_attempt_def emit_def emits_def upd_device_def Let_def rollback_ready_def)

lemma start_engine_loop_rollback_ready:
  "start_engine_loop e sr n p = (sr', n', p') \<Longrightarrow> rollback_ready p' = rollback_ready p"
proof (induction e sr n p rule: start_engine_loop.induct)
  case (1 e start_result start_retry_count p)
  show ?case
  proof (cases "\<not> start_result \<and> start_retry_count < kStartEngineMaxRetries")
    case False
    with "1.prems" have "p' = p"
      by (subst (asm) start_engine_loop.simps) auto
    then show ?thesis by simp
  next
    case True
    define a where "a = start_attempt e start_retry_count p"
    have rec: "start_engine_loop e (fst a)
                 (if fst a then start_retry_count else start_retry_count + 1) (snd a)
                = (sr', n', p')"
      using "1.prems" True
      by (subst (asm) start_engine_loop.simps) (simp add: Let_def a_def)
    from "1.IH" [OF True a_def rec]
    have "rollback_ready p' = rollback_ready (snd a)" .
    then show ?thesis
      by (simp add: a_def start_attempt_rollback_ready)
  qed
qed

lemma start_engine_rest:
  assumes "(case start_engine_loop e False 0 q of
              (start_result, start_retry_count, q1) \<Rightarrow>
                if start_result then Some (0::int, q1\<lparr>configuration_observer := True\<rparr>)
                else Some (0, emit DebugAudioEngine q1)) = Some (r, p')"
  shows "rollback_ready p' = rollback_ready q \<and>
         (\<exists>evs. trace p' = trace q @ evs \<and> quiet evs)"
proof -
  obtain sr n q1 where l: "start_engine_loop e False 0 q = (sr, n, q1)"
    by (cases "start_engine_loop e False 0 q") auto
  from start_engine_loop_trace [OF l] obtain evs where
    evs: "trace q1 = trace q @ evs" "quiet evs" by blast
  from start_engine_loop_rollback_ready [OF l]
  have rb: "rollback_ready q1 = rollback_ready q" .
  show ?thesis
  proof (cases sr)
    case True
    with assms l have "p' = q1\<lparr>configuration_observer := True\<rparr>" by auto
    with evs rb show ?thesis by (auto simp: rollback_ready_def)
  next
    case False
    with assms l have p': "p' = emit DebugAudioEngine q1" by auto
    have "trace p' = trace q @ (evs @ [DebugAudioEngine])" "quiet (evs @ [DebugAudioEngine])"
      using evs p' by (auto simp: emit_def)
    moreover have "rollback_ready p' = rollback_ready q"
      using rb p' by (simp add: rollback_ready_def emit_def)
    ultimately show ?thesis by blast
  qed
qed

lemma step_start_engine_cases:
  assumes "step_start_engine e state p = Some (r, p')"
  shows "p' = p \<or>
         (\<exists>c v. v \<noteq> 0 \<and> \<not> early_callback c \<and> p' = emit (Observer c v) p) \<or>
         (\<exists>q. (q = p \<or> (\<exists>c. q = emit (Observer c 0) p)) \<and>
              (case start_engine_loop e False 0 q of
                 (start_result, start_retry_count, q1) \<Rightarrow>
                   if start_result then Some (0::int, q1\<lparr>configuration_observer := True\<rparr>)
                   else Some (0, emit DebugAudioEngine q1)) = Some (r, p'))"
proof (cases "IsAnyRunning (next state) \<and>
         (\<not> IsAnyRunning (prev state) \<or> DidEndInterruption state \<or>
          IsEngineRestartRequired state \<or> IsEngineRecreateRequired state)")
  case False
  with assms show ?thesis by (auto simp: step_start_engine_def)
next
  case True
  let ?c = "OnEngineWillStart (IsOutputEnabled (next state)) (IsInputEnabled (next state))"
  let ?k = "\<lambda>q. case start_engine_loop e False 0 q of
                  (start_result, start_retry_count, q1) \<Rightarrow>
                    if start_result then Some (0::int, q1\<lparr>configuration_observer := True\<rparr>)
                    else Some (0, emit DebugAudioEngine q1)"
  from True assms have n: "notify e ?c ?k p = Some (r, p')"
    by (simp add: step_start_engine_def)
  show ?thesis
  proof (cases "observer e")
    case None
    with n have "?k p = Some (r, p')" by (simp add: notify_def)
    then show ?thesis by blast
  next
    case (Some f)
    show ?thesis
    proof (cases "f (trace p) ?c = 0")
      case True
      with n Some have "?k (emit (Observer ?c 0) p) = Some (r, p')"
        by (simp add: notify_def Let_def)
      then show ?thesis by blast
    next
      case False
      with n Some have "p' = emit (Observer ?c (f (trace p) ?c)) p"
        by (auto simp: notify_def Let_def)
      with False have "\<exists>c v. v \<noteq> 0 \<and> \<not> early_callback c \<and> p' = emit (Observer c v) p"
        by (intro exI [of _ ?c] exI [of _ "f (trace p) ?c"]) simp
      then show ?thesis by blast
    qed
  qed
qed

lemma late_step_start_engine: "step_keeps no_early_rejection (step_start_engine e state)"
proof (rule step_keepsI)
  fix p r p'
  assume a: "step_start_engine e state p = Some (r, p')"
  from step_start_engine_cases [OF a]
  show "no_early_rejection p p'"
  proof (elim disjE exE conjE)
    assume "p' = p"
    then show ?thesis by (simp add: no_early_rejection_def)
  next
    fix c v
    assume "v \<noteq> 0" "\<not> early_callback c" "p' = emit (Observer c v) p"
    then show ?thesis by (simp add: no_early_rejection_def emit_def)
  next
    fix q
    assume q: "q = p"
      and k: "(case start_engine_loop e False 0 q of
                 (start_result, start_retry_count, q1) \<Rightarrow>
                   if start_result then Some (0::int, q1\<lparr>configuration_observer := True\<rparr>)
                   else Some (0, emit DebugAudioEngine q1)) = Some (r, p')"
    from start_engine_rest [OF k] q show ?thesis
      by (auto simp: no_early_rejection_def dest: quiet_not_early)
  next
    fix q c
    assume q: "q = emit (Observer c 0) p"
      and k: "(case start_engine_loop e False 0 q of
                 (start_result, start_retry_count, q1) \<Rightarrow>
                   if start_result then Some (0::int, q1\<lparr>configuration_observer := True\<rparr>)
                   else Some (0, emit DebugAudioEngine q1)) = Some (r, p')"
    from start_engine_rest [OF k] obtain evs where
      "trace p' = trace q @ evs" "quiet evs" by blast
    with q have "trace p' = trace p @ (Observer c 0 # evs)" "\<not> rejected_early (Observer c 0 # evs)"
      by (auto simp: emit_def dest: quiet_not_early)
    then show ?thesis unfolding no_early_rejection_def by blast
  qed
qed

lemma rollback_ready_step_start_engine:
  "step_keeps keeps_rollback_ready (step_start_engine e state)"
proof (rule step_keepsI)
  fix p r p'
  assume a: "step_start_engine e state p = Some (r, p')"
  from step_start_engine_cases [OF a]
  show "keeps_rollback_ready p p'"
  proof (elim disjE exE conjE)
    assume "p' = p"
    then show ?thesis by (simp add: keeps_rollback_ready_def)
  next
    fix c v
    assume "p' = emit (Observer c v) p"
    then show ?thesis by (simp add: keeps_rollback_ready_def rollback_ready_def emit_def)
  next
    fix q
    assume q: "q = p"
      and k: "(case start_engine_loop e False 0 q of
                 (start_result, start_retry_count, q1) \<Rightarrow>
                   if start_result then Some (0::int, q1\<lparr>configuration_observer := True\<rparr>)
                   else Some (0, emit DebugAudioEngine q1)) = Some (r, p')"
    from start_engine_rest [OF k] q show ?thesis
      by (simp add: keeps_rollback_ready_def)
  next
    fix q c
    assume q: "q = emit (Observer c 0) p"
      and k: "(case start_engine_loop e False 0 q of
                 (start_result, start_retry_count, q1) \<Rightarrow>
                   if start_result then Some (0::int, q1\<lparr>configuration_observer := True\<rparr>)
                   else Some (0, emit DebugAudioEngine q1)) = Some (r, p')"
    from start_engine_rest [OF k] have "rollback_ready p' = rollback_ready q" by blast
    with q show ?thesis
      by (simp add: keeps_rollback_ready_def rollback_ready_def emit_def)
  qed
qed

lemmas device_early_same_buffers =
  same_buffers_step_stop_engine same_buffers_step_release_for_recreate
  same_buffers_step_create_engine

lemmas manual_early_same_buffers =
  same_buffers_manual_stop_engine same_buffers_manual_create_engine

lemmas late_steps =
  late_step_stop_playout_buffer late_step_stop_recording_buffer late_step_will_enable
  late_step_configure_voice_processing late_step_enable_output late_step_enable_input
  late_step_did_disable late_step_mute_voice_processing late_step_mute_input_mixer
  late_step_configure_ducking late_step_bypass_voice_processing late_step_configure_agc
  late_step_configure_device late_step_start_playout_buffer late_step_start_recording_buffer
  late_step_start_engine late_step_release_engine
  late_manual_enable_output late_manual_enable_input late_manual_start_engine
  late_manual_release_engine

lemmas rollback_ready_steps =
  rollback_ready_step_stop_engine rollback_ready_step_release_for_recreate
  rollback_ready_step_create_engine rollback_ready_step_stop_playout_buffer
  rollback_ready_step_stop_recording_buffer rollback_ready_step_will_enable
  rollback_ready_step_configure_voice_processing rollback_ready_step_enable_output
  rollback_ready_step_enable_input rollback_ready_step_did_disable
  rollback_ready_step_mute_voice_processing rollback_ready_step_mute_input_mixer
  rollback_ready_step_configure_ducking rollback_ready_step_bypass_voice_processing
  rollback_ready_step_configure_agc rollback_ready_step_configure_device
  rollback_ready_step_start_playout_buffer rollback_ready_step_start_recording_buffer
  rollback_ready_step_start_engine rollback_ready_step_release_engine

lemma early_then_late:
  assumes early: "step_keeps same_buffers (run_steps es)"
    and ok: "step_ok dev (run_steps es)"
    and late: "step_keeps no_early_rejection (run_steps ls)"
    and run: "run_steps (es @ ls) p = Some (r, p')"
    and tr: "trace p' = trace p @ evs" and rej: "rejected_early evs"
  shows "same_buffers p p'"
proof -
  from run obtain r1 p1 where r1: "run_steps es p = Some (r1, p1)"
    by (auto simp: run_steps_append split: option.splits)
  from step_keepsD [OF early r1] have sb: "same_buffers p p1" .
  show ?thesis
  proof (cases "r1 = 0")
    case False
    with run r1 have "p' = p1" by (simp add: run_steps_append)
    with sb show ?thesis by simp
  next
    case True
    with run r1 have r2: "run_steps ls p1 = Some (r, p')" by (simp add: run_steps_append)
    from step_okD [OF ok r1] True obtain evs1 where
      e1: "trace p1 = trace p @ evs1" "rejections evs1 = []" by (auto simp: good_def)
    from step_keepsD [OF late r2] obtain evs2 where
      e2: "trace p' = trace p1 @ evs2" "\<not> rejected_early evs2"
      by (auto simp: no_early_rejection_def)
    from e1 e2 tr have "evs = evs1 @ evs2" by simp
    with e1 e2 rej show ?thesis by (auto dest: no_rejections_not_early)
  qed
qed

lemma device_steps_split:
  "device_steps e state =
     [step_stop_engine e state, step_release_for_recreate e state, step_create_engine e state] @
     [step_stop_playout_buffer state, step_stop_recording_buffer state,
      step_will_enable e state, step_configure_voice_processing e state,
      step_enable_output e state, step_enable_input e state, step_did_disable e state,
      step_mute_voice_processing state, step_mute_input_mixer state,
      step_configure_ducking e state, step_bypass_voice_processing state,
      step_configure_agc state, step_configure_device e state,
      step_start_playout_buffer state, step_start_recording_buffer state,
      step_start_engine e state, step_release_engine e state]"
  by (simp add: device_steps_def)

lemma manual_steps_split:
  "manual_steps e state =
     [manual_stop_engine e state, manual_create_engine e state] @
     [step_stop_playout_buffer state, step_stop_recording_buffer state,
      step_will_enable e state, manual_enable_output state, manual_enable_input e state,
      step_did_disable e state, step_start_playout_buffer state,
      step_start_recording_buffer state, manual_start_engine e state,
      manual_release_engine e state]"
  by (simp add: manual_steps_def)

lemma rollback_fold:
  "engine_device (fold run_rollback_action acts p) =
     (if acts = [] then engine_device p else None) \<and>
   buffer_playing (fold run_rollback_action acts p) = buffer_playing p \<and>
   buffer_recording (fold run_rollback_action acts p) = buffer_recording p"
proof (induction acts arbitrary: p)
  case Nil
  show ?case by simp
next
  case (Cons a acts)
  show ?case by (cases a) (simp add: Cons.IH)
qed

lemma rollback_same_buffers: "same_buffers p (rollback p)"
  by (simp add: same_buffers_def rollback_def rollback_fold)

lemma rollback_ready_rollback: "rollback_ready p \<Longrightarrow> engine_device (rollback p) = None"
  by (auto simp: rollback_ready_def rollback_def rollback_fold)

lemma ApplyDeviceEngineState_early:
  assumes run: "ApplyDeviceEngineState e state p = Some (r, p')"
    and tr: "trace p' = trace p @ evs" and rej: "rejected_early evs"
  shows "same_buffers p p'"
proof -
  let ?q = "emit (ApplyDevice state) (p\<lparr>rollback_actions := []\<rparr>)"
  from run obtain q1 where
    steps: "run_steps (device_steps e state) ?q = Some (r, q1)" and
    p': "p' = (if r \<noteq> 0 then (rollback q1)\<lparr>rollback_actions := []\<rparr>
               else q1\<lparr>rollback_actions := []\<rparr>)"
    by (auto simp: ApplyDeviceEngineState_def split: option.splits if_splits)
  have trq: "trace p' = trace q1"
    using p' by (simp add: rollback_trace)
  from step_okD [OF device_steps_ok steps] obtain evs1 where
    e1: "trace q1 = trace ?q @ evs1" by blast
  with trq tr have evs: "evs = ApplyDevice state # evs1" by (simp add: emit_def)
  with rej have rej1: "rejected_early evs1" by simp
  have early: "step_keeps same_buffers
      (run_steps [step_stop_engine e state, step_release_for_recreate e state,
                  step_create_engine e state])"
    by (rule step_keeps_run_steps [OF same_buffers_refl same_buffers_trans])
      (auto intro: device_early_same_buffers)
  have ok: "step_ok True
      (run_steps [step_stop_engine e state, step_release_for_recreate e state,
                  step_create_engine e state])"
    by (rule step_ok_run_steps) (auto intro: device_step_oks)
  have late: "step_keeps no_early_rejection
      (run_steps [step_stop_playout_buffer state, step_stop_recording_buffer state,
      step_will_enable e state, step_configure_voice_processing e state,
      step_enable_output e state, step_enable_input e state, step_did_disable e state,
      step_mute_voice_processing state, step_mute_input_mixer state,
      step_configure_ducking e state, step_bypass_voice_processing state,
      step_configure_agc state, step_configure_device e state,
      step_start_playout_buffer state, step_start_recording_buffer state,
      step_start_engine e state, step_release_engine e state])"
    by (rule step_keeps_run_steps [OF no_early_rejection_refl no_early_rejection_trans])
      (auto intro: late_steps)
  from early_then_late [OF early ok late steps [unfolded device_steps_split] e1 rej1]
  have "same_buffers ?q q1" .
  moreover have "same_buffers q1 p'"
    using p' rollback_same_buffers [of q1] by (auto simp: same_buffers_def)
  ultimately show ?thesis by (simp add: same_buffers_def emit_def)
qed

lemma ApplyManualEngineState_early:
  assumes run: "ApplyManualEngineState e state p = Some (r, p')"
    and tr: "trace p' = trace p @ evs" and rej: "rejected_early evs"
  shows "same_buffers p p'"
proof -
  let ?q = "emit (ApplyManual state) p"
  from run have steps: "run_steps (manual_steps e state) ?q = Some (r, p')"
    by (simp add: ApplyManualEngineState_def)
  from step_okD [OF manual_steps_ok steps] obtain evs1 where
    e1: "trace p' = trace ?q @ evs1" by blast
  with tr have evs: "evs = ApplyManual state # evs1" by (simp add: emit_def)
  with rej have rej1: "rejected_early evs1" by simp
  have early: "step_keeps same_buffers
      (run_steps [manual_stop_engine e state, manual_create_engine e state])"
    by (rule step_keeps_run_steps [OF same_buffers_refl same_buffers_trans])
      (auto intro: manual_early_same_buffers)
  have ok: "step_ok False
      (run_steps [manual_stop_engine e state, manual_create_engine e state])"
    by (rule step_ok_run_steps) (auto intro: manual_step_oks)
  have late: "step_keeps no_early_rejection
      (run_steps [step_stop_playout_buffer state, step_stop_recording_buffer state,
      step_will_enable e state, manual_enable_output state, manual_enable_input e state,
      step_did_disable e state, step_start_playout_buffer state,
      step_start_recording_buffer state, manual_start_engine e state,
      manual_release_engine e state])"
    by (rule step_keeps_run_steps [OF no_early_rejection_refl no_early_rejection_trans])
      (auto intro: late_steps)
  from early_then_late [OF early ok late steps [unfolded manual_steps_split] e1 rej1]
  have "same_buffers ?q p'" .
  then show ?thesis by (simp add: same_buffers_def emit_def)
qed

lemma ApplyDeviceEngineState_rollback:
  assumes run: "ApplyDeviceEngineState e state p = Some (r, p')"
    and r: "r \<noteq> 0" and none: "engine_device p = None"
  shows "engine_device p' = None"
proof -
  let ?q = "emit (ApplyDevice state) (p\<lparr>rollback_actions := []\<rparr>)"
  from run r obtain q1 where
    steps: "run_steps (device_steps e state) ?q = Some (r, q1)" and
    p': "p' = (rollback q1)\<lparr>rollback_actions := []\<rparr>"
    by (auto simp: ApplyDeviceEngineState_def split: option.splits if_splits)
  have "step_keeps keeps_rollback_ready (run_steps (device_steps e state))"
    by (rule step_keeps_run_steps [OF keeps_rollback_ready_refl keeps_rollback_ready_trans])
      (auto simp: device_steps_def intro: rollback_ready_steps)
  from step_keepsD [OF this steps] none have "rollback_ready q1"
    by (simp add: keeps_rollback_ready_def rollback_ready_def emit_def)
  from rollback_ready_rollback [OF this] p' show ?thesis by simp
qed

lemma dispatch_same_mode:
  assumes "dispatch e state p = Some (r1, r2, p')"
    and "render_mode (next state) = render_mode (prev state)"
  shows "(render_mode (next state) = Device \<and>
            ApplyDeviceEngineState e state p = Some (r1, p') \<and> r2 = 0) \<or>
         (render_mode (next state) = Manual \<and>
            ApplyManualEngineState e state p = Some (r2, p') \<and> r1 = 0)"
  using assms
  by (cases "render_mode (next state)")
    (auto simp: dispatch_def DidEnableManualRenderingMode_def DidEnableDeviceRenderingMode_def
      split: option.splits)

text \<open>
  Claim C2, as amended. Whenever \<open>ModifyEngineState\<close> returns from a call during which
  some observer callback returned a non-zero value, it returns the value of the first
  callback that did so, that value is not 0, and the committed state is the state
  committed before the call. When the transition stays in its render mode, so that one
  applier runs, three more things hold. That callback is the only one that returned a
  non-zero value, so the call returns exactly that value. If the callback is
  \<^verbatim>\<open>OnEngineDidStop\<close> or \<^verbatim>\<open>OnEngineDidCreate\<close>, which are made before any buffer call,
  the playing and recording flags of the buffer are what they were before the call. And in
  device mode the rollback list, which records the creation of the engine and nothing
  else, has been unwound: a call entered without a device engine leaves none behind.
\<close>

theorem first_rejection_returned:
  assumes "ModifyEngineState e f d = Some (res, d')"
    and "rejections (new_events d d') \<noteq> []"
  shows "res = hd (rejections (new_events d d')) \<and> res \<noteq> 0 \<and>
         engine_state d' = engine_state d \<and>
         (render_mode (f (engine_state d)) = render_mode (engine_state d) \<longrightarrow>
            rejections (new_events d d') = [res] \<and>
            (rejected_early (new_events d d') \<longrightarrow>
               buffer_playing (plat d') = buffer_playing (plat d) \<and>
               buffer_recording (plat d') = buffer_recording (plat d)) \<and>
            (render_mode (engine_state d) = Device \<and> engine_device (plat d) = None \<longrightarrow>
               engine_device (plat d') = None))"
proof -
  let ?state = "\<lparr>prev = engine_state d, next = f (engine_state d)\<rparr>"
  from ModifyEngineState_cases [OF assms(1)] assms(2)
  obtain r1 r2 p' where
    disp: "dispatch e ?state (plat d) = Some (r1, r2, p')" and
    res: "res = (if r1 \<noteq> 0 then r1 else r2)" and p': "plat d' = p'" and
    st: "engine_state d' = (if res = 0 then f (engine_state d) else engine_state d)"
    by (auto simp: new_events_def)
  from dispatch_trace [OF disp] obtain evs where
    evs: "trace p' = trace (plat d) @ evs" "run_ok ?state r1 r2 evs" by blast
  from evs(1) p' have ne: "new_events d d' = evs" by (simp add: new_events_def)
  from run_ok_first_rejection [OF evs(2)] assms(2) ne res st
  have first: "res = hd (rejections (new_events d d')) \<and> res \<noteq> 0 \<and>
               engine_state d' = engine_state d" by simp
  have same: "rejections (new_events d d') = [res] \<and>
            (rejected_early (new_events d d') \<longrightarrow>
               buffer_playing (plat d') = buffer_playing (plat d) \<and>
               buffer_recording (plat d') = buffer_recording (plat d)) \<and>
            (render_mode (engine_state d) = Device \<and> engine_device (plat d) = None \<longrightarrow>
               engine_device (plat d') = None)"
    if mode: "render_mode (f (engine_state d)) = render_mode (engine_state d)"
  proof -
    from dispatch_same_mode [OF disp] mode
    consider
      (device) "render_mode (f (engine_state d)) = Device"
        "ApplyDeviceEngineState e ?state (plat d) = Some (r1, p')" "r2 = 0"
    | (manual) "render_mode (f (engine_state d)) = Manual"
        "ApplyManualEngineState e ?state (plat d) = Some (r2, p')" "r1 = 0"
      by auto
    then show ?thesis
    proof cases
      case device
      from ApplyDeviceEngineState_trace [OF device(2)] evs(1) obtain evs1 where
        e1: "evs = ApplyDevice ?state # evs1" and g: "good (IsAnyEnabled (next ?state)) r1 evs1"
        by auto
      from assms(2) ne e1 have "rejections evs1 \<noteq> []" by simp
      from good_first_rejection [OF g this] have r1: "rejections evs1 = [r1]" "r1 \<noteq> 0" by auto
      with res have "res = r1" by simp
      with r1 e1 ne have one: "rejections (new_events d d') = [res]" by simp
      have buf: "rejected_early (new_events d d') \<longrightarrow>
               buffer_playing (plat d') = buffer_playing (plat d) \<and>
               buffer_recording (plat d') = buffer_recording (plat d)"
        using ApplyDeviceEngineState_early [OF device(2) evs(1)] ne p'
        by (auto simp: same_buffers_def)
      have rb: "render_mode (engine_state d) = Device \<and> engine_device (plat d) = None \<longrightarrow>
               engine_device (plat d') = None"
        using ApplyDeviceEngineState_rollback [OF device(2) r1(2)] p' by simp
      from one buf rb show ?thesis by blast
    next
      case manual
      from ApplyManualEngineState_trace [OF manual(2)] evs(1) obtain evs2 where
        e2: "evs = ApplyManual ?state # evs2" and g: "good False r2 evs2"
        by auto
      from assms(2) ne e2 have "rejections evs2 \<noteq> []" by simp
      from good_first_rejection [OF g this] have r2: "rejections evs2 = [r2]" "r2 \<noteq> 0" by auto
      with res manual(3) have "res = r2" by simp
      with r2 e2 ne have one: "rejections (new_events d d') = [res]" by simp
      have buf: "rejected_early (new_events d d') \<longrightarrow>
               buffer_playing (plat d') = buffer_playing (plat d) \<and>
               buffer_recording (plat d') = buffer_recording (plat d)"
        using ApplyManualEngineState_early [OF manual(2) evs(1)] ne p'
        by (auto simp: same_buffers_def)
      have rb: "render_mode (engine_state d) = Device \<and> engine_device (plat d) = None \<longrightarrow>
               engine_device (plat d') = None"
        using manual(1) mode by simp
      from one buf rb show ?thesis by blast
    qed
  qed
  from first same show ?thesis by blast
qed

text \<open>
  In a render-mode switch the first applier is entered with the committed state as
  \<open>prev\<close> and the default state as \<open>next\<close>; the second applier is entered with the
  unmodified diff, so its \<open>prev\<close> half is the committed state as well.
\<close>

lemma mode_switch_applier_calls:
  assumes "ModifyEngineState e f d = Some (res, d')"
    and "f (engine_state d) \<noteq> engine_state d"
    and "\<not> (input_running (f (engine_state d)) \<and> \<not> input_enabled (f (engine_state d)))"
    and "\<not> (output_running (f (engine_state d)) \<and> \<not> output_enabled (f (engine_state d)))"
  shows "(render_mode (engine_state d) = Device \<and> render_mode (f (engine_state d)) = Manual \<longrightarrow>
            applier_calls (new_events d d') =
              [ApplyDevice \<lparr>prev = engine_state d, next = default_EngineState\<rparr>,
               ApplyManual \<lparr>prev = engine_state d, next = f (engine_state d)\<rparr>]) \<and>
         (render_mode (engine_state d) = Manual \<and> render_mode (f (engine_state d)) = Device \<longrightarrow>
            applier_calls (new_events d d') =
              [ApplyManual \<lparr>prev = engine_state d, next = default_EngineState\<rparr>,
               ApplyDevice \<lparr>prev = engine_state d, next = f (engine_state d)\<rparr>])"
proof -
  from ModifyEngineState_cases [OF assms(1)] assms(2-4)
  obtain r1 r2 p' where
    disp: "dispatch e \<lparr>prev = engine_state d, next = f (engine_state d)\<rparr> (plat d)
             = Some (r1, r2, p')" and p': "plat d' = p'"
    by blast
  from dispatch_trace [OF disp] obtain evs where
    evs: "trace p' = trace (plat d) @ evs"
         "run_ok \<lparr>prev = engine_state d, next = f (engine_state d)\<rparr> r1 r2 evs" by blast
  from evs(1) p' have ne: "new_events d d' = evs" by (simp add: new_events_def)
  show ?thesis
    using evs(2) unfolding ne
    by (auto simp: run_ok_def DidEnableManualRenderingMode_def DidEnableDeviceRenderingMode_def
        good_def split: if_splits)
qed

section \<open>The driver: no-op, rejection, commit\<close>

lemma ModifyEngineState_success:
  assumes "ModifyEngineState e f d = Some (0, d')"
  shows "engine_state d' = f (engine_state d)"
  using assms
  by (auto simp: ModifyEngineState_def HasNoChanges_def EngineState_eq_iff Let_def
      split: if_splits option.splits prod.splits)

lemma ModifyEngineState_failure:
  assumes "ModifyEngineState e f d = Some (r, d')" and "r \<noteq> 0"
  shows "engine_state d' = engine_state d"
  using assms
  by (auto simp: ModifyEngineState_def HasNoChanges_def EngineState_eq_iff Let_def
      split: if_splits option.splits prod.splits)

text \<open>
  Claim C4. When the requested state differs from the committed one and has a side
  running that is not enabled, \<open>ModifyEngineState\<close> returns the error -1 and leaves the
  whole device as it was: committed state, buffer flags, engine objects and trace (so
  no applier ran and no observer callback fired).
\<close>

theorem invalid_state_rejected:
  assumes "state_transform (engine_state d) \<noteq> engine_state d"
    and "(input_running (state_transform (engine_state d)) \<and>
          \<not> input_enabled (state_transform (engine_state d))) \<or>
         (output_running (state_transform (engine_state d)) \<and>
          \<not> output_enabled (state_transform (engine_state d)))"
  shows "ModifyEngineState e state_transform d = Some (- 1, d)"
  using assms
  by (auto simp: ModifyEngineState_def HasNoChanges_def EngineState_eq_iff Let_def)

theorem invalid_state_rejected_witness:
  "StartPlayout example_env (AudioEngineDevice False) = Some (- 1, AudioEngineDevice False) \<and>
   StartRecording example_env playout_initialised = Some (- 1, playout_initialised)"
  using invalid_state_rejected
      [of "\<lambda>state. state\<lparr>output_running := True\<rparr>" "AudioEngineDevice False" example_env]
    invalid_state_rejected
      [of "\<lambda>state. state\<lparr>input_running := True, input_muted := False\<rparr>"
          playout_initialised example_env]
  by (simp add: StartPlayout_def StartRecording_def AudioEngineDevice_def
      default_EngineState_def playout_initialised_def)

text \<open>
  Claim C6. When the transform returns a state equal, field by field, to the committed
  one, \<open>ModifyEngineState\<close> returns 0 at once and the device is unchanged: no applier
  runs, no callback fires, the buffer flags and any engine object stay. In particular
  setting the committed state again is a no-op.
\<close>

theorem no_changes_is_noop:
  "(state_transform (engine_state d) = engine_state d \<longrightarrow>
      ModifyEngineState e state_transform d = Some (0, d)) \<and>
   SetEngineState e (engine_state d) d = Some (0, d)"
  by (simp add: ModifyEngineState_def SetEngineState_def HasNoChanges_def EngineState_eq_iff)

theorem no_changes_is_noop_witness:
  "InitPlayout example_env playout_initialised = Some (0, playout_initialised) \<and>
   SetEngineState example_env (engine_state playout_initialised) playout_initialised =
     Some (0, playout_initialised)"
  using no_changes_is_noop
      [of "\<lambda>state. state\<lparr>output_enabled := True\<rparr>" playout_initialised example_env]
  by (simp add: InitPlayout_def playout_initialised_def)

text \<open>
  Claim C10. \<open>input_muted\<close> is true in a freshly constructed state, and whenever
  \<open>StartRecording\<close> or \<open>InitAndStartRecording\<close> returns 0 the committed state has
  \<open>input_muted = False\<close>, whatever it was before: starting recording unmutes.
\<close>

theorem start_recording_unmutes:
  "input_muted default_EngineState \<and>
   (StartRecording e d = Some (0, d') \<longrightarrow> \<not> input_muted (engine_state d')) \<and>
   (InitAndStartRecording e d = Some (0, d') \<longrightarrow> \<not> input_muted (engine_state d'))"
  by (auto simp: StartRecording_def InitAndStartRecording_def default_EngineState_def
      dest!: ModifyEngineState_success)

lemma recording_runs:
  "\<exists>d d' d''. InitRecording example_env (AudioEngineDevice False) = Some (0, d) \<and>
     input_muted (engine_state d) \<and> StartRecording example_env d = Some (0, d') \<and>
     InitAndStartRecording example_env (AudioEngineDevice False) = Some (0, d'')"
  by (simp add: InitRecording_def StartRecording_def InitAndStartRecording_def
      predicate_defs step_defs run_defs reading_defs)

theorem start_recording_unmutes_witness:
  "\<exists>d d' d''. InitRecording example_env (AudioEngineDevice False) = Some (0, d) \<and>
     input_muted (engine_state d) \<and>
     StartRecording example_env d = Some (0, d') \<and> \<not> input_muted (engine_state d') \<and>
     input_muted (engine_state (AudioEngineDevice False)) \<and>
     InitAndStartRecording example_env (AudioEngineDevice False) = Some (0, d'') \<and>
     \<not> input_muted (engine_state d'')"
proof -
  obtain d d' d'' where
    init: "InitRecording example_env (AudioEngineDevice False) = Some (0, d)" and
    muted: "input_muted (engine_state d)" and
    start: "StartRecording example_env d = Some (0, d')" and
    both: "InitAndStartRecording example_env (AudioEngineDevice False) = Some (0, d'')"
    using recording_runs by blast
  have "\<not> input_muted (engine_state d')"
    using start_recording_unmutes [of example_env d d'] start by simp
  moreover have "\<not> input_muted (engine_state d'')"
    using start_recording_unmutes [of example_env "AudioEngineDevice False" d''] both
    by simp
  moreover have "input_muted (engine_state (AudioEngineDevice False))"
    by (simp add: AudioEngineDevice_def default_EngineState_def)
  ultimately show ?thesis
    using init muted start both by blast
qed

section \<open>Render-mode switches and rejected transitions, run on the fixtures\<close>

text \<open>
  Claim C1. The claim asks that on a switch to manual rendering the manual-mode applier
  be entered with the default state as \<open>prev\<close>. Run on a device whose output is
  enabled in device mode, \<open>SetManualRenderingMode True\<close> enters the device-mode applier
  with \<open>next\<close> = default, as claimed, but enters the manual-mode applier with the
  committed state (not the default state) as \<open>prev\<close>; the manual applier then sees
  nothing newly enabled and never creates the manual engine, although the call
  returns 0.
\<close>

theorem manual_switch_startup_sees_committed_prev:
  "result_code (SetManualRenderingMode example_env True playout_initialised) = Some 0 \<and>
   applier_calls (result_trace (SetManualRenderingMode example_env True playout_initialised)) =
     [ApplyDevice \<lparr>prev = default_EngineState, next = engine_state playout_initialised\<rparr>,
      ApplyDevice \<lparr>prev = engine_state playout_initialised, next = default_EngineState\<rparr>,
      ApplyManual \<lparr>prev = engine_state playout_initialised,
                   next = (engine_state playout_initialised)\<lparr>render_mode := Manual\<rparr>\<rparr>] \<and>
   engine_state playout_initialised \<noteq> default_EngineState \<and>
   map_option (engine_manual_input \<circ> plat)
     (result_device (SetManualRenderingMode example_env True playout_initialised)) = Some None"
  by (simp add: SetManualRenderingMode_def predicate_defs step_defs run_defs reading_defs)

text \<open>
  Claim C2 as stated fails at three inputs. With the observer of \<open>rejecting_env\<close>
  registered on the device \<open>playout_initialised\<close>, \<open>StopPlayout\<close> is rejected by
  \<^verbatim>\<open>OnEngineDidDisable\<close> with -42 after the playout buffer has been stopped: the
  committed state still has output enabled while the buffer no longer plays. A switch
  to manual rendering that also enables input sees two rejections, -42 and then -43, and
  returns -42, not -43. And on \<open>playout_running\<close>, with an observer that rejects
  \<^verbatim>\<open>OnEngineDidStop\<close>, a switch to manual rendering that stops playout is rejected
  with -42 in the device applier, which the call runs first, and then does not return at
  all: it ends in a call through the null \<^verbatim>\<open>render_thread\<close>.
\<close>

theorem rollback_atomicity_counterexample:
  "result_code (StopPlayout rejecting_env playout_initialised) = Some (- 42) \<and>
   rejections (result_trace (StopPlayout rejecting_env playout_initialised)) = [- 42] \<and>
   map_option (IsOutputEnabled \<circ> engine_state)
     (result_device (StopPlayout rejecting_env playout_initialised)) = Some True \<and>
   map_option (buffer_playing \<circ> plat)
     (result_device (StopPlayout rejecting_env playout_initialised)) = Some False \<and>
   result_code (SetEngineState rejecting_env
       ((engine_state playout_initialised)\<lparr>render_mode := Manual, input_enabled := True\<rparr>)
       playout_initialised) = Some (- 42) \<and>
   rejections (result_trace (SetEngineState rejecting_env
       ((engine_state playout_initialised)\<lparr>render_mode := Manual, input_enabled := True\<rparr>)
       playout_initialised)) = [- 42, - 43] \<and>
   map_option fst
     (ApplyDeviceEngineState early_rejecting_env
        \<lparr>prev = engine_state playout_running, next = default_EngineState\<rparr>
        (plat playout_running)) = Some (- 42) \<and>
   map_option (rejections \<circ> trace \<circ> snd)
     (ApplyDeviceEngineState early_rejecting_env
        \<lparr>prev = engine_state playout_running, next = default_EngineState\<rparr>
        (plat playout_running)) = Some [- 42] \<and>
   SetEngineState early_rejecting_env
       ((engine_state playout_running)\<lparr>render_mode := Manual, output_running := False\<rparr>)
       playout_running = None"
  by (simp add: StopPlayout_def SetEngineState_def early_rejecting_env_def playout_running_def
      start_playout_update_def predicate_defs step_defs run_defs reading_defs)

lemma stop_playout_rejected_early:
  "\<exists>d'. StopPlayout early_rejecting_env playout_running = Some (- 42, d') \<and>
     new_events playout_running d' =
       [ApplyDevice \<lparr>prev = engine_state playout_running,
                     next = (engine_state playout_running)
                              \<lparr>output_enabled := False, output_running := False\<rparr>\<rparr>,
        EngineStop, Observer (OnEngineDidStop False False) (- 42)]"
  by (simp add: StopPlayout_def early_rejecting_env_def playout_running_def
      start_playout_update_def predicate_defs step_defs run_defs reading_defs)

lemma init_playout_rejected_early:
  "\<exists>d'. InitPlayout early_rejecting_env (AudioEngineDevice False) = Some (- 44, d') \<and>
     new_events (AudioEngineDevice False) d' =
       [ApplyDevice \<lparr>prev = default_EngineState,
                     next = default_EngineState\<lparr>output_enabled := True\<rparr>\<rparr>,
        Observer OnEngineDidCreate (- 44)]"
  by (simp add: InitPlayout_def early_rejecting_env_def
      predicate_defs step_defs run_defs reading_defs)

text \<open>
  Two rejected calls that stay in device mode. \<open>StopPlayout\<close> on \<open>playout_running\<close>
  is rejected by \<^verbatim>\<open>OnEngineDidStop\<close>: output is still enabled and the buffer still plays.
  \<open>InitPlayout\<close> on a fresh object is rejected by \<^verbatim>\<open>OnEngineDidCreate\<close>: the engine
  the call created is gone again and the buffer was never started.
\<close>

theorem first_rejection_returned_witness:
  "(\<exists>d'. StopPlayout early_rejecting_env playout_running = Some (- 42, d') \<and>
      rejections (new_events playout_running d') = [- 42] \<and>
      engine_state d' = engine_state playout_running \<and>
      IsOutputEnabled (engine_state d') \<and>
      buffer_playing (plat d') \<and> \<not> buffer_recording (plat d')) \<and>
   (\<exists>d'. InitPlayout early_rejecting_env (AudioEngineDevice False) = Some (- 44, d') \<and>
      rejections (new_events (AudioEngineDevice False) d') = [- 44] \<and>
      engine_state d' = engine_state (AudioEngineDevice False) \<and>
      engine_device (plat d') = None \<and>
      \<not> buffer_playing (plat d') \<and> \<not> buffer_recording (plat d'))"
proof (intro conjI)
  obtain d' where
    run: "StopPlayout early_rejecting_env playout_running = Some (- 42, d')" and
    evs: "new_events playout_running d' =
       [ApplyDevice \<lparr>prev = engine_state playout_running,
                     next = (engine_state playout_running)
                              \<lparr>output_enabled := False, output_running := False\<rparr>\<rparr>,
        EngineStop, Observer (OnEngineDidStop False False) (- 42)]"
    using stop_playout_rejected_early by blast
  have ne: "rejections (new_events playout_running d') \<noteq> []"
    and early: "rejected_early (new_events playout_running d')"
    by (simp_all add: evs rejections_def)
  have mode: "render_mode ((engine_state playout_running)
                \<lparr>output_enabled := False, output_running := False\<rparr>)
              = render_mode (engine_state playout_running)" by simp
  have before: "buffer_playing (plat playout_running)" "\<not> buffer_recording (plat playout_running)"
    "IsOutputEnabled (engine_state playout_running)"
    by (simp_all add: playout_running_def playout_initialised_def new_platform_def
        IsOutputEnabled_def default_EngineState_def)
  from first_rejection_returned [OF run [unfolded StopPlayout_def] ne] mode early before run
  show "\<exists>d'. StopPlayout early_rejecting_env playout_running = Some (- 42, d') \<and>
      rejections (new_events playout_running d') = [- 42] \<and>
      engine_state d' = engine_state playout_running \<and>
      IsOutputEnabled (engine_state d') \<and>
      buffer_playing (plat d') \<and> \<not> buffer_recording (plat d')"
    by (intro exI [of _ d']) simp
next
  let ?d = "AudioEngineDevice False"
  obtain d' where
    run: "InitPlayout early_rejecting_env ?d = Some (- 44, d')" and
    evs: "new_events ?d d' =
       [ApplyDevice \<lparr>prev = default_EngineState,
                     next = default_EngineState\<lparr>output_enabled := True\<rparr>\<rparr>,
        Observer OnEngineDidCreate (- 44)]"
    using init_playout_rejected_early by blast
  have ne: "rejections (new_events ?d d') \<noteq> []"
    and early: "rejected_early (new_events ?d d')"
    by (simp_all add: evs rejections_def)
  have mode: "render_mode ((engine_state ?d)\<lparr>output_enabled := True\<rparr>)
              = render_mode (engine_state ?d)" by simp
  have before: "\<not> buffer_playing (plat ?d)" "\<not> buffer_recording (plat ?d)"
    "render_mode (engine_state ?d) = Device" "engine_device (plat ?d) = None"
    by (simp_all add: AudioEngineDevice_def new_platform_def default_EngineState_def)
  from first_rejection_returned [OF run [unfolded InitPlayout_def] ne] mode early before run
  show "\<exists>d'. InitPlayout early_rejecting_env ?d = Some (- 44, d') \<and>
      rejections (new_events ?d d') = [- 44] \<and>
      engine_state d' = engine_state ?d \<and>
      engine_device (plat d') = None \<and>
      \<not> buffer_playing (plat d') \<and> \<not> buffer_recording (plat d')"
    by (intro exI [of _ d']) simp
qed

text \<open>
  In a render-mode switch the work of the first applier is not undone when the second one
  is rejected. A device that records in manual mode is switched to device mode with
  recording stopped; the manual applier shuts down and stops the buffer, then the device
  applier is rejected by \<^verbatim>\<open>OnEngineDidStop\<close>. The committed state still says manual
  mode with a running input, and the buffer no longer records.
\<close>

lemma switch_rejected_after_shutdown:
  "\<exists>d d1 d2.
     SetManualRenderingMode example_env True (AudioEngineDevice False) = Some (0, d) \<and>
     InitAndStartRecording example_env d = Some (0, d1) \<and>
     buffer_recording (plat d1) \<and> IsInputEnabled (engine_state d1) \<and>
     SetEngineState second_stop_rejecting_env
       ((engine_state d1)\<lparr>render_mode := Device, input_running := False\<rparr>) d1
       = Some (- 42, d2) \<and>
     rejections (new_events d1 d2) = [- 42] \<and> rejected_early (new_events d1 d2) \<and>
     engine_state d2 = engine_state d1 \<and> \<not> buffer_recording (plat d2)"
  by (simp add: SetManualRenderingMode_def InitAndStartRecording_def SetEngineState_def
      second_stop_rejecting_env_def predicate_defs step_defs run_defs reading_defs)

section \<open>The start-engine retry loop\<close>

lemma start_attempt_events:
  "trace (snd (start_attempt e n p)) = trace p @ attempt_events e n (fst (start_attempt e n p))"
  by (simp add: start_attempt_def attempt_events_def emit_def emits_def upd_device_def Let_def)

lemma attempts_trace_step:
  "n < m \<Longrightarrow> attempts_trace e n m ok =
     attempt_events e n (ok \<and> Suc n = m) @ attempts_trace e (Suc n) m ok"
  by (simp add: attempts_trace_def upt_conv_Cons)

lemma attempts_trace_empty [simp]: "attempts_trace e n n ok = []"
  by (simp add: attempts_trace_def)

lemma start_engine_loop_attempts:
  "start_engine_loop e sr0 n p = (sr, n', p') \<Longrightarrow> \<not> sr0 \<Longrightarrow> n < kStartEngineMaxRetries \<Longrightarrow>
     \<exists>m. n < m \<and> m \<le> kStartEngineMaxRetries \<and>
         trace p' = trace p @ attempts_trace e n m sr \<and>
         (\<not> sr \<longrightarrow> m = kStartEngineMaxRetries)"
proof (induction e sr0 n p rule: start_engine_loop.induct)
  case (1 e start_result start_retry_count p)
  define a where "a = start_attempt e start_retry_count p"
  have go: "\<not> start_result \<and> start_retry_count < kStartEngineMaxRetries"
    using "1.prems" by simp
  have rec: "start_engine_loop e (fst a)
               (if fst a then start_retry_count else start_retry_count + 1) (snd a)
              = (sr, n', p')"
    using "1.prems"(1) go
    by (subst (asm) start_engine_loop.simps) (simp add: Let_def a_def)
  have tr_a: "trace (snd a) = trace p @ attempt_events e start_retry_count (fst a)"
    unfolding a_def by (rule start_attempt_events)
  show ?case
  proof (cases "fst a")
    case True
    with rec have "sr = True" "p' = snd a"
      by (subst (asm) start_engine_loop.simps, simp)+
    with tr_a True go show ?thesis
      by (intro exI [of _ "Suc start_retry_count"])
        (simp add: attempts_trace_step)
  next
    case False
    show ?thesis
    proof (cases "Suc start_retry_count < kStartEngineMaxRetries")
      case True
      from "1.IH" [OF go a_def] rec False True
      obtain m where m: "Suc start_retry_count < m" "m \<le> kStartEngineMaxRetries"
        "trace p' = trace (snd a) @ attempts_trace e (Suc start_retry_count) m sr"
        "\<not> sr \<longrightarrow> m = kStartEngineMaxRetries"
        by auto
      have "attempts_trace e start_retry_count m sr =
              attempt_events e start_retry_count False @
              attempts_trace e (Suc start_retry_count) m sr"
        using m(1) by (subst attempts_trace_step) auto
      with m tr_a False show ?thesis
        by (intro exI [of _ m]) simp
    next
      case last: False
      with go have eq: "Suc start_retry_count = kStartEngineMaxRetries" by simp
      with rec False have "sr = False" "p' = snd a"
        by (subst (asm) start_engine_loop.simps, simp)+
      with tr_a False go eq show ?thesis
        by (intro exI [of _ "kStartEngineMaxRetries"])
          (simp add: attempts_trace_step [of start_retry_count])
    qed
  qed
qed

lemma start_attempts_attempt_events [simp]: "start_attempts (attempt_events e i r) = 1"
  by (simp add: start_attempts_def attempt_events_def)

lemma start_attempts_append [simp]:
  "start_attempts (xs @ ys) = start_attempts xs + start_attempts ys"
  by (simp add: start_attempts_def)

lemma start_attempts_simps [simp]:
  "start_attempts [] = 0"
  "start_attempts (Observer c v # evs) = start_attempts evs"
  "start_attempts (DebugAudioEngine # evs) = start_attempts evs"
  by (simp_all add: start_attempts_def)

lemma start_attempts_attempts_trace: "start_attempts (attempts_trace e n m ok) = m - n"
proof (induction "m - n" arbitrary: n)
  case 0
  then show ?case by (simp add: attempts_trace_def start_attempts_def)
next
  case (Suc k)
  then have "n < m" by simp
  from Suc.hyps(1) [of "Suc n"] Suc.hyps(2) have "start_attempts (attempts_trace e (Suc n) m ok) = m - Suc n"
    by simp
  with \<open>n < m\<close> show ?case
    by (simp add: attempts_trace_step [of n m])
qed

lemma start_engine_step_trace:
  assumes "step_start_engine e state p = Some (r, p')"
  shows "kStartEngineMaxRetries = 10 \<and> kStartEngineRetryDelayMs * 1000 = 100000 \<and>
    (\<exists>obs m ok.
       trace p' = trace p @ obs @ attempts_trace e 0 m ok @
                    (if 0 < m \<and> \<not> ok then [DebugAudioEngine] else []) \<and>
       (obs = [] \<or> (\<exists>v. obs = [Observer (OnEngineWillStart (IsOutputEnabled (next state))
                                   (IsInputEnabled (next state))) v])) \<and>
       start_attempts (drop (length (trace p)) (trace p')) = m \<and>
       m \<le> kStartEngineMaxRetries \<and>
       (0 < m \<and> \<not> ok \<longrightarrow> m = kStartEngineMaxRetries) \<and>
       (r = 0 \<and> IsAnyRunning (next state) \<and>
        (\<not> IsAnyRunning (prev state) \<or> DidEndInterruption state \<or>
         IsEngineRestartRequired state \<or> IsEngineRecreateRequired state) \<longrightarrow> 0 < m))"
proof -
  let ?guard = "IsAnyRunning (next state) \<and>
         (\<not> IsAnyRunning (prev state) \<or> DidEndInterruption state \<or>
          IsEngineRestartRequired state \<or> IsEngineRecreateRequired state)"
  let ?c = "OnEngineWillStart (IsOutputEnabled (next state)) (IsInputEnabled (next state))"
  let ?P = "\<lambda>obs m ok.
       trace p' = trace p @ obs @ attempts_trace e 0 m ok @
                    (if 0 < m \<and> \<not> ok then [DebugAudioEngine] else []) \<and>
       (obs = [] \<or> (\<exists>v. obs = [Observer ?c v])) \<and>
       start_attempts (drop (length (trace p)) (trace p')) = m \<and>
       m \<le> kStartEngineMaxRetries \<and>
       (0 < m \<and> \<not> ok \<longrightarrow> m = kStartEngineMaxRetries) \<and>
       (r = 0 \<and> ?guard \<longrightarrow> 0 < m)"
  have loop: "\<exists>m ok. 0 < m \<and> m \<le> kStartEngineMaxRetries \<and> r = 0 \<and>
                trace p' = trace q @ attempts_trace e 0 m ok @
                    (if \<not> ok then [DebugAudioEngine] else []) \<and>
                (\<not> ok \<longrightarrow> m = kStartEngineMaxRetries)"
    if k: "(case start_engine_loop e False 0 q of
             (start_result, start_retry_count, q1) \<Rightarrow>
               if start_result then Some (0::int, q1\<lparr>configuration_observer := True\<rparr>)
               else Some (0, emit DebugAudioEngine q1)) = Some (r, p')" for q
  proof -
    obtain sr n q1 where l: "start_engine_loop e False 0 q = (sr, n, q1)"
      by (cases "start_engine_loop e False 0 q") auto
    from start_engine_loop_attempts [OF l] obtain m where
      m: "0 < m" "m \<le> kStartEngineMaxRetries" "trace q1 = trace q @ attempts_trace e 0 m sr"
         "\<not> sr \<longrightarrow> m = kStartEngineMaxRetries"
      by (auto simp: kStartEngineMaxRetries_def)
    from k l m show ?thesis
      by (intro exI [of _ m] exI [of _ sr]) (auto simp: emit_def split: if_splits)
  qed
  have "\<exists>obs m ok. ?P obs m ok"
  proof (cases ?guard)
    case False
    with assms have "r = 0" "p' = p" by (auto simp: step_start_engine_def)
    with False have "?P [] 0 False" by simp
    then show ?thesis by blast
  next
    case True
    show ?thesis
    proof (cases "observer e")
      case None
      with assms True have "(case start_engine_loop e False 0 p of
             (start_result, start_retry_count, q1) \<Rightarrow>
               if start_result then Some (0::int, q1\<lparr>configuration_observer := True\<rparr>)
               else Some (0, emit DebugAudioEngine q1)) = Some (r, p')"
        by (simp add: step_start_engine_def notify_def)
      from loop [OF this] obtain m ok where
        "0 < m" "m \<le> kStartEngineMaxRetries" "r = 0"
        "trace p' = trace p @ attempts_trace e 0 m ok @ (if \<not> ok then [DebugAudioEngine] else [])"
        "\<not> ok \<longrightarrow> m = kStartEngineMaxRetries" by blast
      then have "?P [] m ok"
        by (simp add: start_attempts_attempts_trace)
      then show ?thesis by blast
    next
      case (Some f)
      show ?thesis
      proof (cases "f (trace p) ?c = 0")
        case False
        with assms True Some have "r = f (trace p) ?c" "p' = emit (Observer ?c r) p"
          by (auto simp: step_start_engine_def notify_def Let_def)
        with False have "?P [Observer ?c r] 0 False"
          by (simp add: emit_def)
        then show ?thesis by blast
      next
        case zero: True
        with assms True Some have "(case start_engine_loop e False 0 (emit (Observer ?c 0) p) of
             (start_result, start_retry_count, q1) \<Rightarrow>
               if start_result then Some (0::int, q1\<lparr>configuration_observer := True\<rparr>)
               else Some (0, emit DebugAudioEngine q1)) = Some (r, p')"
          by (simp add: step_start_engine_def notify_def Let_def)
        from loop [OF this] obtain m ok where
          "0 < m" "m \<le> kStartEngineMaxRetries" "r = 0"
          "trace p' = trace (emit (Observer ?c 0) p) @ attempts_trace e 0 m ok @
              (if \<not> ok then [DebugAudioEngine] else [])"
          "\<not> ok \<longrightarrow> m = kStartEngineMaxRetries" by blast
        then have "?P [Observer ?c 0] m ok"
          by (simp add: start_attempts_attempts_trace emit_def)
        then show ?thesis by blast
      qed
    qed
  qed
  then show ?thesis
    by (simp add: kStartEngineMaxRetries_def kStartEngineRetryDelayMs_def)
qed

lemma all_starts_fail:
  "\<exists>p'. step_start_engine failing_start_env start_playout_update (plat playout_initialised)
          = Some (0, p') \<and>
     drop (length (trace (plat playout_initialised))) (trace p') =
       [EngineStart False, Usleep 100000, EngineStart False, Usleep 100000, EngineStart False,
        Usleep 100000, EngineStart False, Usleep 100000, EngineStart False,
        Usleep 100000, EngineStart False, Usleep 100000, EngineStart False,
        Usleep 100000, EngineStart False, Usleep 100000, EngineStart False,
        Usleep 100000, EngineStart False, DebugAudioEngine]"
  by (simp add: failing_start_env_def start_playout_update_def predicate_defs step_defs
      run_defs reading_defs)

lemma step_start_engine_returns: "\<exists>r p'. step_start_engine e state p = Some (r, p')"
proof -
  have k: "\<exists>r p'. (case start_engine_loop e False 0 q of
             (start_result, start_retry_count, q1) \<Rightarrow>
               if start_result then Some (0::int, q1\<lparr>configuration_observer := True\<rparr>)
               else Some (0, emit DebugAudioEngine q1)) = Some (r, p')" for q
    by (cases "start_engine_loop e False 0 q") auto
  show ?thesis
    using k [of p] k [of "emit (Observer (OnEngineWillStart (IsOutputEnabled (next state))
                                   (IsInputEnabled (next state))) 0) p"]
    by (auto simp: step_start_engine_def notify_def Let_def split: option.splits)
qed

text \<open>
  Claim C8. In the start-engine step of the device-mode applier the start is attempted
  at most \<^verbatim>\<open>kStartEngineMaxRetries\<close> = 10 times; the retry loop is a total function,
  so it always ends. Only a failed attempt is followed by another one, every attempt
  after the first is preceded by a sleep of 100 ms, and when the last attempt has
  failed too all ten were used and \<^verbatim>\<open>DebugAudioEngine\<close> is called.
\<close>

theorem start_engine_retry_limit:
  "kStartEngineMaxRetries = 10 \<and> kStartEngineRetryDelayMs * 1000 = 100000 \<and>
   (\<exists>r p' obs m ok.
      step_start_engine e state p = Some (r, p') \<and>
      trace p' = trace p @ obs @ attempts_trace e 0 m ok @
                   (if 0 < m \<and> \<not> ok then [DebugAudioEngine] else []) \<and>
      (obs = [] \<or> (\<exists>v. obs = [Observer (OnEngineWillStart (IsOutputEnabled (next state))
                                  (IsInputEnabled (next state))) v])) \<and>
      start_attempts (drop (length (trace p)) (trace p')) = m \<and>
      m \<le> kStartEngineMaxRetries \<and>
      (0 < m \<and> \<not> ok \<longrightarrow> m = kStartEngineMaxRetries) \<and>
      (r = 0 \<and> IsAnyRunning (next state) \<and>
       (\<not> IsAnyRunning (prev state) \<or> DidEndInterruption state \<or>
        IsEngineRestartRequired state \<or> IsEngineRecreateRequired state) \<longrightarrow> 0 < m))"
proof -
  obtain r p' where run: "step_start_engine e state p = Some (r, p')"
    using step_start_engine_returns by blast
  from start_engine_step_trace [OF run] run show ?thesis
    by (elim conjE exE) (intro conjI exI [of _ r] exI [of _ p'] exI, assumption+)
qed

theorem start_engine_retry_limit_witness:
  "\<exists>p'. step_start_engine failing_start_env start_playout_update (plat playout_initialised)
          = Some (0, p') \<and>
     drop (length (trace (plat playout_initialised))) (trace p') =
       [EngineStart False, Usleep 100000, EngineStart False, Usleep 100000, EngineStart False,
        Usleep 100000, EngineStart False, Usleep 100000, EngineStart False,
        Usleep 100000, EngineStart False, Usleep 100000, EngineStart False,
        Usleep 100000, EngineStart False, Usleep 100000, EngineStart False,
        Usleep 100000, EngineStart False, DebugAudioEngine] \<and>
     start_attempts (drop (length (trace (plat playout_initialised))) (trace p'))
       \<le> kStartEngineMaxRetries"
proof -
  obtain p' where
    run: "step_start_engine failing_start_env start_playout_update (plat playout_initialised)
            = Some (0, p')" and
    evs: "drop (length (trace (plat playout_initialised))) (trace p') =
       [EngineStart False, Usleep 100000, EngineStart False, Usleep 100000, EngineStart False,
        Usleep 100000, EngineStart False, Usleep 100000, EngineStart False,
        Usleep 100000, EngineStart False, Usleep 100000, EngineStart False,
        Usleep 100000, EngineStart False, Usleep 100000, EngineStart False,
        Usleep 100000, EngineStart False, DebugAudioEngine]"
    using all_starts_fail by blast
  from start_engine_retry_limit
      [of failing_start_env start_playout_update "plat playout_initialised"] run
  have "start_attempts (drop (length (trace (plat playout_initialised))) (trace p'))
          \<le> kStartEngineMaxRetries"
    by auto
  with run evs show ?thesis by blast
qed

section \<open>Pacing of the render loop\<close>









section \<open>Debouncing of default-device changes\<close>

lemma run_tasks_dead:
  "\<forall>task\<in>set tasks. safety_flag task \<in> set (not_alive ct) \<Longrightarrow> run_tasks e tasks ct = Some ct"
  by (induction tasks) (auto simp: run_delayed_task_def)

lemma run_tasks_append:
  "run_tasks e (xs @ ys) ct =
     (case run_tasks e xs ct of None \<Rightarrow> None | Some ct' \<Rightarrow> run_tasks e ys ct')"
  by (induction xs arbitrary: ct) (auto split: option.splits)

lemma handle_next:
  assumes inv: "pending_one ct0 ct t sel" and le: "t \<le> t'"
    and gap: "t' - t < kDefaultDeviceUpdateDebounceMs"
  shows "\<exists>ct1. run_due e t' ct = Some ct1 \<and>
           pending_one ct0 (HandleDeviceListenerEvent t' sel' ct1) t' sel'"
proof -
  from inv obtain dead where
    dt: "delayed_tasks ct =
           dead @ [\<lparr> due_ms = t + kDefaultDeviceUpdateDebounceMs,
                     safety_flag = default_device_update_safety ct, task_selector = sel \<rparr>]" and
    dead: "\<forall>task\<in>set dead. safety_flag task \<in> set (not_alive ct)"
    by (auto simp: pending_one_def)
  let ?last = "\<lparr> due_ms = t + kDefaultDeviceUpdateDebounceMs,
                 safety_flag = default_device_update_safety ct, task_selector = sel \<rparr>"
  let ?ct1 = "ct\<lparr>delayed_tasks := filter (\<lambda>task. \<not> due_ms task \<le> t') dead @ [?last]\<rparr>"
  have due: "filter (\<lambda>task. due_ms task \<le> t') (delayed_tasks ct) =
               filter (\<lambda>task. due_ms task \<le> t') dead"
    using dt gap by simp
  have keep: "filter (\<lambda>task. \<not> due_ms task \<le> t') (delayed_tasks ct) =
               filter (\<lambda>task. \<not> due_ms task \<le> t') dead @ [?last]"
    using dt gap by simp
  have "run_due e t' ct = Some ?ct1"
    unfolding run_due_def due keep
    by (rule run_tasks_dead) (use dead in auto)
  moreover have "pending_one ct0 (HandleDeviceListenerEvent t' sel' ?ct1) t' sel'"
    using inv dead
    by (auto simp: pending_one_def HandleDeviceListenerEvent_def)
  ultimately show ?thesis by blast
qed

lemma run_remaining_pending:
  assumes "pending_one ct0 ct t sel"
  shows "run_remaining e ct =
           (case debounced_update e sel (device_obj ct0) of
              None \<Rightarrow> None
            | Some (r, d') \<Rightarrow>
                Some (ct\<lparr>delayed_tasks := [], device_obj := d',
                         update_results := update_results ct0 @ [r]\<rparr>))"
proof -
  from assms obtain dead where
    dt: "delayed_tasks ct =
           dead @ [\<lparr> due_ms = t + kDefaultDeviceUpdateDebounceMs,
                     safety_flag = default_device_update_safety ct, task_selector = sel \<rparr>]" and
    dead: "\<forall>task\<in>set dead. safety_flag task \<in> set (not_alive ct)" and
    alive: "default_device_update_safety ct \<notin> set (not_alive ct)" and
    same: "device_obj ct = device_obj ct0" "update_results ct = update_results ct0"
    by (auto simp: pending_one_def)
  have "run_tasks e dead (ct\<lparr>delayed_tasks := []\<rparr>) = Some (ct\<lparr>delayed_tasks := []\<rparr>)"
    by (rule run_tasks_dead) (use dead in auto)
  then show ?thesis
    using alive same
    by (auto simp: run_remaining_def dt run_tasks_append run_delayed_task_def
        split: option.splits)
qed

lemma debounced_update_result:
  assumes "debounced_update e sel d = Some (r, d')"
  shows "(r = 0 \<longrightarrow> update_count sel (engine_state d') = update_count sel (engine_state d) + 1) \<and>
         (r \<noteq> 0 \<longrightarrow> engine_state d' = engine_state d)"
proof (cases "r = 0")
  case True
  with assms show ?thesis
    by (cases sel)
      (auto simp: debounced_update_def update_count_def dest!: ModifyEngineState_success)
next
  case False
  with assms show ?thesis
    by (cases sel) (auto simp: debounced_update_def dest: ModifyEngineState_failure)
qed

lemma run_tasks_flags:
  "run_tasks e tasks ct = Some ct' \<Longrightarrow>
     delayed_tasks ct' = delayed_tasks ct \<and> not_alive ct' = not_alive ct \<and>
     default_device_update_safety ct' = default_device_update_safety ct \<and>
     flags_created ct' = flags_created ct"
  by (induction tasks arbitrary: ct)
    (auto simp: run_delayed_task_def split: option.splits if_splits)

lemma flags_consistent_idle: "flags_consistent (idle_thread d)"
  by (simp add: flags_consistent_def idle_thread_def)

lemma flags_consistent_handle:
  "flags_consistent ct \<Longrightarrow> flags_consistent (HandleDeviceListenerEvent now sel ct)"
  by (auto simp: flags_consistent_def HandleDeviceListenerEvent_def)

lemma flags_consistent_run_due:
  assumes "run_due e now ct = Some ct'" and "flags_consistent ct"
  shows "flags_consistent ct'"
proof -
  from run_tasks_flags [OF assms(1) [unfolded run_due_def]] assms(2)
  show ?thesis by (auto simp: flags_consistent_def)
qed

lemma flags_consistent_run_events:
  assumes "run_events e evs ct = Some ct'" and "flags_consistent ct"
  shows "flags_consistent ct'"
  using assms
proof (induction evs arbitrary: ct)
  case Nil
  from run_tasks_flags [OF Nil(1) [unfolded run_events.simps run_remaining_def]] Nil(2)
  show ?case by (auto simp: flags_consistent_def)
next
  case (Cons ev evs)
  obtain now sel where ev: "ev = (now, sel)" by (cases ev)
  from Cons.prems(1) ev obtain ct1 where
    due: "run_due e now ct = Some ct1" and
    rest: "run_events e evs (HandleDeviceListenerEvent now sel ct1) = Some ct'"
    by (auto split: option.splits)
  from flags_consistent_run_due [OF due Cons.prems(2)]
  have "flags_consistent (HandleDeviceListenerEvent now sel ct1)"
    by (rule flags_consistent_handle)
  from Cons.IH [OF rest this] show ?case .
qed

lemma handle_first:
  assumes "flags_consistent ct"
  shows "pending_one ct (HandleDeviceListenerEvent t sel ct) t sel"
  using assms by (auto simp: pending_one_def flags_consistent_def HandleDeviceListenerEvent_def)

lemma run_events_pending:
  assumes "pending_one ct0 ct t sel" and "burst (t # map fst evs)"
  shows "\<exists>ct'. pending_one ct0 ct' (fst (last ((t, sel) # evs))) (snd (last ((t, sel) # evs))) \<and>
           run_events e evs ct = run_remaining e ct'"
  using assms
proof (induction evs arbitrary: ct t sel)
  case Nil
  then show ?case by auto
next
  case (Cons ev evs)
  obtain t' sel' where ev: "ev = (t', sel')" by (cases ev)
  from Cons.prems(2) ev have le: "t \<le> t'" and gap: "t' - t < kDefaultDeviceUpdateDebounceMs"
    and rest: "burst (t' # map fst evs)" by auto
  from handle_next [OF Cons.prems(1) le gap, of e sel'] obtain ct1 where
    due: "run_due e t' ct = Some ct1" and
    inv: "pending_one ct0 (HandleDeviceListenerEvent t' sel' ct1) t' sel'" by blast
  from Cons.IH [OF inv rest] obtain ct' where
    "pending_one ct0 ct' (fst (last ((t', sel') # evs))) (snd (last ((t', sel') # evs)))"
    "run_events e evs (HandleDeviceListenerEvent t' sel' ct1) = run_remaining e ct'" by blast
  with due ev show ?case by auto
qed

text \<open>
  Claim C7, as amended. There is one safety flag for both sides. In a control thread
  whose flags are consistent, as they are from construction on, every default-output or
  default-input notification sets the flag not-alive, which cancels every update still
  pending, of either side; puts a fresh flag in its place; and posts a new update due
  500 ms later. Consequently, take a burst of one or more notifications, of either side,
  each less than 500 ms after the one before, with no further notification until
  the posted update has run. Once the updates that were already due when the burst
  began have run, exactly one more update runs: that of the last notification of the
  burst, which asks \<open>ModifyEngineState\<close> for one increment of the counter of that
  notification's side. For a burst on one side this is the counter of that side. When the
  call returns 0 the counter is committed one higher; when it returns an error the
  committed state stays as it was.
\<close>

theorem debounce_single_update:
  assumes "flags_consistent ct" and "burst (t # map fst evs)"
  shows "(\<forall>task\<in>set (delayed_tasks ct).
            safety_flag task \<in> set (not_alive (HandleDeviceListenerEvent now sel' ct))) \<and>
         default_device_update_safety (HandleDeviceListenerEvent now sel' ct)
           \<notin> set (not_alive (HandleDeviceListenerEvent now sel' ct)) \<and>
         delayed_tasks (HandleDeviceListenerEvent now sel' ct) =
           delayed_tasks ct @
             [\<lparr> due_ms = now + 500,
                safety_flag = default_device_update_safety (HandleDeviceListenerEvent now sel' ct),
                task_selector = sel' \<rparr>] \<and>
         flags_consistent (HandleDeviceListenerEvent now sel' ct) \<and>
         (case run_due e t ct of
            None \<Rightarrow> run_events e ((t, sel) # evs) ct = None
          | Some ct1 \<Rightarrow>
              (case debounced_update e (snd (last ((t, sel) # evs))) (device_obj ct1) of
                 None \<Rightarrow> run_events e ((t, sel) # evs) ct = None
               | Some (r, d') \<Rightarrow>
                   (\<exists>ct'. run_events e ((t, sel) # evs) ct = Some ct' \<and>
                      device_obj ct' = d' \<and> update_results ct' = update_results ct1 @ [r] \<and>
                      delayed_tasks ct' = []) \<and>
                   (r = 0 \<longrightarrow>
                      update_count (snd (last ((t, sel) # evs))) (engine_state d') =
                        update_count (snd (last ((t, sel) # evs)))
                          (engine_state (device_obj ct1)) + 1) \<and>
                   (r \<noteq> 0 \<longrightarrow> engine_state d' = engine_state (device_obj ct1))))"
proof -
  let ?sel = "snd (last ((t, sel) # evs))"
  have handler:
    "(\<forall>task\<in>set (delayed_tasks ct).
            safety_flag task \<in> set (not_alive (HandleDeviceListenerEvent now sel' ct))) \<and>
         default_device_update_safety (HandleDeviceListenerEvent now sel' ct)
           \<notin> set (not_alive (HandleDeviceListenerEvent now sel' ct)) \<and>
         delayed_tasks (HandleDeviceListenerEvent now sel' ct) =
           delayed_tasks ct @
             [\<lparr> due_ms = now + 500,
                safety_flag = default_device_update_safety (HandleDeviceListenerEvent now sel' ct),
                task_selector = sel' \<rparr>] \<and>
         flags_consistent (HandleDeviceListenerEvent now sel' ct)"
    using assms(1) flags_consistent_handle [OF assms(1), of now sel']
    by (auto simp: flags_consistent_def HandleDeviceListenerEvent_def
        kDefaultDeviceUpdateDebounceMs_def)
  have burst_part: "(case run_due e t ct of
            None \<Rightarrow> run_events e ((t, sel) # evs) ct = None
          | Some ct1 \<Rightarrow>
              (case debounced_update e ?sel (device_obj ct1) of
                 None \<Rightarrow> run_events e ((t, sel) # evs) ct = None
               | Some (r, d') \<Rightarrow>
                   (\<exists>ct'. run_events e ((t, sel) # evs) ct = Some ct' \<and>
                      device_obj ct' = d' \<and> update_results ct' = update_results ct1 @ [r] \<and>
                      delayed_tasks ct' = []) \<and>
                   (r = 0 \<longrightarrow>
                      update_count ?sel (engine_state d') =
                        update_count ?sel (engine_state (device_obj ct1)) + 1) \<and>
                   (r \<noteq> 0 \<longrightarrow> engine_state d' = engine_state (device_obj ct1))))"
  proof (cases "run_due e t ct")
    case None
    then show ?thesis by simp
  next
    case (Some ct1)
    have c1: "flags_consistent ct1"
      by (rule flags_consistent_run_due [OF Some assms(1)])
    have inv: "pending_one ct1 (HandleDeviceListenerEvent t sel ct1) t sel"
      by (rule handle_first [OF c1])
    from run_events_pending [OF inv assms(2), of e] obtain ct' where
      ct': "pending_one ct1 ct' (fst (last ((t, sel) # evs))) ?sel" and
      run: "run_events e evs (HandleDeviceListenerEvent t sel ct1) = run_remaining e ct'"
      by blast
    have all: "run_events e ((t, sel) # evs) ct = run_remaining e ct'"
      using Some run by simp
    show ?thesis
    proof (cases "debounced_update e ?sel (device_obj ct1)")
      case None
      with all run_remaining_pending [OF ct', of e] Some show ?thesis
        by (simp del: run_events.simps)
    next
      case (Some res) note upd = this
      obtain r d' where res: "res = (r, d')" by (cases res)
      from debounced_update_result [OF upd [unfolded res]]
      have cnt: "(r = 0 \<longrightarrow> update_count ?sel (engine_state d') =
                    update_count ?sel (engine_state (device_obj ct1)) + 1) \<and>
                 (r \<noteq> 0 \<longrightarrow> engine_state d' = engine_state (device_obj ct1))" .
      from all run_remaining_pending [OF ct', of e] upd res
      have "run_events e ((t, sel) # evs) ct =
              Some (ct'\<lparr>delayed_tasks := [], device_obj := d',
                        update_results := update_results ct1 @ [r]\<rparr>)"
        by (simp del: run_events.simps)
      then have "\<exists>ct''. run_events e ((t, sel) # evs) ct = Some ct'' \<and>
                   device_obj ct'' = d' \<and> update_results ct'' = update_results ct1 @ [r] \<and>
                   delayed_tasks ct'' = []" by simp
      with cnt upd res \<open>run_due e t ct = Some ct1\<close> show ?thesis
        by (simp del: run_events.simps)
    qed
  qed
  from handler burst_part show ?thesis by blast
qed

lemma debounced_update_runs:
  "\<exists>d'. debounced_update example_env kAudioHardwarePropertyDefaultOutputDevice
           playout_initialised = Some (0, d')"
  by (simp add: debounced_update_def predicate_defs step_defs run_defs reading_defs)

theorem debounce_single_update_witness:
  "\<exists>ct'. run_events example_env
            [(0, kAudioHardwarePropertyDefaultOutputDevice),
             (200, kAudioHardwarePropertyDefaultOutputDevice),
             (400, kAudioHardwarePropertyDefaultOutputDevice)]
            (idle_thread playout_initialised) = Some ct' \<and>
     update_results ct' = [0] \<and> delayed_tasks ct' = [] \<and>
     default_output_device_update_count (engine_state (device_obj ct')) = 1"
proof -
  let ?out = kAudioHardwarePropertyDefaultOutputDevice
  let ?evs = "[(200 :: int, ?out), (400, ?out)]"
  obtain d' where
    upd: "debounced_update example_env ?out playout_initialised = Some (0, d')"
    using debounced_update_runs by blast
  have b: "burst (0 # map fst ?evs)"
    by (simp add: kDefaultDeviceUpdateDebounceMs_def)
  have i: "flags_consistent (idle_thread playout_initialised)"
    by (simp add: flags_consistent_def idle_thread_def)
  have due: "run_due example_env 0 (idle_thread playout_initialised)
               = Some (idle_thread playout_initialised)"
    by (simp add: run_due_def idle_thread_def)
  have dev: "device_obj (idle_thread playout_initialised) = playout_initialised"
    "update_results (idle_thread playout_initialised) = []"
    by (simp_all add: idle_thread_def)
  have cnt: "update_count ?out (engine_state playout_initialised) = 0"
    by (simp add: update_count_def playout_initialised_def default_EngineState_def)
  have l: "snd (last ((0 :: int, ?out) # ?evs)) = ?out" by simp
  note single = debounce_single_update [OF i b, where e = example_env and sel = ?out
      and now = 0 and sel' = ?out,
      THEN conjunct2, THEN conjunct2, THEN conjunct2, THEN conjunct2]
  from single upd dev cnt due l obtain ct' where
    "run_events example_env ((0, ?out) # ?evs) (idle_thread playout_initialised) = Some ct'"
    "device_obj ct' = d'" "update_results ct' = [0]" "delayed_tasks ct' = []"
    "update_count ?out (engine_state d') = 1"
    by (auto simp del: run_events.simps)
  then show ?thesis
    by (intro exI [of _ ct']) (simp add: update_count_def del: run_events.simps)
qed

text \<open>
  Claim C7 as stated fails at two inputs, both on \<open>playout_initialised\<close> (output
  enabled on the default device). With no output hardware available, three
  default-output notifications at 0, 200 and 400 ms lead to one update; recreating the
  engine fails with \<^verbatim>\<open>kAudioEnginePlayoutDeviceNotAvailableError\<close> and the counter stays
  at 0: no increment is committed. With working hardware, three default-output
  notifications at 0, 100 and 200 ms followed by a default-input notification at 300 ms
  lead to one update, that of the input side: the output counter stays at 0.
\<close>

theorem debounce_commit_counterexample:
  "burst [0, 200, 400] \<and>
   IsOutputDefaultDevice (engine_state playout_initialised) \<and>
   default_output_device_update_count (engine_state playout_initialised) = 0 \<and>
   map_option update_results
     (run_events unplugged_env
        [(0, kAudioHardwarePropertyDefaultOutputDevice),
         (200, kAudioHardwarePropertyDefaultOutputDevice),
         (400, kAudioHardwarePropertyDefaultOutputDevice)]
        (idle_thread playout_initialised)) = Some [- 3010] \<and>
   map_option (default_output_device_update_count \<circ> engine_state \<circ> device_obj)
     (run_events unplugged_env
        [(0, kAudioHardwarePropertyDefaultOutputDevice),
         (200, kAudioHardwarePropertyDefaultOutputDevice),
         (400, kAudioHardwarePropertyDefaultOutputDevice)]
        (idle_thread playout_initialised)) = Some 0 \<and>
   burst [0, 100, 200, 300] \<and>
   map_option update_results
     (run_events example_env
        [(0, kAudioHardwarePropertyDefaultOutputDevice),
         (100, kAudioHardwarePropertyDefaultOutputDevice),
         (200, kAudioHardwarePropertyDefaultOutputDevice),
         (300, kAudioHardwarePropertyDefaultInputDevice)]
        (idle_thread playout_initialised)) = Some [0] \<and>
   map_option (default_output_device_update_count \<circ> engine_state \<circ> device_obj)
     (run_events example_env
        [(0, kAudioHardwarePropertyDefaultOutputDevice),
         (100, kAudioHardwarePropertyDefaultOutputDevice),
         (200, kAudioHardwarePropertyDefaultOutputDevice),
         (300, kAudioHardwarePropertyDefaultInputDevice)]
        (idle_thread playout_initialised)) = Some 0 \<and>
   map_option (default_input_device_update_count \<circ> engine_state \<circ> device_obj)
     (run_events example_env
        [(0, kAudioHardwarePropertyDefaultOutputDevice),
         (100, kAudioHardwarePropertyDefaultOutputDevice),
         (200, kAudioHardwarePropertyDefaultOutputDevice),
         (300, kAudioHardwarePropertyDefaultInputDevice)]
        (idle_thread playout_initialised)) = Some 1"
  by (simp add: unplugged_env_def idle_thread_def run_due_def run_remaining_def
      run_delayed_task_def HandleDeviceListenerEvent_def debounced_update_def
      kDefaultDeviceUpdateDebounceMs_def predicate_defs step_defs run_defs reading_defs)

end
